(* ===== verification/Prelude.thy ===== *)
theory Prelude
  imports Main "HOL-Library.AList" "HOL-Library.Multiset" "HOL-Library.Word"
    "HOL-Library.List_Lexorder" "HOL-Library.Char_ord" "HOL-Library.Code_Target_Nat"
begin

text \<open>
  What every component of the overlay network shares: Go error values, the three ways a Go call
  can end, Go maps with their unspecified range order, and the list lemmas the components use.
\<close>

section \<open>Errors and outcomes\<close>

text \<open>
  A Go error is kept structured instead of rendered: the format string of the
  \<^verbatim>\<open>fmt.Errorf\<close> or \<^verbatim>\<open>errors.New\<close> call with its arguments, an error wrapped with
  \<^verbatim>\<open>%w\<close>, or an error that the environment (kernel, charon, file system, network) reports.
\<close>

datatype go_error =
    Errorf string "string list"
  | Wrapf string "string list" go_error
  | EnvError string

text \<open>A call that may hit a run-time panic has a third way to end.\<close>

datatype 'a outcome = Ok 'a | Err go_error | Panic string

type_synonym 'a result = "go_error + 'a"

text \<open>The accumulation pattern of the backends: the first error of a sequence is the one kept.\<close>

definition firstOf :: "go_error option \<Rightarrow> go_error \<Rightarrow> go_error option" where
  "firstOf firstErr err = (case firstErr of None \<Rightarrow> Some err | Some e \<Rightarrow> Some e)"

lemma firstOf_not_None [simp]: "firstOf f e \<noteq> None"
  by (simp add: firstOf_def split: option.split)

lemma firstOf_Some [simp]: "firstOf (Some a) e = Some a"
  by (simp add: firstOf_def)

section \<open>Go maps\<close>

text \<open>
  A Go map with string keys is an association list with distinct keys (\<open>gomap_ok\<close>). A map that
  comes in from outside lists its pairs in the order a range visits them, so a theorem for every
  such list is a theorem for every range order. A map that the program builds and then ranges
  over is visited in the order that the argument \<open>ro\<close> gives: \<open>ro\<close> maps the number of the range
  statement and the keys to the visiting order, and the language only promises that this is a
  permutation (\<open>valid_order\<close>).
\<close>

type_synonym 'v gomap = "(string \<times> 'v) list"
type_synonym map_order = "nat \<Rightarrow> string list \<Rightarrow> string list"

named_theorems gomap_simps "evaluation and lookup rules for Go maps"

definition gomap_ok :: "'v gomap \<Rightarrow> bool" where
  "gomap_ok m \<longleftrightarrow> distinct (map fst m)"

definition mput :: "string \<Rightarrow> 'v \<Rightarrow> 'v gomap \<Rightarrow> 'v gomap" where
  "mput k v m = AList.update k v m"

definition mdel :: "string \<Rightarrow> 'v gomap \<Rightarrow> 'v gomap" where
  "mdel k m = AList.delete k m"

definition mgetd :: "'v \<Rightarrow> 'v gomap \<Rightarrow> string \<Rightarrow> 'v" where
  "mgetd d m k = (case map_of m k of None \<Rightarrow> d | Some v \<Rightarrow> v)"

abbreviation mtest :: "bool gomap \<Rightarrow> string \<Rightarrow> bool" where
  "mtest m k \<equiv> mgetd False m k"

definition valid_order :: "map_order \<Rightarrow> bool" where
  "valid_order ro \<longleftrightarrow> (\<forall>i ks. mset (ro i ks) = mset ks)"

definition go_range :: "map_order \<Rightarrow> nat \<Rightarrow> 'v gomap \<Rightarrow> (string \<times> 'v) list" where
  "go_range ro i m = List.map_filter (\<lambda>k. map_option (Pair k) (map_of m k)) (ro i (map fst m))"

lemma map_of_mput [simp, gomap_simps]: "map_of (mput k v m) = (map_of m)(k \<mapsto> v)"
  by (simp add: mput_def update_conv')

lemma map_of_mdel [simp, gomap_simps]: "map_of (mdel k m) = (map_of m)(k := None)"
  by (simp add: mdel_def delete_conv')

lemma gomap_ok_Nil [simp, intro!]: "gomap_ok []"
  by (simp add: gomap_ok_def)

lemma gomap_ok_mput [simp, intro]: "gomap_ok m \<Longrightarrow> gomap_ok (mput k v m)"
  by (simp add: gomap_ok_def mput_def distinct_update)

lemma gomap_ok_mdel [simp, intro]: "gomap_ok m \<Longrightarrow> gomap_ok (mdel k m)"
  by (simp add: gomap_ok_def mdel_def distinct_delete)

lemma mgetd_mput [simp]: "mgetd d (mput k v m) k' = (if k' = k then v else mgetd d m k')"
  by (simp add: mgetd_def)

lemma mgetd_mdel [simp]: "mgetd d (mdel k m) k' = (if k' = k then d else mgetd d m k')"
  by (simp add: mgetd_def)

lemma mgetd_Nil [simp]: "mgetd d [] k = d"
  by (simp add: mgetd_def)

lemma mtest_iff: "mtest m k \<longleftrightarrow> map_of m k = Some True"
  by (auto simp: mgetd_def split: option.split)

lemma gomap_map_of_iff: "gomap_ok m \<Longrightarrow> map_of m k = Some v \<longleftrightarrow> (k, v) \<in> set m"
  by (simp add: gomap_ok_def)

lemma keys_mput: "fst ` set (mput k v m) = insert k (fst ` set m)"
  by (metis dom_map_of_conv_image_fst map_of_mput dom_fun_upd option.distinct(1))

lemma keys_mdel: "fst ` set (mdel k m) = fst ` set m - {k}"
  by (metis dom_map_of_conv_image_fst map_of_mdel dom_fun_upd)

lemma mput_nonempty [simp]: "mput k v m \<noteq> []"
  using keys_mput[of k v m] by auto

subsection \<open>Ranges\<close>

lemma valid_order_set: "valid_order ro \<Longrightarrow> set (ro i ks) = set ks"
  unfolding valid_order_def by (metis set_mset_mset)

lemma valid_order_distinct: "valid_order ro \<Longrightarrow> distinct (ro i ks) = distinct ks"
  unfolding valid_order_def by (metis mset_eq_imp_distinct_iff)

lemma valid_order_id [simp, intro!]: "valid_order (\<lambda>_ ks. ks)"
  by (simp add: valid_order_def)

lemma valid_order_rev [simp, intro!]: "valid_order (\<lambda>_ ks. rev ks)"
  by (simp add: valid_order_def)

lemma in_go_range_imp: "(k, v) \<in> set (go_range ro i m) \<Longrightarrow> map_of m k = Some v"
  by (auto simp: go_range_def List.map_filter_def)

lemma set_go_range: "valid_order ro \<Longrightarrow> (k, v) \<in> set (go_range ro i m) \<longleftrightarrow> map_of m k = Some v"
  using in_go_range_imp[of k v ro i m]
  by (force simp: go_range_def List.map_filter_def valid_order_set image_iff
      dest: map_of_SomeD intro!: exI[where x = k])

lemma map_fst_map_filter_pair:
  "map fst (List.map_filter (\<lambda>k. map_option (Pair k) (f k)) ks) = filter (\<lambda>k. f k \<noteq> None) ks"
  by (induction ks) (auto simp: List.map_filter_def)

lemma distinct_go_range:
  "valid_order ro \<Longrightarrow> gomap_ok m \<Longrightarrow> distinct (map fst (go_range ro i m))"
  by (simp add: go_range_def map_fst_map_filter_pair valid_order_distinct gomap_ok_def)

lemma map_of_go_range:
  assumes "valid_order ro" "gomap_ok m"
  shows "map_of (go_range ro i m) = map_of m"
proof
  fix k
  have "map_of (go_range ro i m) k = Some v \<longleftrightarrow> map_of m k = Some v" for v
    using distinct_go_range[OF assms, of i] by (simp add: set_go_range[OF assms(1)])
  then show "map_of (go_range ro i m) k = map_of m k"
    by (metis option.exhaust)
qed

lemma map_filter_map_of_self:
  "distinct (map fst m) \<Longrightarrow>
   List.map_filter (\<lambda>k. map_option (Pair k) (map_of m k)) (map fst m) = m"
proof -
  assume d: "distinct (map fst m)"
  have "List.map_filter (\<lambda>k. map_option (Pair k) (map_of m k)) (map fst xs) = xs"
    if "set xs \<subseteq> set m" for xs
    using that d
    by (induction xs) (auto simp: List.map_filter_def)
  then show ?thesis by simp
qed

lemma go_range_id [simp]: "gomap_ok m \<Longrightarrow> go_range (\<lambda>_ ks. ks) i m = m"
  by (simp add: go_range_def gomap_ok_def map_filter_map_of_self)

lemma mset_go_range:
  assumes "valid_order ro" "gomap_ok m"
  shows "mset (go_range ro i m) = mset m"
proof -
  let ?f = "\<lambda>k. map_option (Pair k) (map_of m k)"
  have mf: "mset (List.map_filter ?f xs) = image_mset (the \<circ> ?f) (filter_mset (\<lambda>k. ?f k \<noteq> None) (mset xs))"
    for xs by (simp add: List.map_filter_def)
  have "mset (go_range ro i m) = mset (List.map_filter ?f (map fst m))"
    using assms(1) unfolding go_range_def mf valid_order_def by simp
  then show ?thesis
    using assms(2) by (simp add: gomap_ok_def map_filter_map_of_self)
qed

section \<open>Lists\<close>

lemma sort_cong_mset: "mset xs = mset ys \<Longrightarrow> sort xs = (sort ys :: 'a::linorder list)"
  by (metis mset_sort properties_for_sort sorted_sort)

lemma foldl_preserves: "P a \<Longrightarrow> (\<And>a x. x \<in> set xs \<Longrightarrow> P a \<Longrightarrow> P (f a x)) \<Longrightarrow> P (foldl f a xs)"
  by (induction xs arbitrary: a) auto

lemma fold_preserves: "P a \<Longrightarrow> (\<And>a x. x \<in> set xs \<Longrightarrow> P a \<Longrightarrow> P (f x a)) \<Longrightarrow> P (fold f xs a)"
  by (induction xs arbitrary: a) auto

section \<open>Words\<close>

lemma unat_u64: "unat (n :: 64 word) < 2 ^ 64"
  using unsigned_less[of n] by simp

end
