(* ===== verification/Go_Strings.thy ===== *)
theory Go_Strings
  imports Prelude
begin

text \<open>
  The parts of Go's \<^verbatim>\<open>strings\<close> and \<^verbatim>\<open>strconv\<close> packages that the program calls, on byte strings
  (a Go string is a sequence of bytes, and a HOL \<open>char\<close> is a byte), and the log sanitiser
  \<^verbatim>\<open>internal/logsafe/value.go\<close>.
\<close>

section \<open>Prefixes, splitting and trimming\<close>

definition hasPrefix :: "string \<Rightarrow> string \<Rightarrow> bool" where
  "hasPrefix s p \<longleftrightarrow> take (length p) s = p"

definition trimPrefix :: "string \<Rightarrow> string \<Rightarrow> string" where
  "trimPrefix s p = (if hasPrefix s p then drop (length p) s else s)"

text \<open>\<^verbatim>\<open>strings.Split\<close> with a one-byte separator; the result is never empty.\<close>

fun split_on :: "char \<Rightarrow> string \<Rightarrow> string list" where
  "split_on c [] = [[]]"
| "split_on c (x # xs) =
     (if x = c then [] # split_on c xs
      else case split_on c xs of [] \<Rightarrow> [[x]] | h # t \<Rightarrow> (x # h) # t)"

text \<open>\<^verbatim>\<open>strings.Split(s, sep)[0]\<close>.\<close>

definition split_head :: "char \<Rightarrow> string \<Rightarrow> string" where
  "split_head c s = hd (split_on c s)"

text \<open>\<^verbatim>\<open>strings.Cut\<close> at a one-byte separator: before, after, found.\<close>

definition cut :: "char \<Rightarrow> string \<Rightarrow> string \<times> string \<times> bool" where
  "cut c s = (if c \<in> set s then (takeWhile (\<lambda>x. x \<noteq> c) s, tl (dropWhile (\<lambda>x. x \<noteq> c) s), True)
              else (s, [], False))"

text \<open>\<^verbatim>\<open>strings.Trim\<close> with a set of one-byte characters.\<close>

definition trim_set :: "string \<Rightarrow> string \<Rightarrow> string" where
  "trim_set cs s = rev (dropWhile (\<lambda>x. x \<in> set cs) (rev (dropWhile (\<lambda>x. x \<in> set cs) s)))"

text \<open>\<^verbatim>\<open>strings.LastIndex\<close> of a one-byte separator, as the text before and after it.\<close>

definition split_last :: "char \<Rightarrow> string \<Rightarrow> (string \<times> string) option" where
  "split_last c s =
     (if c \<in> set s
      then Some (rev (tl (dropWhile (\<lambda>x. x \<noteq> c) (rev s))), rev (takeWhile (\<lambda>x. x \<noteq> c) (rev s)))
      else None)"

text \<open>
  \<^verbatim>\<open>strings.TrimSpace\<close> removes every code point with the Unicode White_Space property. The
  multi-byte ones are given by their UTF-8 encodings.
\<close>

definition unicode_spaces :: "nat list list" where
  "unicode_spaces =
     [[9], [10], [11], [12], [13], [32], [194, 133], [194, 160], [225, 154, 128],
      [226, 128, 128], [226, 128, 129], [226, 128, 130], [226, 128, 131], [226, 128, 132],
      [226, 128, 133], [226, 128, 134], [226, 128, 135], [226, 128, 136], [226, 128, 137],
      [226, 128, 138], [226, 128, 168], [226, 128, 169], [226, 128, 175], [226, 129, 159],
      [227, 128, 128]]"

definition space_strings :: "string list" where
  "space_strings = map (map char_of) unicode_spaces"

fun trim_left_by :: "nat \<Rightarrow> string list \<Rightarrow> string \<Rightarrow> string" where
  "trim_left_by 0 ps s = s"
| "trim_left_by (Suc n) ps s =
     (case filter (\<lambda>p. hasPrefix s p) ps of
        [] \<Rightarrow> s
      | p # _ \<Rightarrow> trim_left_by n ps (drop (length p) s))"

definition trimSpace :: "string \<Rightarrow> string" where
  "trimSpace s =
     (let l = trim_left_by (length s) space_strings s
      in rev (trim_left_by (length l) (map rev space_strings) (rev l)))"

lemma hasPrefix_append [simp]: "hasPrefix (p @ s) p"
  by (simp add: hasPrefix_def)

lemma trimPrefix_append [simp]: "trimPrefix (p @ s) p = s"
  by (simp add: trimPrefix_def)

lemma hasPrefix_iff: "hasPrefix s p \<longleftrightarrow> (\<exists>t. s = p @ t)"
  by (metis append_take_drop_id hasPrefix_append hasPrefix_def)

lemma split_on_not_Nil [simp]: "split_on c s \<noteq> []"
  by (induction s) (auto split: list.split)

lemma split_on_notin [simp]: "c \<notin> set s \<Longrightarrow> split_on c s = [s]"
  by (induction s) auto

lemma split_on_append [simp]: "c \<notin> set a \<Longrightarrow> split_on c (a @ c # b) = a # split_on c b"
  by (induction a) auto

lemma split_head_eq: "split_head c s = takeWhile (\<lambda>x. x \<noteq> c) s"
proof (induction s)
  case (Cons x xs)
  then show ?case
    by (cases "split_on c xs") (auto simp: split_head_def)
qed (simp add: split_head_def)

lemma split_head_append [simp]: "c \<notin> set a \<Longrightarrow> split_head c (a @ c # b) = a"
  by (simp add: split_head_def)

lemma split_head_notin [simp]: "c \<notin> set a \<Longrightarrow> split_head c a = a"
  by (simp add: split_head_def)

lemma sep_notin_split_head [simp]: "c \<notin> set (split_head c s)"
  by (auto simp: split_head_eq dest: set_takeWhileD)

lemma takeWhile_sep [simp]: "c \<notin> set a \<Longrightarrow> takeWhile (\<lambda>x. x \<noteq> c) (a @ c # b) = a"
  by (induction a) auto

lemma dropWhile_sep [simp]: "c \<notin> set a \<Longrightarrow> dropWhile (\<lambda>x. x \<noteq> c) (a @ c # b) = c # b"
  by (induction a) auto

lemma takeWhile_no_sep [simp]: "c \<notin> set a \<Longrightarrow> takeWhile (\<lambda>x. x \<noteq> c) a = a"
  by (induction a) auto

lemma cut_append [simp]: "c \<notin> set a \<Longrightarrow> cut c (a @ c # b) = (a, b, True)"
  by (simp add: cut_def)

lemma cut_eq_split_head: "fst (cut c s) = split_head c s"
  by (simp add: cut_def split_head_eq)

lemma trim_set_id: "s = [] \<or> (hd s \<notin> set cs \<and> last s \<notin> set cs) \<Longrightarrow> trim_set cs s = s"
  by (cases "s = []") (auto simp: trim_set_def dropWhile_eq_self_iff[THEN iffD2] hd_rev)

lemma split_last_append:
  assumes "c \<notin> set b"
  shows "split_last c (a @ c # b) = Some (a, b)"
  using assms by (simp add: split_last_def)

section \<open>Numbers\<close>

definition isDigit :: "char \<Rightarrow> bool" where
  "isDigit c \<longleftrightarrow> 48 \<le> (of_char c :: nat) \<and> (of_char c :: nat) \<le> 57"

definition dec_val :: "string \<Rightarrow> nat" where
  "dec_val s = foldl (\<lambda>n c. 10 * n + (of_char c - 48)) 0 s"

text \<open>\<^verbatim>\<open>strconv.ParseUint(s, 10, bits)\<close>: every syntax or range error is \<open>None\<close>.\<close>

definition parseUint :: "nat \<Rightarrow> string \<Rightarrow> nat option" where
  "parseUint bits s =
     (if s \<noteq> [] \<and> list_all isDigit s \<and> dec_val s < 2 ^ bits then Some (dec_val s) else None)"

text \<open>\<^verbatim>\<open>strconv.Atoi\<close> on a 64-bit platform.\<close>

definition atoi :: "string \<Rightarrow> int option" where
  "atoi s =
     (let neg = (s \<noteq> [] \<and> hd s = CHR ''-'');
          t = (if s \<noteq> [] \<and> (hd s = CHR ''-'' \<or> hd s = CHR ''+'') then tl s else s)
      in if t \<noteq> [] \<and> list_all isDigit t
         then (if neg then (if dec_val t \<le> 2 ^ 63 then Some (- int (dec_val t)) else None)
               else (if dec_val t < 2 ^ 63 then Some (int (dec_val t)) else None))
         else None)"

text \<open>\<^verbatim>\<open>strconv.Itoa\<close> on a non-negative number.\<close>

fun itoa :: "nat \<Rightarrow> string" where
  "itoa n = (if n < 10 then [char_of (48 + n)] else itoa (n div 10) @ [char_of (48 + n mod 10)])"

declare itoa.simps [simp del]

definition itoa_int :: "int \<Rightarrow> string" where
  "itoa_int i = (if i < 0 then CHR ''-'' # itoa (nat (- i)) else itoa (nat i))"

lemma dec_val_snoc: "dec_val (s @ [c]) = 10 * dec_val s + (of_char c - 48)"
  by (simp add: dec_val_def)

lemma of_digit_char: "d < 10 \<Longrightarrow> of_char (char_of (48 + d) :: char) = (48 + d :: nat)"
  by simp

lemma digit_char:
  "d < 10 \<Longrightarrow> isDigit (char_of (48 + d)) \<and> of_char (char_of (48 + d) :: char) - 48 = (d :: nat)"
  by (simp add: isDigit_def)

lemma itoa_not_Nil [simp]: "itoa n \<noteq> []"
  by (subst itoa.simps) simp

lemma itoa_digits [simp]: "list_all isDigit (itoa n)"
proof (induction n rule: itoa.induct)
  case (1 n)
  then show ?case
    using digit_char[of n] digit_char[of "n mod 10"] by (subst itoa.simps) simp
qed

lemma dec_val_itoa [simp]: "dec_val (itoa n) = n"
proof (induction n rule: itoa.induct)
  case (1 n)
  then show ?case
    using digit_char[of n] digit_char[of "n mod 10"]
    by (subst itoa.simps) (auto simp: dec_val_snoc, simp add: dec_val_def)
qed

lemma parseUint_itoa [simp]: "parseUint bits (itoa n) = (if n < 2 ^ bits then Some n else None)"
  by (simp add: parseUint_def)

lemma itoa_inj [simp]: "itoa m = itoa n \<longleftrightarrow> m = n"
  by (metis dec_val_itoa)

lemma itoa_no_leading_zero: "n \<noteq> 0 \<Longrightarrow> hd (itoa n) \<noteq> CHR ''0''"
proof (induction n rule: itoa.induct)
  case (1 n)
  show ?case
  proof (cases "n < 10")
    case True
    have "char_of (48 + n) \<noteq> CHR ''0''"
    proof
      assume "char_of (48 + n) = CHR ''0''"
      then have "of_char (char_of (48 + n) :: char) = (48 :: nat)" by simp
      then show False using True 1(2) of_digit_char[of n] by simp
    qed
    then show ?thesis using True by (subst itoa.simps) simp
  next
    case False
    then show ?thesis using 1 by (subst itoa.simps) simp
  qed
qed

lemma isDigit_neq:
  "isDigit c \<Longrightarrow> c \<noteq> CHR ''.'' \<and> c \<noteq> CHR ''-'' \<and> c \<noteq> CHR ''/'' \<and> c \<noteq> CHR '':'' \<and> c \<noteq> CHR ''%''"
  by (auto simp: isDigit_def)

lemma notin_itoa [simp]:
  "CHR ''.'' \<notin> set (itoa n)" "CHR ''-'' \<notin> set (itoa n)" "CHR ''/'' \<notin> set (itoa n)"
  "CHR '':'' \<notin> set (itoa n)" "CHR ''%'' \<notin> set (itoa n)"
  using itoa_digits[of n] by (auto simp: list_all_iff dest: isDigit_neq)

lemma length_itoa: "n < 10 ^ k \<Longrightarrow> 0 < k \<Longrightarrow> length (itoa n) \<le> k"
proof (induction n arbitrary: k rule: itoa.induct)
  case (1 n)
  show ?case
  proof (cases "n < 10")
    case True
    then show ?thesis using 1 by (subst itoa.simps) simp
  next
    case False
    then obtain j where k: "k = Suc j" "0 < j"
      using 1(2,3) by (cases k; cases "k - 1") auto
    then have "n div 10 < 10 ^ j" using 1(2) by (simp add: less_mult_imp_div_less mult.commute)
    then show ?thesis using 1(1) False k by (subst itoa.simps) simp
  qed
qed

section \<open>The log sanitiser\<close>

text \<open>
  \<^verbatim>\<open>logsafe.Value\<close> on an already rendered value: carriage returns are removed first, then every
  newline becomes a space.
\<close>

definition replace_char :: "char \<Rightarrow> string \<Rightarrow> string \<Rightarrow> string" where
  "replace_char c r s = concat (map (\<lambda>x. if x = c then r else [x]) s)"

definition logsafe_Value :: "string \<Rightarrow> string" where
  "logsafe_Value text = replace_char (char_of (10::nat)) '' '' (replace_char (char_of (13::nat)) [] text)"

lemma set_replace_char: "set (replace_char c r s) \<subseteq> (set s - {c}) \<union> set r"
  by (auto simp: replace_char_def split: if_splits)

lemma replace_char_id: "c \<notin> set s \<Longrightarrow> replace_char c r s = s"
  by (induction s) (auto simp: replace_char_def)

end
