(* ===== verification/Go_Net.thy ===== *)
theory Go_Net
  imports Go_Strings
begin

text \<open>
  Go's \<^verbatim>\<open>net\<close> and \<^verbatim>\<open>net/netip\<close> address parsing and printing, as the standard library does it.
  A \<^verbatim>\<open>net.IP\<close> or \<^verbatim>\<open>net.IPMask\<close> is a byte slice (the nil slice is \<open>[]\<close>); a parsed address is
  held in 16 bytes, and IPv4 lives in the \<^verbatim>\<open>::ffff:0:0/96\<close> block.
\<close>

unbundle bit_operations_syntax

type_synonym byte = "8 word"
type_synonym go_ip = "byte list"

datatype ipnet = IPNet (net_ip: go_ip) (net_mask: "byte list")

datatype netip_addr = Addr4 "byte list" | Addr6 "byte list" string

section \<open>IPv4 text\<close>

definition parse_octet :: "string \<Rightarrow> byte option" where
  "parse_octet s =
     (if s \<noteq> [] \<and> list_all isDigit s \<and> (hd s = CHR ''0'' \<longrightarrow> length s = 1) \<and> dec_val s \<le> 255
      then Some (word_of_nat (dec_val s)) else None)"

definition parse_ipv4 :: "string \<Rightarrow> byte list option" where
  "parse_ipv4 s =
     (let ps = split_on CHR ''.'' s
      in if length ps = 4 then those (map parse_octet ps) else None)"

fun join :: "string \<Rightarrow> string list \<Rightarrow> string" where
  "join sep [] = []"
| "join sep [x] = x"
| "join sep (x # y # r) = x @ sep @ join sep (y # r)"

definition show_ipv4 :: "byte list \<Rightarrow> string" where
  "show_ipv4 b = join ''.'' (map (\<lambda>x. itoa (unat x)) b)"

section \<open>IPv6 text\<close>

definition hex_val :: "char \<Rightarrow> nat option" where
  "hex_val c =
     (let n = of_char c :: nat
      in if 48 \<le> n \<and> n \<le> 57 then Some (n - 48)
         else if 97 \<le> n \<and> n \<le> 102 then Some (n - 87)
         else if 65 \<le> n \<and> n \<le> 70 then Some (n - 55) else None)"

definition is_hex :: "char \<Rightarrow> bool" where
  "is_hex c \<longleftrightarrow> hex_val c \<noteq> None"

definition hex_num :: "string \<Rightarrow> nat" where
  "hex_num s = foldl (\<lambda>n c. 16 * n + the (hex_val c)) 0 s"

text \<open>
  The field loop of \<^verbatim>\<open>netip.parseIPv6\<close>: the bytes so far, the position of the ellipsis, the rest
  of the text. It leaves the loop at 16 bytes, at the end of the text, or after an embedded IPv4
  address; every error is \<open>None\<close>.
\<close>

datatype step6 = Fail6 | Done6 "byte list" "nat option" | More6 "byte list" "nat option" string

definition parse6_step :: "byte list \<Rightarrow> nat option \<Rightarrow> string \<Rightarrow> step6" where
  "parse6_step acc ell s =
     (let g = takeWhile is_hex s; r = dropWhile is_hex s
      in if g = [] \<or> 4 < length g then Fail6
         else if r \<noteq> [] \<and> hd r = CHR ''.'' then
           (if ell = None \<and> length acc \<noteq> 12 then Fail6
            else if 16 < length acc + 4 then Fail6
            else case parse_ipv4 s of None \<Rightarrow> Fail6 | Some b \<Rightarrow> Done6 (acc @ b) ell)
         else let acc' = acc @ [word_of_nat (hex_num g div 256), word_of_nat (hex_num g)]
         in if r = [] then Done6 acc' ell
            else if hd r \<noteq> CHR '':'' \<or> tl r = [] then Fail6
            else let s' = tl r
            in if hd s' = CHR '':'' then
                 (if ell \<noteq> None then Fail6
                  else if tl s' = [] then Done6 acc' (Some (length acc'))
                  else More6 acc' (Some (length acc')) (tl s'))
               else More6 acc' ell s')"

lemma parse6_step_More: "parse6_step acc ell s = More6 a e s' \<Longrightarrow> length a = length acc + 2"
  by (auto simp: parse6_step_def Let_def split: if_splits option.splits)

function parse6_loop ::
  "byte list \<Rightarrow> nat option \<Rightarrow> string \<Rightarrow> (byte list \<times> nat option \<times> string) option" where
  "parse6_loop acc ell s =
     (if 16 \<le> length acc then Some (acc, ell, s)
      else case parse6_step acc ell s of
        Fail6 \<Rightarrow> None
      | Done6 a e \<Rightarrow> Some (a, e, [])
      | More6 a e s' \<Rightarrow> parse6_loop a e s')"
  by pat_completeness auto
termination
  by (relation "measure (\<lambda>(acc, _, _). 16 - length acc)") (auto dest: parse6_step_More)

declare parse6_loop.simps [simp del]

text \<open>After the loop: no trailing text, and the ellipsis stands for at least one zero field.\<close>

definition finish6 :: "string \<Rightarrow> byte list \<times> nat option \<times> string \<Rightarrow> netip_addr option" where
  "finish6 zone st =
     (let (acc, ell, rest) = st
      in if rest \<noteq> [] then None
         else if length acc < 16 then
           (case ell of
              None \<Rightarrow> None
            | Some e \<Rightarrow> Some (Addr6 (take e acc @ replicate (16 - length acc) 0 @ drop e acc) zone))
         else if ell \<noteq> None then None
         else Some (Addr6 acc zone))"

definition parse_ipv6 :: "string \<Rightarrow> netip_addr option" where
  "parse_ipv6 inp =
     (let (t, zone, z) = cut CHR ''%'' inp;
          lead = hasPrefix t ''::'';
          s = (if lead then drop 2 t else t)
      in if z \<and> zone = [] then None
         else if lead \<and> s = [] then Some (Addr6 (replicate 16 0) zone)
         else Option.bind (parse6_loop [] (if lead then Some 0 else None) s) (finish6 zone))"

definition parseAddr :: "string \<Rightarrow> netip_addr option" where
  "parseAddr s =
     (case dropWhile (\<lambda>c. c \<noteq> CHR ''.'' \<and> c \<noteq> CHR '':'' \<and> c \<noteq> CHR ''%'') s of
        [] \<Rightarrow> None
      | c # _ \<Rightarrow> if c = CHR ''.'' then map_option Addr4 (parse_ipv4 s)
                 else if c = CHR '':'' then parse_ipv6 s else None)"

text \<open>Printing: the longest run of at least two zero fields becomes the ellipsis, the first one wins.\<close>

definition hex_char :: "nat \<Rightarrow> char" where
  "hex_char d = (if d < 10 then char_of (48 + d) else char_of (87 + d))"

fun hex_str :: "nat \<Rightarrow> string" where
  "hex_str n = (if n < 16 then [hex_char n] else hex_str (n div 16) @ [hex_char (n mod 16)])"

declare hex_str.simps [simp del]

fun fields16 :: "byte list \<Rightarrow> nat list" where
  "fields16 (a # b # r) = (256 * unat a + unat b) # fields16 r"
| "fields16 _ = []"

fun zero_run :: "nat \<Rightarrow> nat list \<Rightarrow> nat \<times> nat \<Rightarrow> nat \<times> nat" where
  "zero_run i [] best = best"
| "zero_run i (f # fs) best =
     (let l = length (takeWhile (\<lambda>x. x = 0) (f # fs))
      in zero_run (Suc i) fs (if 2 \<le> l \<and> snd best < l then (i, l) else best))"

definition show_ipv6 :: "byte list \<Rightarrow> string" where
  "show_ipv6 b =
     (let fs = fields16 b; (z, l) = zero_run 0 fs (0, 0)
      in if l = 0 then join '':'' (map hex_str fs)
         else join '':'' (map hex_str (take z fs)) @ ''::'' @ join '':'' (map hex_str (drop (z + l) fs)))"

section \<open>net.IP\<close>

definition v4InV6Prefix :: "byte list" where
  "v4InV6Prefix = replicate 10 0 @ [255, 255]"

definition as16 :: "netip_addr \<Rightarrow> go_ip" where
  "as16 a = (case a of Addr4 b \<Rightarrow> v4InV6Prefix @ b | Addr6 b _ \<Rightarrow> b)"

definition addr_zone :: "netip_addr \<Rightarrow> string" where
  "addr_zone a = (case a of Addr4 _ \<Rightarrow> [] | Addr6 _ z \<Rightarrow> z)"

definition addr_bits :: "netip_addr \<Rightarrow> nat" where
  "addr_bits a = (case a of Addr4 _ \<Rightarrow> 32 | Addr6 _ _ \<Rightarrow> 128)"

definition parseIP :: "string \<Rightarrow> go_ip" where
  "parseIP s = (case parseAddr s of None \<Rightarrow> [] | Some a \<Rightarrow> if addr_zone a = [] then as16 a else [])"

definition to4 :: "go_ip \<Rightarrow> go_ip" where
  "to4 ip = (if length ip = 4 then ip
             else if length ip = 16 \<and> take 12 ip = v4InV6Prefix then drop 12 ip else [])"

definition hexString :: "byte list \<Rightarrow> string" where
  "hexString b = concat (map (\<lambda>x. [hex_char (unat x div 16), hex_char (unat x mod 16)]) b)"

definition ip_string :: "go_ip \<Rightarrow> string" where
  "ip_string ip =
     (if ip = [] then ''<nil>''
      else if length ip \<noteq> 4 \<and> length ip \<noteq> 16 then ''?'' @ hexString ip
      else if to4 ip \<noteq> [] then show_ipv4 (to4 ip) else show_ipv6 ip)"

definition cidrMask :: "nat \<Rightarrow> nat \<Rightarrow> byte list" where
  "cidrMask ones bits =
     map (\<lambda>i. if 8 * i + 8 \<le> ones then 255
              else if ones \<le> 8 * i then 0 else NOT (drop_bit (ones - 8 * i) 255)) [0..<bits div 8]"

definition ip_mask :: "go_ip \<Rightarrow> byte list \<Rightarrow> go_ip" where
  "ip_mask ip msk =
     (let m = (if length msk = 16 \<and> length ip = 4 \<and> take 12 msk = replicate 12 255 then drop 12 msk else msk);
          p = (if length m = 4 \<and> length ip = 16 \<and> take 12 ip = v4InV6Prefix then drop 12 ip else ip)
      in if length p = length m then map2 (AND) p m else [])"

text \<open>\<^verbatim>\<open>net.ParseCIDR\<close>: the prefix length may carry leading zeros; every error is \<open>None\<close>.\<close>

definition parseCIDR :: "string \<Rightarrow> (go_ip \<times> ipnet) option" where
  "parseCIDR s =
     (let (addr, msk, found) = cut CHR ''/'' s
      in if \<not> found then None
         else case parseAddr addr of
           None \<Rightarrow> None
         | Some a \<Rightarrow>
             if addr_zone a \<noteq> [] \<or> msk = [] \<or> \<not> list_all isDigit msk \<or> addr_bits a < dec_val msk then None
             else let m = cidrMask (dec_val msk) (addr_bits a)
                  in Some (as16 a, IPNet (ip_mask (as16 a) m) m))"

text \<open>\<^verbatim>\<open>(*net.IPNet).String\<close>.\<close>

definition mask_length :: "byte list \<Rightarrow> nat option" where
  "mask_length m = find (\<lambda>n. cidrMask n (8 * length m) = m) [0..<Suc (8 * length m)]"

definition ipnet_string :: "ipnet \<Rightarrow> string" where
  "ipnet_string n =
     (let four = to4 (net_ip n);
          ip = (if four \<noteq> [] then four else net_ip n);
          m = (if length (net_mask n) = 16 \<and> length ip = 4 then drop 12 (net_mask n) else net_mask n)
      in if (length ip = 4 \<or> length ip = 16) \<and> length m = length ip
         then (case mask_length m of
                 Some l \<Rightarrow> ip_string ip @ ''/'' @ itoa l
               | None \<Rightarrow> ip_string ip @ ''/'' @ hexString m)
         else ''<nil>'')"

section \<open>MAC addresses\<close>

text \<open>\<^verbatim>\<open>net.ParseMAC\<close>: colon or hyphen groups of one byte, or dotted groups of two bytes.\<close>

definition parse_hex_bytes :: "string list \<Rightarrow> nat \<Rightarrow> byte list option" where
  "parse_hex_bytes gs w =
     (if list_all (\<lambda>g. length g = w \<and> list_all is_hex g) gs
      then Some (concat (map (\<lambda>g. if w = 2 then [word_of_nat (hex_num g)]
                                 else [word_of_nat (hex_num g div 256), word_of_nat (hex_num g)]) gs))
      else None)"

definition parseMAC :: "string \<Rightarrow> byte list option" where
  "parseMAC s =
     (if length s < 14 then None
      else let bs = (if s ! 2 = CHR '':'' \<or> s ! 2 = CHR ''-'' then parse_hex_bytes (split_on (s ! 2) s) 2
                     else if s ! 4 = CHR ''.'' then parse_hex_bytes (split_on CHR ''.'' s) 4 else None)
      in case bs of
           None \<Rightarrow> None
         | Some b \<Rightarrow> if length b = 6 \<or> length b = 8 \<or> length b = 20 then Some b else None)"

section \<open>Lemmas\<close>

subsection \<open>Joining and splitting\<close>

lemma join_Cons: "join sep (x # xs) = (if xs = [] then x else x @ sep @ join sep xs)"
  by (cases xs) auto

lemma split_on_join:
  "xs \<noteq> [] \<Longrightarrow> (\<forall>x \<in> set xs. c \<notin> set x) \<Longrightarrow> split_on c (join [c] xs) = xs"
proof (induction xs)
  case (Cons x xs)
  then show ?case by (cases "xs = []") (simp_all add: join_Cons)
qed simp

lemma set_join: "set (join sep xs) \<subseteq> \<Union> (set ` set xs) \<union> set sep"
  by (induction sep xs rule: join.induct) auto

lemma those_map_Some: "(\<And>x. x \<in> set xs \<Longrightarrow> f (g x) = Some x) \<Longrightarrow> those (map f (map g xs)) = Some xs"
  by (induction xs) auto

lemma length_those: "those xs = Some ys \<Longrightarrow> length ys = length xs"
  by (induction xs arbitrary: ys) (auto split: option.splits)

subsection \<open>IPv4 round trip\<close>

lemma unat_byte: "unat (x :: byte) < 256"
  using unsigned_less[of x] by simp

lemma parse_octet_itoa [simp]: "parse_octet (itoa (unat x)) = Some x"
proof -
  have "hd (itoa (unat x)) = CHR ''0'' \<longrightarrow> length (itoa (unat x)) = 1"
    using itoa_no_leading_zero[of "unat x"] by (cases "unat x = 0") (simp_all add: itoa.simps[of 0])
  then show ?thesis
    using unat_byte[of x] by (simp add: parse_octet_def)
qed

lemma split_show_ipv4: "b \<noteq> [] \<Longrightarrow> split_on CHR ''.'' (show_ipv4 b) = map (\<lambda>x. itoa (unat x)) b"
  unfolding show_ipv4_def by (rule split_on_join) auto

lemma parse_ipv4_show [simp]: "length b = 4 \<Longrightarrow> parse_ipv4 (show_ipv4 b) = Some b"
  using those_map_Some[of b parse_octet "\<lambda>x. itoa (unat x)"]
  by (cases "b = []") (simp_all add: parse_ipv4_def split_show_ipv4)

lemma show_ipv4_chars: "c \<in> set (show_ipv4 b) \<Longrightarrow> isDigit c \<or> c = CHR ''.''"
proof -
  assume "c \<in> set (show_ipv4 b)"
  then have "c \<in> \<Union> (set ` set (map (\<lambda>x. itoa (unat x)) b)) \<union> {CHR ''.''}"
    unfolding show_ipv4_def using set_join[of "''.''"] by fastforce
  then show ?thesis
    using itoa_digits by (auto simp: list_all_iff)
qed

lemma notin_show_ipv4 [simp]:
  "CHR ''-'' \<notin> set (show_ipv4 b)" "CHR ''/'' \<notin> set (show_ipv4 b)"
  "CHR '':'' \<notin> set (show_ipv4 b)" "CHR ''%'' \<notin> set (show_ipv4 b)"
  by (auto dest!: show_ipv4_chars isDigit_neq)

lemma show_ipv4_hd: "length b = 4 \<Longrightarrow> \<exists>d r. show_ipv4 b = d # r \<and> isDigit d"
proof -
  assume "length b = 4"
  then obtain x y ys where b: "b = x # y # ys" by (auto simp: numeral_eq_Suc length_Suc_conv)
  obtain d r where "itoa (unat x) = d # r" using itoa_not_Nil by (cases "itoa (unat x)") auto
  then show ?thesis
    using itoa_digits[of "unat x"] by (simp add: b show_ipv4_def)
qed

lemma dropWhile_show_ipv4:
  "length b = 4 \<Longrightarrow>
   \<exists>r. dropWhile (\<lambda>c. c \<noteq> CHR ''.'' \<and> c \<noteq> CHR '':'' \<and> c \<noteq> CHR ''%'') (show_ipv4 b) = CHR ''.'' # r"
proof -
  assume "length b = 4"
  then obtain x y ys where b: "b = x # y # ys" by (auto simp: numeral_eq_Suc length_Suc_conv)
  have "dropWhile (\<lambda>c. c \<noteq> CHR ''.'' \<and> c \<noteq> CHR '':'' \<and> c \<noteq> CHR ''%'') (itoa n @ CHR ''.'' # r)
        = CHR ''.'' # r" for n r
    using notin_itoa[of n] by (subst dropWhile_append2) auto
  then show ?thesis by (simp add: b show_ipv4_def)
qed

lemma parseAddr_show_ipv4 [simp]: "length b = 4 \<Longrightarrow> parseAddr (show_ipv4 b) = Some (Addr4 b)"
  using dropWhile_show_ipv4[of b] by (auto simp: parseAddr_def)

lemma length_v4InV6Prefix [simp]: "length v4InV6Prefix = 12"
  by (simp add: v4InV6Prefix_def)

lemma as16_simps [simp]: "as16 (Addr4 b) = v4InV6Prefix @ b" "as16 (Addr6 b z) = b"
  by (simp_all add: as16_def)

lemma addr_zone_simps [simp]: "addr_zone (Addr4 b) = []" "addr_zone (Addr6 b z) = z"
  by (simp_all add: addr_zone_def)

lemma addr_bits_simps [simp]: "addr_bits (Addr4 b) = 32" "addr_bits (Addr6 b z) = 128"
  by (simp_all add: addr_bits_def)

lemma parseIP_show_ipv4 [simp]: "length b = 4 \<Longrightarrow> parseIP (show_ipv4 b) = v4InV6Prefix @ b"
  by (simp add: parseIP_def)

lemma to4_v4 [simp]: "length b = 4 \<Longrightarrow> to4 (v4InV6Prefix @ b) = b"
  by (simp add: to4_def)

lemma ip_string_v4 [simp]: "length b = 4 \<Longrightarrow> ip_string (v4InV6Prefix @ b) = show_ipv4 b"
  by (auto simp: ip_string_def v4InV6Prefix_def to4_def)

lemma ip_string_4 [simp]: "length b = 4 \<Longrightarrow> ip_string b = show_ipv4 b"
  by (auto simp: ip_string_def to4_def)

lemma parseCIDR_show_ipv4:
  assumes "length b = 4" "n \<le> 32"
  shows "parseCIDR (show_ipv4 b @ ''/'' @ itoa n) =
    Some (v4InV6Prefix @ b, IPNet (ip_mask (v4InV6Prefix @ b) (cidrMask n 32)) (cidrMask n 32))"
  using assms by (simp add: parseCIDR_def Let_def)

subsection \<open>Lengths\<close>

lemma length_parse_ipv4: "parse_ipv4 s = Some b \<Longrightarrow> length b = 4"
  by (auto simp: parse_ipv4_def Let_def dest: length_those split: if_splits)

definition ell_ok :: "nat option \<Rightarrow> nat \<Rightarrow> bool" where
  "ell_ok ell n \<longleftrightarrow> (case ell of None \<Rightarrow> True | Some e \<Rightarrow> e \<le> n)"

lemma ell_ok_simps [simp]:
  "ell_ok None n" "ell_ok (Some e) n \<longleftrightarrow> e \<le> n"
  by (simp_all add: ell_ok_def)

lemma ell_ok_mono: "ell_ok ell n \<Longrightarrow> n \<le> m \<Longrightarrow> ell_ok ell m"
  by (cases ell) auto

lemma parse6_step_Done:
  assumes "length acc < 16" "even (length acc)" "ell_ok ell (length acc)" "parse6_step acc ell s = Done6 a e"
  shows "length a \<le> 16 \<and> ell_ok e (length a)"
proof -
  have "Suc (Suc (length acc)) \<le> 16" using assms(1,2) by presburger
  then show ?thesis
    using assms(3,4) unfolding parse6_step_def Let_def
    by (auto dest: length_parse_ipv4 split: if_splits option.splits elim: ell_ok_mono)
qed

lemma parse6_step_More_ok:
  assumes "length acc < 16" "even (length acc)" "ell_ok ell (length acc)" "parse6_step acc ell s = More6 a e s'"
  shows "length a \<le> 16 \<and> even (length a) \<and> ell_ok e (length a)"
proof -
  have "length a \<le> 16" "even (length a)"
    using assms(1,2) parse6_step_More[OF assms(4)] by (presburger, simp)
  then show ?thesis
    using assms(3,4) unfolding parse6_step_def Let_def
    by (auto split: if_splits option.splits elim: ell_ok_mono)
qed

lemma parse6_loop_bounds:
  "parse6_loop acc ell s = Some (acc', ell', r) \<Longrightarrow> length acc \<le> 16 \<Longrightarrow> even (length acc) \<Longrightarrow>
   ell_ok ell (length acc) \<Longrightarrow> length acc' \<le> 16 \<and> ell_ok ell' (length acc')"
proof (induction acc ell s rule: parse6_loop.induct)
  case (1 acc ell s)
  show ?case
  proof (cases "16 \<le> length acc")
    case True
    then show ?thesis using "1.prems" by (simp add: parse6_loop.simps)
  next
    case False
    then have lt: "length acc < 16" by simp
    show ?thesis
    proof (cases "parse6_step acc ell s")
      case Fail6
      then show ?thesis using "1.prems" False by (simp add: parse6_loop.simps[of acc])
    next
      case (Done6 a e)
      then show ?thesis
        using "1.prems" False parse6_step_Done[OF lt _ _ Done6] by (simp add: parse6_loop.simps[of acc])
    next
      case (More6 a e s')
      then show ?thesis
        using "1.prems" False parse6_step_More_ok[OF lt _ _ More6] "1.IH"[OF False More6]
        by (simp add: parse6_loop.simps[of acc])
    qed
  qed
qed

lemma finish6_Some:
  assumes "finish6 zone (acc, ell, r) = Some a" "length acc \<le> 16" "ell_ok ell (length acc)"
  shows "\<exists>b. a = Addr6 b zone \<and> length b = 16"
proof (cases "length acc < 16")
  case True
  then obtain e where e: "ell = Some e"
      "a = Addr6 (take e acc @ replicate (16 - length acc) 0 @ drop e acc) zone"
    using assms(1) by (cases ell) (simp_all add: finish6_def split: if_split_asm)
  have "length (take e acc @ replicate (16 - length acc) (0::byte) @ drop e acc) = 16"
    using e(1) assms(2,3) by simp
  then show ?thesis using e(2) by blast
next
  case False
  then show ?thesis using assms by (auto simp: finish6_def split: if_split_asm)
qed

lemma parse_ipv6_Some:
  assumes "parse_ipv6 s = Some a"
  shows "\<exists>b z. a = Addr6 b z \<and> length b = 16"
proof -
  obtain t zone z where c: "cut CHR ''%'' s = (t, zone, z)" by (cases "cut CHR ''%'' s")
  define lead where "lead \<longleftrightarrow> hasPrefix t ''::''"
  define u where "u = (if lead then drop 2 t else t)"
  have "parse_ipv6 s = (if z \<and> zone = [] then None
      else if lead \<and> u = [] then Some (Addr6 (replicate 16 0) zone)
      else Option.bind (parse6_loop [] (if lead then Some 0 else None) u) (finish6 zone))"
    unfolding parse_ipv6_def c lead_def u_def Let_def case_prod_conv ..
  with assms have "Some a = Some (Addr6 (replicate 16 0) zone) \<or>
      Some a = Option.bind (parse6_loop [] (if lead then Some 0 else None) u) (finish6 zone)"
    by (simp split: if_split_asm)
  then show ?thesis
  proof
    assume "Some a = Some (Addr6 (replicate 16 0) zone)"
    then have "a = Addr6 (replicate 16 0) zone" by (rule option.inject[THEN iffD1])
    then show ?thesis by (intro exI conjI) (assumption, rule length_replicate)
  next
    assume "Some a = Option.bind (parse6_loop [] (if lead then Some 0 else None) u) (finish6 zone)"
    then obtain st where "parse6_loop [] (if lead then Some 0 else None) u = Some st" "finish6 zone st = Some a"
      by (cases "parse6_loop [] (if lead then Some 0 else None) u") simp_all
    then obtain acc ell r where st: "parse6_loop [] (if lead then Some 0 else None) u = Some (acc, ell, r)"
        "finish6 zone (acc, ell, r) = Some a"
      by (cases st) simp_all
    have "length acc \<le> 16 \<and> ell_ok ell (length acc)"
      using st(1) by (rule parse6_loop_bounds) auto
    then show ?thesis using st(2) finish6_Some by blast
  qed
qed

lemma parseAddr_cases:
  assumes "parseAddr s = Some a"
  obtains b where "a = Addr4 b" "length b = 4" | b z where "a = Addr6 b z" "length b = 16"
proof -
  from assms consider b where "a = Addr4 b" "parse_ipv4 s = Some b" | "parse_ipv6 s = Some a"
    by (auto simp: parseAddr_def split: list.splits if_splits)
  then show ?thesis
    using that parse_ipv6_Some length_parse_ipv4 by cases blast+
qed

lemma length_parseIP: "parseIP s = [] \<or> length (parseIP s) = 16"
  by (auto simp: parseIP_def elim!: parseAddr_cases split: option.splits)

subsection \<open>What an IPv4 text consists of\<close>

lemma set_split_on: "x \<in> set s \<Longrightarrow> x = c \<or> (\<exists>p \<in> set (split_on c s). x \<in> set p)"
  by (induction s) (auto split: list.splits)

lemma those_Some_all: "those (map f xs) = Some ys \<Longrightarrow> x \<in> set xs \<Longrightarrow> f x \<noteq> None"
  by (induction xs arbitrary: ys) (auto split: option.splits)

lemma parse_ipv4_chars:
  assumes "parse_ipv4 s = Some b" "x \<in> set s"
  shows "isDigit x \<or> x = CHR ''.''"
proof -
  have those: "those (map parse_octet (split_on CHR ''.'' s)) = Some b"
    using assms(1) by (auto simp: parse_ipv4_def Let_def split: if_splits)
  consider "x = CHR ''.''" | p where "p \<in> set (split_on CHR ''.'' s)" "x \<in> set p"
    using set_split_on[OF assms(2)] by blast
  then show ?thesis
  proof cases
    case (2 p)
    then show ?thesis
      using those_Some_all[OF those 2(1)] by (auto simp: parse_octet_def list_all_iff split: if_split_asm)
  qed simp
qed

lemma parse_ipv4_hyphen: "CHR ''-'' \<in> set s \<Longrightarrow> parse_ipv4 s = None"
  using parse_ipv4_chars[of s _ "CHR ''-''"] by (cases "parse_ipv4 s") (auto simp: isDigit_def)

lemma parseIP_show_hyphen:
  assumes "length b = 4"
  shows "parseIP (show_ipv4 b @ CHR ''-'' # r) = []"
proof -
  obtain q where "dropWhile (\<lambda>c. c \<noteq> CHR ''.'' \<and> c \<noteq> CHR '':'' \<and> c \<noteq> CHR ''%'') (show_ipv4 b) = CHR ''.'' # q"
    using dropWhile_show_ipv4[OF assms] by blast
  then have "\<exists>q'. dropWhile (\<lambda>c. c \<noteq> CHR ''.'' \<and> c \<noteq> CHR '':'' \<and> c \<noteq> CHR ''%'') (show_ipv4 b @ CHR ''-'' # r)
      = CHR ''.'' # q'"
    by (metis (lifting) dropWhile_append append_Cons list.distinct(1) dropWhile_eq_Nil_conv)
  then show ?thesis
    using parse_ipv4_hyphen[of "show_ipv4 b @ CHR ''-'' # r"] by (auto simp: parseIP_def parseAddr_def)
qed

end
