(* ===== verification/Go_Json.thy ===== *)
theory Go_Json
  imports Go_Net
begin

text \<open>
  Go's \<^verbatim>\<open>encoding/json\<close>, as far as the program uses it: the syntax tree of a document with its
  string and number literals as written, the parser, the compact printer, string quoting and
  unquoting, and the decoding and encoding of the types from which the program's structures are
  built. Templates, connection fingerprints, VICI requests, the file store, topology
  documents and CNI configurations all pass through these functions.
\<close>

section \<open>UTF-8\<close>

abbreviation code :: "char \<Rightarrow> nat" where "code c \<equiv> of_char c"

definition cont :: "char \<Rightarrow> bool" where "cont c \<longleftrightarrow> 128 \<le> code c \<and> code c < 192"

definition utf8_2 :: "char \<Rightarrow> char \<Rightarrow> bool" where
  "utf8_2 c0 c1 \<longleftrightarrow> 194 \<le> code c0 \<and> code c0 < 224 \<and> cont c1"

definition utf8_3 :: "char \<Rightarrow> char \<Rightarrow> char \<Rightarrow> bool" where
  "utf8_3 c0 c1 c2 \<longleftrightarrow> 224 \<le> code c0 \<and> code c0 < 240 \<and> cont c1 \<and> cont c2 \<and>
     (code c0 = 224 \<longrightarrow> 160 \<le> code c1) \<and> (code c0 = 237 \<longrightarrow> code c1 < 160)"

definition utf8_4 :: "char \<Rightarrow> char \<Rightarrow> char \<Rightarrow> char \<Rightarrow> bool" where
  "utf8_4 c0 c1 c2 c3 \<longleftrightarrow> 240 \<le> code c0 \<and> code c0 < 245 \<and> cont c1 \<and> cont c2 \<and> cont c3 \<and>
     (code c0 = 240 \<longrightarrow> 144 \<le> code c1) \<and> (code c0 = 244 \<longrightarrow> code c1 < 144)"

text \<open>The width of the well-formed multi-byte sequence at the head of a string, 0 if there is none.\<close>

fun utf8_width :: "string \<Rightarrow> nat" where
  "utf8_width (c0 # c1 # r) =
     (if utf8_2 c0 c1 then 2
      else case r of
        [] \<Rightarrow> 0
      | c2 # r' \<Rightarrow>
          if utf8_3 c0 c1 c2 then 3
          else (case r' of [] \<Rightarrow> 0 | c3 # _ \<Rightarrow> if utf8_4 c0 c1 c2 c3 then 4 else 0))"
| "utf8_width s = 0"

definition utf8_encode :: "nat \<Rightarrow> string" where
  "utf8_encode n =
     (if n < 128 then [char_of n]
      else if n < 2048 then [char_of (192 + n div 64), char_of (128 + n mod 64)]
      else if n < 65536 then
        [char_of (224 + n div 4096), char_of (128 + n div 64 mod 64), char_of (128 + n mod 64)]
      else
        [char_of (240 + n div 262144), char_of (128 + n div 4096 mod 64),
         char_of (128 + n div 64 mod 64), char_of (128 + n mod 64)])"

definition runeError :: string where "runeError = utf8_encode 65533"

section \<open>String literals\<close>

text \<open>Quoting, with the escaping of HTML characters that \<^verbatim>\<open>json.Marshal\<close> applies.\<close>

definition quote_ascii :: "char \<Rightarrow> string" where
  "quote_ascii c =
     (if c = CHR 0x22 \<or> c = CHR 0x5C then [CHR 0x5C, c]
      else if c = CHR 0x08 then [CHR 0x5C, CHR ''b'']
      else if c = CHR 0x0C then [CHR 0x5C, CHR ''f'']
      else if c = CHR 0x0A then [CHR 0x5C, CHR ''n'']
      else if c = CHR 0x0D then [CHR 0x5C, CHR ''r'']
      else if c = CHR 0x09 then [CHR 0x5C, CHR ''t'']
      else if code c < 32 \<or> c = CHR ''<'' \<or> c = CHR ''>'' \<or> c = CHR ''&''
      then [CHR 0x5C, CHR ''u'', CHR ''0'', CHR ''0'', hex_char (code c div 16), hex_char (code c mod 16)]
      else [c])"

definition quote_multi :: "string \<Rightarrow> string" where
  "quote_multi r =
     (if r = map char_of [226, 128, 168 :: nat] then CHR 0x5C # ''u2028''
      else if r = map char_of [226, 128, 169 :: nat] then CHR 0x5C # ''u2029'' else r)"

function quote :: "string \<Rightarrow> string" where
  "quote s =
     (case s of
        [] \<Rightarrow> []
      | c # cs \<Rightarrow>
          if code c < 128 then quote_ascii c @ quote cs
          else if utf8_width s = 0 then CHR 0x5C # ''ufffd'' @ quote cs
          else quote_multi (take (utf8_width s) s) @ quote (drop (utf8_width s) s))"
  by pat_completeness auto
termination by (relation "measure length") (auto split: list.splits)

declare quote.simps [simp del]

definition hex4 :: "string \<Rightarrow> nat option" where
  "hex4 s = (case s of
      a # b # c # d # _ \<Rightarrow>
        if is_hex a \<and> is_hex b \<and> is_hex c \<and> is_hex d then Some (hex_num [a, b, c, d]) else None
    | _ \<Rightarrow> None)"

definition simple_escape :: "char \<Rightarrow> char" where
  "simple_escape e =
     (if e = CHR ''b'' then CHR 0x08 else if e = CHR ''f'' then CHR 0x0C
      else if e = CHR ''n'' then CHR 0x0A else if e = CHR ''r'' then CHR 0x0D
      else if e = CHR ''t'' then CHR 0x09 else e)"

text \<open>
  The code point that a \<^verbatim>\<open>\u\<close> escape starts, and how many further characters it takes: a high
  and a low surrogate combine, a lone surrogate becomes U+FFFD.
\<close>

definition unquote_u :: "nat \<Rightarrow> string \<Rightarrow> nat \<times> nat" where
  "unquote_u r rest =
     (if 55296 \<le> r \<and> r < 57344 then
        (case rest of
           b # u # r2 \<Rightarrow>
             if b = CHR 0x5C \<and> u = CHR ''u'' then
               (case hex4 r2 of
                  Some q \<Rightarrow> if r < 56320 \<and> 56320 \<le> q \<and> q < 57344
                            then ((r - 55296) * 1024 + (q - 56320) + 65536, 6) else (65533, 0)
                | None \<Rightarrow> (65533, 0))
             else (65533, 0)
         | _ \<Rightarrow> (65533, 0))
      else (r, 0))"

function unquote :: "string \<Rightarrow> string" where
  "unquote s =
     (case s of
        [] \<Rightarrow> []
      | c # cs \<Rightarrow>
          if c = CHR 0x5C then
            (case cs of
               [] \<Rightarrow> []
             | e # es \<Rightarrow>
                 if e = CHR ''u'' then
                   (case hex4 es of
                      None \<Rightarrow> []
                    | Some r \<Rightarrow> let (p, k) = unquote_u r (drop 4 es)
                                in utf8_encode p @ unquote (drop (4 + k) es))
                 else simple_escape e # unquote es)
          else if code c < 128 then c # unquote cs
          else if utf8_width s = 0 then runeError @ unquote cs
          else take (utf8_width s) s @ unquote (drop (utf8_width s) s))"
  by pat_completeness auto
termination by (relation "measure length") (auto split: list.splits)

declare unquote.simps [simp del]

text \<open>The literal after an opening quote, up to its closing quote, as written.\<close>

fun scan_str :: "string \<Rightarrow> (string \<times> string) option" where
  "scan_str [] = None"
| "scan_str (c # cs) =
     (if c = CHR 0x22 then Some ([], cs)
      else if c = CHR 0x5C then
        (case cs of
           [] \<Rightarrow> None
         | e # es \<Rightarrow>
             if e \<in> set (''bfnrt/'' @ [CHR 0x22, CHR 0x5C])
             then map_option (\<lambda>(x, r). (c # e # x, r)) (scan_str es)
             else if e = CHR ''u'' then
               (case es of
                  h1 # h2 # h3 # h4 # r \<Rightarrow>
                    if is_hex h1 \<and> is_hex h2 \<and> is_hex h3 \<and> is_hex h4
                    then map_option (\<lambda>(x, t). (c # e # h1 # h2 # h3 # h4 # x, t)) (scan_str r)
                    else None
                | _ \<Rightarrow> None)
             else None)
      else if code c < 32 then None
      else map_option (\<lambda>(x, r). (c # x, r)) (scan_str cs))"

section \<open>Numbers\<close>

definition digits :: "string \<Rightarrow> string" where "digits s = takeWhile isDigit s"

definition scan_int :: "string \<Rightarrow> (string \<times> string) option" where
  "scan_int s =
     (case s of
        [] \<Rightarrow> None
      | c # r \<Rightarrow> if c = CHR ''0'' then Some ([c], r)
                 else if isDigit c then Some (digits s, dropWhile isDigit s) else None)"

definition scan_frac :: "string \<Rightarrow> (string \<times> string) option" where
  "scan_frac s =
     (case s of
        c # r \<Rightarrow> if c = CHR ''.''
                  then (if digits r = [] then None else Some (c # digits r, dropWhile isDigit r))
                  else Some ([], s)
      | [] \<Rightarrow> Some ([], s))"

definition scan_exp :: "string \<Rightarrow> (string \<times> string) option" where
  "scan_exp s =
     (case s of
        c # r \<Rightarrow>
          if c = CHR ''e'' \<or> c = CHR ''E'' then
            (let sgn = (case r of x # _ \<Rightarrow> if x = CHR ''+'' \<or> x = CHR ''-'' then [x] else [] | [] \<Rightarrow> []);
                 r' = drop (length sgn) r
             in if digits r' = [] then None else Some (c # sgn @ digits r', dropWhile isDigit r'))
          else Some ([], s)
      | [] \<Rightarrow> Some ([], s))"

definition scan_num :: "string \<Rightarrow> (string \<times> string) option" where
  "scan_num s =
     (let sgn = (case s of c # _ \<Rightarrow> if c = CHR ''-'' then [c] else [] | [] \<Rightarrow> [])
      in case scan_int (drop (length sgn) s) of
           None \<Rightarrow> None
         | Some (i, r1) \<Rightarrow> (case scan_frac r1 of
             None \<Rightarrow> None
           | Some (f, r2) \<Rightarrow> (case scan_exp r2 of
               None \<Rightarrow> None
             | Some (x, r3) \<Rightarrow> Some (sgn @ i @ f @ x, r3))))"

section \<open>Documents\<close>

text \<open>String and number literals, and the names of members, are kept as written.\<close>

datatype json =
    JNull
  | JBool bool
  | JNum string
  | JStr string
  | JArr "json list"
  | JObj "(string \<times> json) list"

definition is_ws :: "char \<Rightarrow> bool" where
  "is_ws c \<longleftrightarrow> c = CHR '' '' \<or> c = CHR 0x09 \<or> c = CHR 0x0A \<or> c = CHR 0x0D"

definition skip_ws :: "string \<Rightarrow> string" where "skip_ws s = dropWhile is_ws s"

text \<open>
  Recursive descent; the first argument bounds the number of nested calls, the second the nesting
  of arrays and objects that the library accepts.
\<close>

fun pvalue :: "nat \<Rightarrow> nat \<Rightarrow> string \<Rightarrow> (json \<times> string) option"
and parr :: "nat \<Rightarrow> nat \<Rightarrow> string \<Rightarrow> (json list \<times> string) option"
and pobj :: "nat \<Rightarrow> nat \<Rightarrow> string \<Rightarrow> ((string \<times> json) list \<times> string) option" where
  "pvalue 0 d s = None"
| "pvalue (Suc n) d s =
     (case skip_ws s of
        [] \<Rightarrow> None
      | c # r \<Rightarrow>
          if c = CHR 0x22 then map_option (\<lambda>(x, t). (JStr x, t)) (scan_str r)
          else if c = CHR ''['' then
            (if d = 0 then None
             else case skip_ws r of
               [] \<Rightarrow> None
             | c' # r' \<Rightarrow> if c' = CHR '']'' then Some (JArr [], r')
                          else map_option (\<lambda>(x, t). (JArr x, t)) (parr n (d - 1) r))
          else if c = CHR ''{'' then
            (if d = 0 then None
             else case skip_ws r of
               [] \<Rightarrow> None
             | c' # r' \<Rightarrow> if c' = CHR ''}'' then Some (JObj [], r')
                          else map_option (\<lambda>(x, t). (JObj x, t)) (pobj n (d - 1) r))
          else if hasPrefix (c # r) ''null'' then Some (JNull, drop 4 (c # r))
          else if hasPrefix (c # r) ''true'' then Some (JBool True, drop 4 (c # r))
          else if hasPrefix (c # r) ''false'' then Some (JBool False, drop 5 (c # r))
          else map_option (\<lambda>(x, t). (JNum x, t)) (scan_num (c # r)))"
| "parr 0 d s = None"
| "parr (Suc n) d s =
     (case pvalue n d s of
        None \<Rightarrow> None
      | Some (v, r) \<Rightarrow>
          (case skip_ws r of
             [] \<Rightarrow> None
           | c # r' \<Rightarrow>
               if c = CHR '','' then map_option (\<lambda>(vs, t). (v # vs, t)) (parr n d r')
               else if c = CHR '']'' then Some ([v], r') else None))"
| "pobj 0 d s = None"
| "pobj (Suc n) d s =
     (case skip_ws s of
        [] \<Rightarrow> None
      | q # r \<Rightarrow>
          if q \<noteq> CHR 0x22 then None
          else (case scan_str r of
             None \<Rightarrow> None
           | Some (k, r1) \<Rightarrow>
               (case skip_ws r1 of
                  [] \<Rightarrow> None
                | col # r2 \<Rightarrow>
                    if col \<noteq> CHR '':'' then None
                    else (case pvalue n d r2 of
                       None \<Rightarrow> None
                     | Some (v, r3) \<Rightarrow>
                         (case skip_ws r3 of
                            [] \<Rightarrow> None
                          | c # r4 \<Rightarrow>
                              if c = CHR '','' then map_option (\<lambda>(ms, t). ((k, v) # ms, t)) (pobj n d r4)
                              else if c = CHR ''}'' then Some ([(k, v)], r4) else None)))))"

definition maxNestingDepth :: nat where "maxNestingDepth = 10000"

text \<open>One document, followed by white space only.\<close>

definition json_parse :: "string \<Rightarrow> json option" where
  "json_parse s =
     (case pvalue (Suc (length s)) maxNestingDepth s of
        None \<Rightarrow> None
      | Some (v, r) \<Rightarrow> if skip_ws r = [] then Some v else None)"

section \<open>Printing\<close>

fun render :: "json \<Rightarrow> string"
and render_list :: "json list \<Rightarrow> string"
and render_members :: "(string \<times> json) list \<Rightarrow> string" where
  "render JNull = ''null''"
| "render (JBool b) = (if b then ''true'' else ''false'')"
| "render (JNum s) = s"
| "render (JStr s) = CHR 0x22 # s @ [CHR 0x22]"
| "render (JArr vs) = CHR ''['' # render_list vs"
| "render (JObj ms) = CHR ''{'' # render_members ms"
| "render_list [] = '']''"
| "render_list (v # vs) = render v @ (if vs = [] then '']'' else CHR '','' # render_list vs)"
| "render_members [] = ''}''"
| "render_members ((k, v) # ms) =
     CHR 0x22 # k @ CHR 0x22 # CHR '':'' # render v @ (if ms = [] then ''}'' else CHR '','' # render_members ms)"

section \<open>Decoding\<close>

text \<open>
  Decoding fills a value that already exists and goes on after a type mismatch, whose first
  error it reports at the end: a decoder maps the document and the current value to the new value
  and that error.
\<close>

type_synonym 'a dec = "json \<Rightarrow> 'a \<Rightarrow> 'a \<times> go_error option"

definition type_error :: "json \<Rightarrow> go_error" where
  "type_error j = Errorf ''json: cannot unmarshal %s into Go value''
     [case j of JNull \<Rightarrow> ''null'' | JBool _ \<Rightarrow> ''bool'' | JNum n \<Rightarrow> ''number '' @ n | JStr _ \<Rightarrow> ''string''
      | JArr _ \<Rightarrow> ''array'' | JObj _ \<Rightarrow> ''object'']"

definition syntax_error :: go_error where
  "syntax_error = Errorf ''json: syntax error'' []"

definition dec_string :: "string dec" where
  "dec_string j cur =
     (case j of JStr s \<Rightarrow> (unquote s, None) | JNull \<Rightarrow> (cur, None) | _ \<Rightarrow> (cur, Some (type_error j)))"

definition dec_bool :: "bool dec" where
  "dec_bool j cur =
     (case j of JBool b \<Rightarrow> (b, None) | JNull \<Rightarrow> (cur, None) | _ \<Rightarrow> (cur, Some (type_error j)))"

text \<open>A 64-bit integer: only a literal without fraction and exponent that is in range.\<close>

definition parse_int64 :: "string \<Rightarrow> int option" where
  "parse_int64 s =
     (let neg = (case s of c # _ \<Rightarrow> c = CHR ''-'' | [] \<Rightarrow> False); ds = (if neg then tl s else s)
      in if ds = [] \<or> \<not> list_all isDigit ds then None
         else let v = (if neg then - int (dec_val ds) else int (dec_val ds))
              in if - (2 ^ 63) \<le> v \<and> v < 2 ^ 63 then Some v else None)"

definition dec_int :: "int dec" where
  "dec_int j cur =
     (case j of
        JNum s \<Rightarrow> (case parse_int64 s of Some v \<Rightarrow> (v, None) | None \<Rightarrow> (cur, Some (type_error j)))
      | JNull \<Rightarrow> (cur, None)
      | _ \<Rightarrow> (cur, Some (type_error j)))"

definition orElse :: "go_error option \<Rightarrow> go_error option \<Rightarrow> go_error option" where
  "orElse a b = (case a of Some e \<Rightarrow> Some e | None \<Rightarrow> b)"

fun dec_elems :: "'a dec \<Rightarrow> 'a \<Rightarrow> json list \<Rightarrow> 'a list \<Rightarrow> 'a list \<times> go_error option" where
  "dec_elems d z [] cur = ([], None)"
| "dec_elems d z (j # js) cur =
     (let (x, e) = d j (case cur of y # _ \<Rightarrow> y | [] \<Rightarrow> z); (xs, e') = dec_elems d z js (tl cur)
      in (x # xs, orElse e e'))"

text \<open>A slice, where \<open>None\<close> is Go's nil; elements beyond the current ones start from the zero value.\<close>

definition dec_slice :: "'a dec \<Rightarrow> 'a \<Rightarrow> 'a list option dec" where
  "dec_slice d z j cur =
     (case j of
        JArr js \<Rightarrow> (let (xs, e) = dec_elems d z js (case cur of Some ys \<Rightarrow> ys | None \<Rightarrow> []) in (Some xs, e))
      | JNull \<Rightarrow> (None, None)
      | _ \<Rightarrow> (cur, Some (type_error j)))"

text \<open>A slice of which the program never tells nil from empty.\<close>

definition dec_list :: "'a dec \<Rightarrow> 'a \<Rightarrow> 'a list dec" where
  "dec_list d z j cur =
     (let (xs, e) = dec_slice d z j (Some cur) in (case xs of Some ys \<Rightarrow> ys | None \<Rightarrow> [], e))"

definition dec_map :: "'a dec \<Rightarrow> 'a \<Rightarrow> 'a gomap dec" where
  "dec_map d z j cur =
     (case j of
        JObj ms \<Rightarrow> foldl (\<lambda>(m, e) (k, v). let (x, e') = d v z in (mput (unquote k) x m, orElse e e')) (cur, None) ms
      | JNull \<Rightarrow> ([], None)
      | _ \<Rightarrow> (cur, Some (type_error j)))"

text \<open>A pointer, where \<open>None\<close> is nil.\<close>

definition dec_ptr :: "'a dec \<Rightarrow> 'a \<Rightarrow> 'a option dec" where
  "dec_ptr d z j cur =
     (case j of JNull \<Rightarrow> (None, None)
      | _ \<Rightarrow> let (x, e) = d j (case cur of None \<Rightarrow> z | Some y \<Rightarrow> y) in (Some x, e))"

text \<open>
  Case folding of member names: ASCII letters, and the two characters outside ASCII (U+017F and
  U+212A) whose case orbit contains an ASCII letter.
\<close>

definition upper :: "char \<Rightarrow> char" where
  "upper c = (if 97 \<le> code c \<and> code c \<le> 122 then char_of (code c - 32) else c)"

function fold_name :: "string \<Rightarrow> string" where
  "fold_name s =
     (case s of
        [] \<Rightarrow> []
      | c # cs \<Rightarrow>
          if hasPrefix s (map char_of [197, 191 :: nat]) then CHR ''S'' # fold_name (drop 2 s)
          else if hasPrefix s (map char_of [226, 132, 170 :: nat]) then CHR ''K'' # fold_name (drop 3 s)
          else upper c # fold_name cs)"
  by pat_completeness auto
termination by (relation "measure length") (auto split: list.splits)

declare fold_name.simps [simp del]

type_synonym 'r field = "string \<times> 'r dec"

definition find_field :: "'r field list \<Rightarrow> string \<Rightarrow> 'r field option" where
  "find_field fs k =
     (case find (\<lambda>f. fst f = k) fs of
        Some f \<Rightarrow> Some f
      | None \<Rightarrow> find (\<lambda>f. fold_name (fst f) = fold_name k) fs)"

definition field :: "string \<Rightarrow> 'a dec \<Rightarrow> ('r \<Rightarrow> 'a) \<Rightarrow> (('a \<Rightarrow> 'a) \<Rightarrow> 'r \<Rightarrow> 'r) \<Rightarrow> 'r field" where
  "field name d get upd = (name, \<lambda>j r. let (x, e) = d j (get r) in (upd (\<lambda>_. x) r, e))"

text \<open>The first argument says whether unknown members are an error.\<close>

definition dec_member ::
  "bool \<Rightarrow> 'r field list \<Rightarrow> 'r \<times> go_error option \<Rightarrow> string \<times> json \<Rightarrow> 'r \<times> go_error option" where
  "dec_member strict fs acc m =
     (let (r, e) = acc; (k, v) = m
      in case find_field fs (unquote k) of
           Some f \<Rightarrow> (let (r', e') = snd f v r in (r', orElse e e'))
         | None \<Rightarrow> (r, if strict then orElse e (Some (Errorf ''json: unknown field %q'' [unquote k])) else e))"

definition dec_struct :: "bool \<Rightarrow> 'r field list \<Rightarrow> 'r dec" where
  "dec_struct strict fs j cur =
     (case j of
        JObj ms \<Rightarrow> foldl (dec_member strict fs) (cur, None) ms
      | JNull \<Rightarrow> (cur, None)
      | _ \<Rightarrow> (cur, Some (type_error j)))"

text \<open>\<^verbatim>\<open>json.Unmarshal\<close>: the whole text is checked before anything is decoded.\<close>

definition unmarshal :: "'a dec \<Rightarrow> 'a \<Rightarrow> string \<Rightarrow> 'a \<times> go_error option" where
  "unmarshal d cur s = (case json_parse s of None \<Rightarrow> (cur, Some syntax_error) | Some j \<Rightarrow> d j cur)"

section \<open>Encoding\<close>

abbreviation enc_string :: "string \<Rightarrow> json" where "enc_string s \<equiv> JStr (quote s)"

definition enc_list :: "string list \<Rightarrow> json" where "enc_list xs = JArr (map enc_string xs)"

definition enc_slice :: "string list option \<Rightarrow> json" where
  "enc_slice xs = (case xs of None \<Rightarrow> JNull | Some ys \<Rightarrow> enc_list ys)"

text \<open>A map is printed in the order of its keys.\<close>

definition enc_map :: "('a \<Rightarrow> json) \<Rightarrow> 'a gomap \<Rightarrow> json" where
  "enc_map f m = JObj (map (\<lambda>(k, v). (quote k, f v)) (sort_key fst m))"

text \<open>A member with the \<^verbatim>\<open>omitempty\<close> option.\<close>

definition omit :: "bool \<Rightarrow> string \<times> json \<Rightarrow> (string \<times> json) list" where
  "omit b m = (if b then [] else [m])"

text \<open>Values without a Go type: what \<^verbatim>\<open>interface{}\<close> holds after decoding.\<close>

datatype gval =
    GNull
  | GBool bool
  | GNum string
  | GStr string
  | GArr "gval list"
  | GMap "(string \<times> gval) list"

fun general :: "json \<Rightarrow> gval" where
  "general JNull = GNull"
| "general (JBool b) = GBool b"
| "general (JNum s) = GNum s"
| "general (JStr s) = GStr (unquote s)"
| "general (JArr vs) = GArr (map general vs)"
| "general (JObj ms) = GMap (foldl (\<lambda>m (k, v). mput (unquote k) v m) [] (map (\<lambda>(k, v). (k, general v)) ms))"

section \<open>The parser reads what the printer writes\<close>

lemma scan_str_append: "scan_str s = Some (x, r) \<Longrightarrow> scan_str (s @ t) = Some (x, r @ t)"
proof (induction s arbitrary: x r rule: scan_str.induct)
  case (2 c cs)
  show ?case
  proof (cases "c = CHR 0x5C")
    case True
    with "2.prems" obtain e es where cs: "cs = e # es" by (auto split: list.splits)
    show ?thesis
    proof (cases "e \<in> set (''bfnrt/'' @ [CHR 0x22, CHR 0x5C])")
      case e: True
      then obtain y where "scan_str es = Some (y, r)" "x = c # e # y"
        using "2.prems" True cs by auto
      with "2.IH"(1)[OF _ True cs e] True cs e show ?thesis by simp
    next
      case e: False
      then have u: "e = CHR ''u''" using "2.prems" True cs by (auto split: if_splits)
      then obtain a1 a2 a3 a4 q where es: "es = a1 # a2 # a3 # a4 # q"
        using "2.prems" True cs by (auto split: list.splits)
      have h: "is_hex a1 \<and> is_hex a2 \<and> is_hex a3 \<and> is_hex a4"
        using "2.prems" True cs u es by (simp split: if_splits)
      then obtain y where "scan_str q = Some (y, r)" "x = c # e # a1 # a2 # a3 # a4 # y"
        using "2.prems" True cs u es by auto
      with "2.IH"(2)[OF _ True cs e u es] h True cs u es show ?thesis by simp
    qed
  next
    case False
    then show ?thesis using "2.prems" "2.IH"(3) by (auto split: if_splits)
  qed
qed simp

definition str_ok :: "string \<Rightarrow> bool" where
  "str_ok s \<longleftrightarrow> scan_str (s @ [CHR 0x22]) = Some (s, [])"

lemma scan_str_ok [simp]: "str_ok s \<Longrightarrow> scan_str (s @ CHR 0x22 # r) = Some (s, r)"
  using scan_str_append[of "s @ [CHR 0x22]" s "[]" r] by (simp add: str_ok_def)

definition num_ok :: "string \<Rightarrow> bool" where "num_ok s \<longleftrightarrow> scan_num s = Some (s, [])"

text \<open>What may follow a value in a printed document: its end or a structural character.\<close>

definition ends_value :: "string \<Rightarrow> bool" where
  "ends_value r \<longleftrightarrow> r = [] \<or> hd r \<in> {CHR '','', CHR '']'', CHR ''}''}"

lemma ends_value_simps [simp]:
  "ends_value []" "ends_value (CHR '','' # r)" "ends_value (CHR '']'' # r)" "ends_value (CHR ''}'' # r)"
  by (simp_all add: ends_value_def)

lemma ends_value_not_digit: "ends_value r \<Longrightarrow> r \<noteq> [] \<Longrightarrow> \<not> isDigit (hd r)"
  by (auto simp: ends_value_def isDigit_def)

lemma dropWhile_digits_append:
  "ends_value r \<Longrightarrow> dropWhile isDigit (s @ r) = dropWhile isDigit s @ r"
  by (induction s) (auto simp: dropWhile_eq_self_iff dest: ends_value_not_digit)

lemma digits_append: "ends_value r \<Longrightarrow> digits (s @ r) = digits s"
  unfolding digits_def by (induction s) (auto dest: ends_value_not_digit simp: takeWhile_eq_Nil_iff)

lemmas digits_follow = dropWhile_digits_append digits_append

lemma scan_int_append:
  assumes "scan_int s = Some (i, t)" "ends_value r"
  shows "scan_int (s @ r) = Some (i, t @ r)"
proof (cases s)
  case (Cons c cs)
  note d = digits_follow[OF assms(2), of "c # cs", unfolded append_Cons]
  show ?thesis
    using assms(1) d by (cases "c = CHR ''0''"; cases "isDigit c") (simp_all add: scan_int_def Cons)
qed (use assms in \<open>simp add: scan_int_def\<close>)

lemma scan_frac_append:
  "scan_frac s = Some (i, t) \<Longrightarrow> ends_value r \<Longrightarrow> scan_frac (s @ r) = Some (i, t @ r)"
  by (cases s; cases r) (auto simp: scan_frac_def digits_follow ends_value_def
      split: if_splits)

lemma scan_exp_append:
  assumes "scan_exp s = Some (i, t)" "ends_value r"
  shows "scan_exp (s @ r) = Some (i, t @ r)"
proof (cases s)
  case Nil
  then show ?thesis using assms by (cases r) (auto simp: scan_exp_def ends_value_def)
next
  case (Cons c cs)
  define sgn where "sgn = (case cs of x # _ \<Rightarrow> if x = CHR ''+'' \<or> x = CHR ''-'' then [x] else [] | [] \<Rightarrow> [])"
  have "(case cs @ r of x # _ \<Rightarrow> if x = CHR ''+'' \<or> x = CHR ''-'' then [x] else [] | [] \<Rightarrow> []) = sgn"
    "drop (length sgn) (cs @ r) = drop (length sgn) cs @ r"
    using assms(2) by (auto simp: sgn_def ends_value_def split: list.splits)
  with Cons assms show ?thesis
    by (auto simp: scan_exp_def Let_def digits_follow sgn_def[symmetric] split: if_splits)
qed

lemma scan_num_append:
  assumes "scan_num s = Some (i, t)" "ends_value r"
  shows "scan_num (s @ r) = Some (i, t @ r)"
proof -
  define sgn where "sgn = (case s of c # _ \<Rightarrow> if c = CHR ''-'' then [c] else [] | [] \<Rightarrow> [])"
  have s: "s \<noteq> []"
    using assms(1) by (auto simp: scan_num_def scan_int_def)
  then have sr: "(case s @ r of c # _ \<Rightarrow> if c = CHR ''-'' then [c] else [] | [] \<Rightarrow> []) = sgn"
    "drop (length sgn) (s @ r) = drop (length sgn) s @ r"
    by (auto simp: sgn_def split: list.splits)
  obtain i' r1 where 1: "scan_int (drop (length sgn) s) = Some (i', r1)"
    using assms(1) by (auto simp: scan_num_def Let_def sgn_def[symmetric] split: option.splits)
  obtain f r2 where 2: "scan_frac r1 = Some (f, r2)"
    using assms(1) 1 by (auto simp: scan_num_def Let_def sgn_def[symmetric] split: option.splits)
  obtain x where 3: "scan_exp r2 = Some (x, t)" "i = sgn @ i' @ f @ x"
    using assms(1) 1 2 by (auto simp: scan_num_def Let_def sgn_def[symmetric] split: option.splits)
  show ?thesis
    unfolding scan_num_def sr Let_def
    by (simp add: 3(2) scan_int_append[OF 1 assms(2)] scan_frac_append[OF 2 assms(2)]
        scan_exp_append[OF 3(1) assms(2)])
qed

fun json_ok :: "json \<Rightarrow> bool" where
  "json_ok JNull \<longleftrightarrow> True"
| "json_ok (JBool b) \<longleftrightarrow> True"
| "json_ok (JNum s) \<longleftrightarrow> num_ok s"
| "json_ok (JStr s) \<longleftrightarrow> str_ok s"
| "json_ok (JArr vs) \<longleftrightarrow> list_all json_ok vs"
| "json_ok (JObj ms) \<longleftrightarrow> list_all (\<lambda>(k, v). str_ok k \<and> json_ok v) ms"

fun depth :: "json \<Rightarrow> nat" where
  "depth (JArr vs) = Suc (foldr (\<lambda>v. max (depth v)) vs 0)"
| "depth (JObj ms) = Suc (foldr (\<lambda>(k, v). max (depth v)) ms 0)"
| "depth _ = 0"

lemma skip_ws_Cons [simp]: "\<not> is_ws c \<Longrightarrow> skip_ws (c # s) = c # s"
  by (simp add: skip_ws_def)

lemma skip_ws_Nil [simp]: "skip_ws [] = []"
  by (simp add: skip_ws_def)

lemma scan_num_head: "scan_num (c # s) = Some x \<Longrightarrow> c = CHR ''-'' \<or> isDigit c"
  by (auto simp: scan_num_def scan_int_def isDigit_def split: if_splits option.splits)

lemma num_ok_head: "num_ok s \<Longrightarrow> \<exists>c cs. s = c # cs \<and> (c = CHR ''-'' \<or> isDigit c)"
proof (cases s)
  case Nil
  then show "num_ok s \<Longrightarrow> ?thesis" by (simp add: num_ok_def scan_num_def scan_int_def)
next
  case (Cons c cs)
  then show "num_ok s \<Longrightarrow> ?thesis" using scan_num_head[of c cs] by (simp add: num_ok_def)
qed

lemma render_head: "json_ok v \<Longrightarrow> \<exists>c cs. render v = c # cs \<and> \<not> is_ws c \<and> c \<noteq> CHR '']'' \<and> c \<noteq> CHR ''}''"
proof (cases v)
  case (JNum s)
  assume "json_ok v"
  with JNum obtain c cs where "s = c # cs" "c = CHR ''-'' \<or> isDigit c"
    using num_ok_head[of s] by auto
  then show ?thesis using JNum by (auto simp: is_ws_def isDigit_def)
qed (auto simp: is_ws_def)

lemma pvalue_num:
  assumes "num_ok s" "ends_value r"
  shows "pvalue (Suc n) d (s @ r) = Some (JNum s, r)"
proof -
  obtain c cs where s: "s = c # cs" "c = CHR ''-'' \<or> isDigit c"
    using num_ok_head[OF assms(1)] by auto
  then have c: "\<not> is_ws c" "c \<noteq> CHR 0x22" "c \<noteq> CHR ''[''" "c \<noteq> CHR ''{''" "c \<noteq> CHR ''n''"
      "c \<noteq> CHR ''t''" "c \<noteq> CHR ''f''"
    by (auto simp: is_ws_def isDigit_def)
  show ?thesis
    using scan_num_append[of s s "[]" r] assms c by (simp add: s(1) num_ok_def hasPrefix_def)
qed

lemma pvalue_render:
  "json_ok v \<Longrightarrow> ends_value r \<Longrightarrow> depth v \<le> d \<Longrightarrow> length (render v) \<le> n \<Longrightarrow>
    pvalue (Suc n) d (render v @ r) = Some (v, r)"
  "list_all json_ok vs \<Longrightarrow> vs \<noteq> [] \<Longrightarrow> foldr (\<lambda>v. max (depth v)) vs 0 \<le> d \<Longrightarrow> length (render_list vs) \<le> n \<Longrightarrow>
    parr (Suc n) d (render_list vs @ r) = Some (vs, r)"
  "list_all (\<lambda>(k, v). str_ok k \<and> json_ok v) ms \<Longrightarrow> ms \<noteq> [] \<Longrightarrow>
    foldr (\<lambda>(k, v). max (depth v)) ms 0 \<le> d \<Longrightarrow> length (render_members ms) \<le> n \<Longrightarrow>
    pobj (Suc n) d (render_members ms @ r) = Some (ms, r)"
proof (induction v and vs and ms arbitrary: n d r and n d r and n d r rule: render_render_list_render_members.induct)
  case (3 s)
  then show ?case by (simp add: pvalue_num del: pvalue.simps)
next
  case (4 s)
  then show ?case by (simp add: is_ws_def)
next
  case (5 vs)
  show ?case
  proof (cases vs)
    case (Cons v vs')
    obtain m e where nd: "n = Suc m" "d = Suc e"
      using "5.prems" by (cases n; cases d) auto
    obtain c cs where "render v = c # cs" "\<not> is_ws c" "c \<noteq> CHR '']''"
      using render_head[of v] "5.prems" Cons by auto
    moreover have "parr (Suc m) e (render_list vs @ r) = Some (vs, r)"
      using "5.prems" by (intro "5.IH") (simp_all add: nd Cons)
    ultimately show ?thesis by (simp add: nd Cons is_ws_def)
  qed (use "5.prems" in \<open>cases d; simp add: is_ws_def\<close>)
next
  case (6 ms)
  show ?case
  proof (cases ms)
    case (Cons m0 ms')
    obtain m e where nd: "n = Suc m" "d = Suc e"
      using "6.prems" by (cases n; cases d) auto
    have "pobj (Suc m) e (render_members ms @ r) = Some (ms, r)"
      using "6.prems" by (intro "6.IH") (simp_all add: nd Cons)
    then show ?thesis by (cases m0) (simp add: nd Cons is_ws_def)
  qed (use "6.prems" in \<open>cases d; simp add: is_ws_def\<close>)
next
  case (8 v vs)
  obtain m where n: "n = Suc m" using "8.prems" by (cases n) (auto split: if_splits)
  let ?t = "(if vs = [] then '']'' else CHR '','' # render_list vs) @ r"
  have "pvalue (Suc m) d (render v @ ?t) = Some (v, ?t)"
    using "8.prems" by (intro "8.IH"(1)) (auto simp: n split: if_splits)
  moreover have "vs \<noteq> [] \<Longrightarrow> parr (Suc m) d (render_list vs @ r) = Some (vs, r)"
    using "8.prems" by (intro "8.IH"(2)) (auto simp: n split: if_splits)
  ultimately show ?case by (simp add: n is_ws_def)
next
  case (10 k v ms)
  obtain m where n: "n = Suc m" using "10.prems" by (cases n) auto
  let ?t = "(if ms = [] then ''}'' else CHR '','' # render_members ms) @ r"
  have "pvalue (Suc m) d (render v @ ?t) = Some (v, ?t)"
    using "10.prems" by (intro "10.IH"(1)) (auto simp: n split: if_splits)
  moreover have "ms \<noteq> [] \<Longrightarrow> pobj (Suc m) d (render_members ms @ r) = Some (ms, r)"
    using "10.prems" by (intro "10.IH"(2)) (auto simp: n split: if_splits)
  ultimately show ?case using "10.prems" by (simp add: n is_ws_def)
qed (auto simp: is_ws_def hasPrefix_def)


lemma json_parse_render:
  "json_ok v \<Longrightarrow> depth v \<le> maxNestingDepth \<Longrightarrow> json_parse (render v) = Some v"
  using pvalue_render(1)[of v "[]" maxNestingDepth "length (render v)"]
  by (simp add: json_parse_def del: pvalue.simps)

section \<open>Quoting\<close>

fun utf8_ok_aux :: "nat \<Rightarrow> string \<Rightarrow> bool" where
  "utf8_ok_aux 0 s \<longleftrightarrow> s = []"
| "utf8_ok_aux (Suc n) s \<longleftrightarrow>
     (case s of [] \<Rightarrow> True
      | c # cs \<Rightarrow> if code c < 128 then utf8_ok_aux n cs
                 else 0 < utf8_width s \<and> utf8_ok_aux n (drop (utf8_width s) s))"

text \<open>A string is well-formed UTF-8.\<close>

definition utf8_ok :: "string \<Rightarrow> bool" where "utf8_ok s \<longleftrightarrow> utf8_ok_aux (length s) s"

lemma utf8_width_cases:
  assumes "0 < utf8_width s"
  obtains c0 c1 r where "s = c0 # c1 # r" "utf8_2 c0 c1" "utf8_width s = 2"
  | c0 c1 c2 r where "s = c0 # c1 # c2 # r" "\<not> utf8_2 c0 c1" "utf8_3 c0 c1 c2" "utf8_width s = 3"
  | c0 c1 c2 c3 r where "s = c0 # c1 # c2 # c3 # r" "\<not> utf8_2 c0 c1" "\<not> utf8_3 c0 c1 c2"
      "utf8_4 c0 c1 c2 c3" "utf8_width s = 4"
  using assms by (cases s rule: utf8_width.cases) (auto split: list.splits if_splits)

lemma utf8_width_take: "0 < utf8_width s \<Longrightarrow> utf8_width (take (utf8_width s) s @ r) = utf8_width s"
  by (erule utf8_width_cases) (auto split: list.split)

lemma utf8_width_high: "0 < utf8_width s \<Longrightarrow> list_all (\<lambda>c. 128 \<le> code c) (take (utf8_width s) s)"
  by (erule utf8_width_cases) (auto simp: utf8_2_def utf8_3_def utf8_4_def cont_def)

lemma utf8_width_length: "0 < utf8_width s \<Longrightarrow> length (take (utf8_width s) s) = utf8_width s"
  by (erule utf8_width_cases) auto

lemma scan_str_high:
  "list_all (\<lambda>c. 128 \<le> code c) u \<Longrightarrow>
   scan_str (u @ s) = map_option (\<lambda>(x, r). (u @ x, r)) (scan_str s)"
proof (induction u)
  case Nil
  then show ?case by (cases "scan_str s") auto
next
  case (Cons c u)
  have "128 \<le> code c" using Cons.prems by simp
  then have "c \<noteq> CHR 0x22" "c \<noteq> CHR 0x5C" "\<not> code c < 32" by auto
  with Cons show ?case by (cases "scan_str s") auto
qed

lemma hex_val_hex_char [simp]: "n < 16 \<Longrightarrow> hex_val (hex_char n) = Some n"
proof -
  have "list_all (\<lambda>n. hex_val (hex_char n) = Some n) [0..<16]" by code_simp
  then show "n < 16 \<Longrightarrow> ?thesis" by (simp add: list_all_iff)
qed

lemma is_hex_hex_char [simp]: "n < 16 \<Longrightarrow> is_hex (hex_char n)"
  by (simp add: is_hex_def)

lemma quote_ascii_cases:
  obtains "quote_ascii c = [CHR 0x5C, c]" "c = CHR 0x22 \<or> c = CHR 0x5C"
  | e where "quote_ascii c = [CHR 0x5C, e]" "e \<in> set ''bfnrt''" "simple_escape e = c"
  | "quote_ascii c = [CHR 0x5C, CHR ''u'', CHR ''0'', CHR ''0'', hex_char (code c div 16), hex_char (code c mod 16)]"
  | "quote_ascii c = [c]" "c \<noteq> CHR 0x22" "c \<noteq> CHR 0x5C" "\<not> code c < 32"
proof -
  consider "c = CHR 0x22 \<or> c = CHR 0x5C"
    | "c \<in> {CHR 0x08, CHR 0x0C, CHR 0x0A, CHR 0x0D, CHR 0x09}"
    | "c \<noteq> CHR 0x22" "c \<noteq> CHR 0x5C" "c \<notin> {CHR 0x08, CHR 0x0C, CHR 0x0A, CHR 0x0D, CHR 0x09}"
    by auto
  then show thesis
  proof cases
    case 1
    then show thesis by (intro that(1)) (simp_all add: quote_ascii_def)
  next
    case 2
    then have "\<exists>e. quote_ascii c = [CHR 0x5C, e] \<and> e \<in> set ''bfnrt'' \<and> simple_escape e = c"
      by (auto simp: quote_ascii_def simple_escape_def)
    then show thesis using that(2) by auto
  next
    case 3
    show thesis
    proof (cases "code c < 32 \<or> c = CHR ''<'' \<or> c = CHR ''>'' \<or> c = CHR ''&''")
      case True
      with 3 show thesis by (intro that(3)) (simp add: quote_ascii_def)
    next
      case False
      with 3 show thesis by (intro that(4)) (simp_all add: quote_ascii_def)
    qed
  qed
qed

lemma scan_str_quote_ascii:
  assumes "code c < 128"
  shows "scan_str (quote_ascii c @ s) = map_option (\<lambda>(x, r). (quote_ascii c @ x, r)) (scan_str s)"
proof -
  have "is_hex CHR ''0''" "code c div 16 < 16" using assms by (simp_all add: is_hex_def hex_val_def)
  then show ?thesis by (cases c rule: quote_ascii_cases; cases "scan_str s") auto
qed

lemma unquote_Nil [simp]: "unquote [] = []"
  by (simp add: unquote.simps)

lemma quote_Nil [simp]: "quote [] = []"
  by (simp add: quote.simps)

lemma unquote_quote_ascii:
  assumes "code c < 128"
  shows "unquote (quote_ascii c @ s) = c # unquote s"
proof (cases c rule: quote_ascii_cases)
  case 3
  have z: "is_hex CHR ''0''" "hex_val CHR ''0'' = Some 0" "code c div 16 < 16"
    using assms by (simp_all add: is_hex_def hex_val_def)
  then have "hex_num [CHR ''0'', CHR ''0'', hex_char (code c div 16), hex_char (code c mod 16)] = code c"
    by (simp add: hex_num_def)
  then show ?thesis
    using 3 z assms
    by (subst unquote.simps) (simp add: hex4_def unquote_u_def utf8_encode_def)
qed (use assms in \<open>subst unquote.simps; auto simp: simple_escape_def\<close>)+

lemma unquote_u_escape:
  assumes "hex4 h = Some n" "length h = 4" "n < 55296"
  shows "unquote (CHR 0x5C # CHR ''u'' # h @ t) = utf8_encode n @ unquote t"
proof -
  have "hex4 (h @ t) = Some n" using assms(1,2)
    by (auto simp: hex4_def numeral_eq_Suc length_Suc_conv split: list.splits if_splits)
  with assms show ?thesis by (subst unquote.simps) (simp add: unquote_u_def)
qed

lemma unquote_quote_multi:
  assumes "0 < utf8_width s"
  shows "unquote (quote_multi (take (utf8_width s) s) @ t) = take (utf8_width s) s @ unquote t"
proof -
  let ?u = "take (utf8_width s) s"
  have e: "hex4 ''2028'' = Some 8232" "hex4 ''2029'' = Some 8233"
      "utf8_encode 8232 = map char_of [226, 128, 168 :: nat]" "utf8_encode 8233 = map char_of [226, 128, 169 :: nat]"
    by code_simp+
  consider "quote_multi ?u = CHR 0x5C # ''u2028''" "?u = map char_of [226, 128, 168 :: nat]"
    | "quote_multi ?u = CHR 0x5C # ''u2029''" "?u = map char_of [226, 128, 169 :: nat]"
    | "quote_multi ?u = ?u"
    by (metis quote_multi_def)
  then show ?thesis
  proof cases
    case 1
    then show ?thesis using unquote_u_escape[OF e(1), of t] e(3) by simp
  next
    case 2
    then show ?thesis using unquote_u_escape[OF e(2), of t] e(4) by simp
  next
    case 3
    obtain c cs where u: "?u = c # cs" using utf8_width_length[OF assms] assms by (cases ?u) auto
    then have "128 \<le> code c" using utf8_width_high[OF assms] by simp
    then have c: "c \<noteq> CHR 0x5C" "\<not> code c < 128" by auto
    have w: "utf8_width (c # cs @ t) = utf8_width s" "utf8_width s = Suc (length cs)"
      using utf8_width_take[OF assms, of t] utf8_width_length[OF assms] by (simp_all add: u)
    then have "unquote (c # cs @ t) = c # cs @ unquote t"
      using c by (subst unquote.simps) (simp del: utf8_width.simps)
    then show ?thesis using 3 by (simp add: u)
  qed
qed

lemma scan_str_quote_multi:
  assumes "0 < utf8_width s"
  shows "scan_str (quote_multi (take (utf8_width s) s) @ t) =
    map_option (\<lambda>(x, r). (quote_multi (take (utf8_width s) s) @ x, r)) (scan_str t)"
proof -
  have "list_all is_hex ''2028''" "list_all is_hex ''2029''" by code_simp+
  then show ?thesis
    using scan_str_high[OF utf8_width_high[OF assms], of t]
    by (cases "scan_str t") (auto simp: quote_multi_def)
qed

lemma str_ok_quote [simp]: "str_ok (quote s)"
proof -
  have "scan_str (quote s @ [CHR 0x22]) = Some (quote s, [])"
  proof (induction s rule: quote.induct)
    case (1 s)
    have f: "list_all is_hex ''fffd''" by code_simp
    show ?case
    proof (cases s)
      case (Cons c cs)
      show ?thesis
      proof (cases "code c < 128")
        case True
        with Cons 1(1)[OF Cons True] show ?thesis
          by (subst (1 2) quote.simps) (simp add: scan_str_quote_ascii)
      next
        case False
        show ?thesis
        proof (cases "utf8_width s = 0")
          case True
          with Cons False f 1(2)[OF Cons False True] show ?thesis
            by (subst (1 2) quote.simps) simp
        next
          case w: False
          with Cons False 1(3)[OF Cons False w] show ?thesis
            by (subst (1 2) quote.simps) (simp add: scan_str_quote_multi del: utf8_width.simps)
        qed
      qed
    qed simp
  qed
  then show ?thesis by (simp add: str_ok_def)
qed

lemma unquote_quote_aux: "utf8_ok_aux n s \<Longrightarrow> unquote (quote s) = s"
proof (induction n s rule: utf8_ok_aux.induct)
  case (2 n s)
  show ?case
  proof (cases s)
    case (Cons c cs)
    show ?thesis
    proof (cases "code c < 128")
      case True
      with Cons 2 show ?thesis by (subst quote.simps) (simp add: unquote_quote_ascii)
    next
      case False
      with 2(3) Cons have w: "0 < utf8_width s" "utf8_ok_aux n (drop (utf8_width s) s)"
        by (simp_all del: utf8_width.simps)
      with Cons False 2(2)[OF Cons False] show ?thesis
        by (subst quote.simps) (simp add: unquote_quote_multi del: utf8_width.simps)
    qed
  qed simp
qed simp

lemma unquote_quote: "utf8_ok s \<Longrightarrow> unquote (quote s) = s"
  by (simp add: utf8_ok_def unquote_quote_aux)


section \<open>Decoding what was encoded\<close>

lemma orElse_None [simp]: "orElse None e = e"
  by (simp add: orElse_def)

lemma dec_string_enc [simp]: "utf8_ok s \<Longrightarrow> dec_string (enc_string s) cur = (s, None)"
  by (simp add: dec_string_def unquote_quote)

lemma dec_elems_enc:
  "list_all utf8_ok xs \<Longrightarrow> dec_elems dec_string z (map enc_string xs) cur = (xs, None)"
  by (induction xs arbitrary: cur) simp_all

definition slice_utf8 :: "string list option \<Rightarrow> bool" where
  "slice_utf8 xs \<longleftrightarrow> (case xs of None \<Rightarrow> True | Some ys \<Rightarrow> list_all utf8_ok ys)"

lemma dec_slice_enc [simp]:
  "slice_utf8 xs \<Longrightarrow> dec_slice dec_string z (enc_slice xs) cur = (xs, None)"
  by (cases xs) (simp_all add: slice_utf8_def dec_slice_def enc_slice_def enc_list_def dec_elems_enc)

lemma dec_list_enc [simp]:
  "list_all utf8_ok xs \<Longrightarrow> dec_list dec_string z (enc_list xs) cur = (xs, None)"
  by (simp add: dec_list_def dec_slice_def enc_list_def dec_elems_enc)

text \<open>Names without escapes and outside the reach of case folding are read as they are.\<close>

definition plain_char :: "char \<Rightarrow> bool" where
  "plain_char c \<longleftrightarrow> code c < 128 \<and> c \<noteq> CHR 0x5C \<and> c \<noteq> CHR 0x22 \<and> \<not> code c < 32 \<and>
     c \<noteq> CHR ''<'' \<and> c \<noteq> CHR ''>'' \<and> c \<noteq> CHR ''&''"

lemma unquote_plain [simp]: "list_all plain_char s \<Longrightarrow> unquote s = s"
proof (induction s)
  case (Cons c s)
  then show ?case by (subst unquote.simps) (simp add: plain_char_def)
qed simp

lemma quote_plain [simp]: "list_all plain_char s \<Longrightarrow> quote s = s"
proof (induction s)
  case (Cons c s)
  then have c: "plain_char c" and n: "\<not> code c < 32" by (simp_all add: plain_char_def)
  from n have "c \<noteq> CHR 0x08" "c \<noteq> CHR 0x0C" "c \<noteq> CHR 0x0A" "c \<noteq> CHR 0x0D" "c \<noteq> CHR 0x09" by auto
  with c n have "quote_ascii c = [c]" unfolding quote_ascii_def plain_char_def by simp
  with Cons c show ?case by (subst quote.simps) (simp add: plain_char_def)
qed simp

lemma utf8_ok_plain: "list_all (\<lambda>c. code c < 128) s \<Longrightarrow> utf8_ok s"
  unfolding utf8_ok_def by (induction s) auto

lemma str_ok_plain: "list_all plain_char s \<Longrightarrow> str_ok s"
  using str_ok_quote[of s] by simp

text \<open>One member of an encoded structure, present or omitted.\<close>

lemma dec_member_known:
  assumes "list_all plain_char k" "find_field fs k = Some f" "snd f v r = (r', None)"
  shows "dec_member strict fs (r, None) (k, v) = (r', None)"
  unfolding dec_member_def Let_def prod.case unquote_plain[OF assms(1)] assms(2,3) option.case
  by (simp add: orElse_def)

lemma foldl_member:
  assumes "list_all plain_char k" "find_field fs k = Some f" "snd f v r = (r', None)"
  shows "foldl (dec_member strict fs) (r, None) ((k, v) # ms) = foldl (dec_member strict fs) (r', None) ms"
  by (simp add: dec_member_known[OF assms])

lemma foldl_omit:
  assumes "list_all plain_char k" "find_field fs k = Some f" "snd f v r = (r', None)" "b \<Longrightarrow> r' = r"
  shows "foldl (dec_member strict fs) (r, None) (omit b (k, v) @ ms) = foldl (dec_member strict fs) (r', None) ms"
  using assms(4) by (simp add: dec_member_known[OF assms(1-3)] omit_def)

lemma field_step: "d v (get r) = (x, e) \<Longrightarrow> snd (field name d get upd) v r = (upd (\<lambda>_. x) r, e)"
  by (simp add: field_def)

lemma find_field_exact: "find (\<lambda>f. fst f = k) fs = Some f \<Longrightarrow> find_field fs k = Some f"
  by (simp add: find_field_def)

lemma unmarshal_render:
  "json_ok j \<Longrightarrow> depth j \<le> maxNestingDepth \<Longrightarrow> unmarshal d cur (render j) = d j cur"
  by (simp add: unmarshal_def json_parse_render)

lemma json_ok_enc [simp]: "json_ok (enc_list xs)" "json_ok (enc_slice ys)"
  by (simp_all add: enc_list_def enc_slice_def list_all_iff split: option.split)

lemma depth_enc [simp]: "depth (enc_list xs) = 1" "depth (enc_slice ys) \<le> 1"
proof -
  have "foldr (\<lambda>v. max (depth v)) (map enc_string xs) 0 = 0" for xs by (induction xs) simp_all
  then show "depth (enc_list xs) = 1" "depth (enc_slice ys) \<le> 1"
    by (simp_all add: enc_list_def enc_slice_def split: option.split)
qed

text \<open>Evaluating the decoding of a printed structure, member by member.\<close>

abbreviation field_of :: "'r field list \<Rightarrow> string \<Rightarrow> 'r dec" where
  "field_of fs k \<equiv> snd (the (find_field fs k))"

lemma dec_member_eval:
  assumes "list_all plain_char k" "find_field fs k \<noteq> None" "snd (field_of fs k v r) = None"
  shows "dec_member strict fs (r, None) (k, v) = (fst (field_of fs k v r), None)"
proof -
  obtain f where f: "find_field fs k = Some f" using assms(2) by blast
  show ?thesis using assms(3) by (intro dec_member_known[OF assms(1) f]) (simp add: f prod_eq_iff)
qed

lemma dec_omit_eval:
  assumes "list_all plain_char k" "find_field fs k \<noteq> None" "snd (field_of fs k v r) = None"
    "b \<Longrightarrow> fst (field_of fs k v r) = r"
  shows "foldl (dec_member strict fs) (r, None) (omit b (k, v)) = (fst (field_of fs k v r), None)"
  using dec_member_eval[OF assms(1-3)] assms(4) by (simp add: omit_def)

lemma fst_field [simp]: "fst (field name d get upd) = name"
  by (simp add: field_def)

lemma snd_field: "snd (field name d get upd) v r = (upd (\<lambda>_. fst (d v (get r))) r, snd (d v (get r)))"
  by (simp add: field_def case_prod_beta)

lemmas struct_eval = dec_member_eval dec_omit_eval snd_field plain_char_def

end
