(* ===== verification/Store.thy ===== *)
theory Store
  imports Go_Json
begin

text \<open>
  The overlay database: the entries of \<^verbatim>\<open>store/store.go\<close>, the interface that both stores
  promise to the backends (locale \<open>overlay_store\<close>), and the file store \<^verbatim>\<open>store/simple.go\<close>.
\<close>

section \<open>Entries\<close>

record entry =
  IpAddress :: string
  HostIpAddress :: string
  Self :: bool
  Peer :: bool

text \<open>\<^verbatim>\<open>strings.Split(e.IpAddress, "/")[0]\<close>, the key under which every component files an entry.\<close>

definition ipNoCidr :: "entry \<Rightarrow> string" where
  "ipNoCidr e = split_head CHR ''/'' (IpAddress e)"

definition cidr_error :: "string \<Rightarrow> go_error" where
  "cidr_error s = Errorf ''invalid CIDR address: %s'' [s]"

text \<open>
  What filing a list of entries one after the other under their address leaves in a Go map: the
  last entry of each address.
\<close>

definition last_by_ip :: "entry list \<Rightarrow> string \<Rightarrow> entry option" where
  "last_by_ip es = map_of (rev (map (\<lambda>e. (ipNoCidr e, e)) es))"

lemma last_by_ip_Nil [simp]: "last_by_ip [] = Map.empty"
  by (simp add: last_by_ip_def)

lemma last_by_ip_snoc [simp]: "last_by_ip (es @ [e]) = (last_by_ip es)(ipNoCidr e \<mapsto> e)"
  by (simp add: last_by_ip_def)

lemma last_by_ip_SomeD: "last_by_ip es k = Some e \<Longrightarrow> e \<in> set es \<and> ipNoCidr e = k"
  by (auto simp: last_by_ip_def dest: map_of_SomeD)

lemma dom_last_by_ip: "dom (last_by_ip es) = ipNoCidr ` set es"
  by (simp add: last_by_ip_def dom_map_of_conv_image_fst image_image)

lemma last_by_ip_None: "last_by_ip es k = None \<longleftrightarrow> (\<forall>e \<in> set es. ipNoCidr e \<noteq> k)"
  using dom_last_by_ip[of es] by (metis domIff imageE imageI)

text \<open>
  How the entries of a store are split into the maps of its local addresses, its remote addresses
  and its remote addresses that are not peers, relative to the host the store runs on.
\<close>

definition classified ::
  "string \<Rightarrow> entry list \<Rightarrow> entry gomap \<Rightarrow> entry gomap \<Rightarrow> entry gomap \<Rightarrow> bool" where
  "classified host es loc rem nonpeers \<longleftrightarrow>
     map_of loc = last_by_ip (filter (\<lambda>e. HostIpAddress e = host) es) \<and>
     map_of rem = last_by_ip (filter (\<lambda>e. HostIpAddress e \<noteq> host) es) \<and>
     map_of nonpeers = last_by_ip (filter (\<lambda>e. HostIpAddress e \<noteq> host \<and> \<not> Peer e) es) \<and>
     gomap_ok loc \<and> gomap_ok rem \<and> gomap_ok nonpeers"

lemma classified_Nil [simp]: "classified host [] [] [] []"
  by (simp add: classified_def)

lemma classified_snoc:
  assumes "classified host es loc rem nonpeers"
  shows "classified host (es @ [e])
    (if HostIpAddress e = host then mput (ipNoCidr e) e loc else loc)
    (if HostIpAddress e = host then rem else mput (ipNoCidr e) e rem)
    (if HostIpAddress e \<noteq> host \<and> \<not> Peer e then mput (ipNoCidr e) e nonpeers else nonpeers)"
  using assms by (auto simp: classified_def)

section \<open>The store interface\<close>

text \<open>
  The operations of \<^verbatim>\<open>store.Store\<close> that read, and what the backends rely on: an address is
  remote exactly if some entry on another host has it and no entry on this host has it; the two
  remote maps hold remote entries filed under their own address; peers are marked as peers.
\<close>

locale overlay_store =
  fixes inv :: "'s \<Rightarrow> bool"
    and local_host :: "'s \<Rightarrow> string"
    and is_remote :: "'s \<Rightarrow> string \<Rightarrow> bool"
    and all_entries :: "'s \<Rightarrow> entry list"
    and remote_map :: "'s \<Rightarrow> entry gomap"
    and nonpeer_map :: "'s \<Rightarrow> entry gomap"
    and peer_map :: "'s \<Rightarrow> entry gomap"
  assumes remote_law: "inv s \<Longrightarrow>
      map_of (remote_map s) = last_by_ip (filter (\<lambda>e. HostIpAddress e \<noteq> local_host s) (all_entries s))"
    and nonpeer_law: "inv s \<Longrightarrow>
      map_of (nonpeer_map s) =
        last_by_ip (filter (\<lambda>e. HostIpAddress e \<noteq> local_host s \<and> \<not> Peer e) (all_entries s))"
    and is_remote_law: "inv s \<Longrightarrow> is_remote s ip \<longleftrightarrow>
      (\<exists>e \<in> set (all_entries s). ipNoCidr e = ip \<and> HostIpAddress e \<noteq> local_host s) \<and>
      (\<forall>e \<in> set (all_entries s). ipNoCidr e = ip \<longrightarrow> HostIpAddress e \<noteq> local_host s)"
    and peer_law: "inv s \<Longrightarrow> map_of (peer_map s) ip = Some e \<Longrightarrow> Peer e \<and> ipNoCidr e = ip"
    and maps_ok: "inv s \<Longrightarrow> gomap_ok (remote_map s) \<and> gomap_ok (nonpeer_map s) \<and> gomap_ok (peer_map s)"
begin

lemma remote_entry:
  assumes "inv s" "map_of (remote_map s) ip = Some e"
  shows "e \<in> set (all_entries s) \<and> ipNoCidr e = ip \<and> HostIpAddress e \<noteq> local_host s"
  using assms by (auto simp: remote_law dest!: last_by_ip_SomeD)

lemma nonpeer_entry:
  assumes "inv s" "map_of (nonpeer_map s) ip = Some e"
  shows "e \<in> set (all_entries s) \<and> ipNoCidr e = ip \<and> HostIpAddress e \<noteq> local_host s \<and> \<not> Peer e"
  using assms by (auto simp: nonpeer_law dest!: last_by_ip_SomeD)

lemma nonpeer_is_remote_key: "inv s \<Longrightarrow> dom (map_of (nonpeer_map s)) \<subseteq> dom (map_of (remote_map s))"
  by (auto simp: nonpeer_law remote_law dom_last_by_ip)

lemma is_remote_in_remote_map: "inv s \<Longrightarrow> is_remote s ip \<Longrightarrow> ip \<in> dom (map_of (remote_map s))"
  by (auto simp: is_remote_law remote_law dom_last_by_ip)

lemma local_not_remote:
  "inv s \<Longrightarrow> e \<in> set (all_entries s) \<Longrightarrow> HostIpAddress e = local_host s \<Longrightarrow> \<not> is_remote s (ipNoCidr e)"
  by (auto simp: is_remote_law)

end

text \<open>Both stores answer \<^verbatim>\<open>IsRemote\<close> from their local and remote maps in the same way.\<close>

lemma classified_is_remote:
  assumes "classified host es loc rem nonpeers"
  shows "(map_of loc ip = None \<and> map_of rem ip \<noteq> None) \<longleftrightarrow>
    (\<exists>e \<in> set es. ipNoCidr e = ip \<and> HostIpAddress e \<noteq> host) \<and>
    (\<forall>e \<in> set es. ipNoCidr e = ip \<longrightarrow> HostIpAddress e \<noteq> host)"
  using assms by (auto simp: classified_def last_by_ip_None)

section \<open>The file store\<close>

record Config =
  cfg_hostIp :: string
  cfg_cidrIp :: go_ip
  cfg_cidrNetwork :: "ipnet option"
  cfg_local :: "entry gomap"
  cfg_remote :: "entry gomap"
  cfg_entries :: "entry list"
  cfg_peers :: "entry gomap"
  cfg_remoteNonPeersMap :: "entry gomap"

record Simple =
  smp_file :: string
  smp_ipOverride :: string
  smp_config :: Config

definition zeroConfig :: Config where
  "zeroConfig = \<lparr>cfg_hostIp = [], cfg_cidrIp = [], cfg_cidrNetwork = None, cfg_local = [], cfg_remote = [], cfg_entries = [],
     cfg_peers = [], cfg_remoteNonPeersMap = []\<rparr>"

definition NewSimpleStore :: "string \<Rightarrow> string \<Rightarrow> Simple" where
  "NewSimpleStore f localIp = \<lparr>smp_file = f, smp_ipOverride = localIp, smp_config = zeroConfig\<rparr>"

definition zeroEntry :: entry where
  "zeroEntry = \<lparr>IpAddress = [], HostIpAddress = [], Self = False, Peer = False\<rparr>"

definition entry_fields :: "entry field list" where
  "entry_fields =
     [field ''ip'' dec_string IpAddress IpAddress_update,
      field ''hostIp'' dec_string HostIpAddress HostIpAddress_update,
      field ''self'' dec_bool Self Self_update,
      field ''peer'' dec_bool Peer Peer_update]"

record Records =
  rec_Entries :: "entry list"

definition records_fields :: "Records field list" where
  "records_fields = [field ''entries'' (dec_list (dec_struct False entry_fields) zeroEntry) rec_Entries rec_Entries_update]"

text \<open>\<^verbatim>\<open>readFile\<close>: what the operating system returns for the store's file is the argument.\<close>

definition simple_readFile :: "(string \<Rightarrow> string result) \<Rightarrow> Simple \<Rightarrow> entry list result" where
  "simple_readFile readf s =
     (case readf (smp_file s) of
        Inl e \<Rightarrow> Inl e
      | Inr content \<Rightarrow>
          (case unmarshal (dec_struct False records_fields) \<lparr>rec_Entries = []\<rparr> content of
             (_, Some e) \<Rightarrow> Inl e
           | (records, None) \<Rightarrow> Inr (rec_Entries records)))"

text \<open>
  The search for the first self entry. The loop variable that \<^verbatim>\<open>self\<close> points to is a copy made
  before the override is stored in the slice, so \<^verbatim>\<open>self\<close> keeps the address of the file.
\<close>

fun find_self :: "string \<Rightarrow> entry list \<Rightarrow> (entry \<times> entry list) option" where
  "find_self ov [] = None"
| "find_self ov (e # es) =
     (if Self e then Some (e, (if ov \<noteq> [] then e\<lparr>IpAddress := ov\<rparr> else e) # es)
      else map_option (\<lambda>(self, es'). (self, e # es')) (find_self ov es))"

text \<open>The body of the classification loop; the accumulators are local, remote, non-peers, entries, peers.\<close>

type_synonym class_acc = "entry gomap \<times> entry gomap \<times> entry gomap \<times> entry list \<times> entry gomap"

definition simple_step :: "entry \<Rightarrow> class_acc \<Rightarrow> entry \<Rightarrow> class_acc" where
  "simple_step self acc e =
     (let (loc, rem, nonpeers, filtered, ps) = acc; ip = ipNoCidr e
      in if IpAddress e = [] then acc
         else ((if HostIpAddress e = HostIpAddress self then mput ip e loc else loc),
               (if HostIpAddress e = HostIpAddress self then rem else mput ip e rem),
               (if HostIpAddress e \<noteq> HostIpAddress self \<and> \<not> Peer e then mput ip e nonpeers else nonpeers),
               filtered @ [e],
               (if Peer e then mput ip e ps else ps)))"

definition Simple_Reload :: "(string \<Rightarrow> string result) \<Rightarrow> Simple \<Rightarrow> go_error option \<times> Simple" where
  "Simple_Reload readf s =
     (case simple_readFile readf s of
        Inl e \<Rightarrow> (Some e, s)
      | Inr es \<Rightarrow>
        (case find_self (smp_ipOverride s) es of
           None \<Rightarrow> (Some (Errorf ''Failed to find self entry'' []), s)
         | Some (self, es') \<Rightarrow>
           (case parseCIDR (IpAddress self) of
              None \<Rightarrow> (Some (cidr_error (IpAddress self)), s)
            | Some (ip, ipNet) \<Rightarrow>
              let (loc, rem, nonpeers, filtered, ps) = foldl (simple_step self) ([], [], [], [], []) es';
                  finish = (\<lambda>i. (None, s\<lparr>smp_config := \<lparr>cfg_hostIp = HostIpAddress self, cfg_cidrIp = i,
                     cfg_cidrNetwork = Some ipNet, cfg_local = loc, cfg_remote = rem, cfg_entries = filtered,
                     cfg_peers = ps, cfg_remoteNonPeersMap = nonpeers\<rparr>\<rparr>))
              in if smp_ipOverride s \<noteq> [] then
                   (case parseCIDR (smp_ipOverride s) of
                      None \<Rightarrow> (Some (cidr_error (smp_ipOverride s)), s)
                    | Some (i, _) \<Rightarrow> finish i)
                 else finish ip)))"

definition Simple_LocalHostIpAddress :: "Simple \<Rightarrow> string" where
  "Simple_LocalHostIpAddress s = cfg_hostIp (smp_config s)"

definition Simple_LocalIpAddress :: "Simple \<Rightarrow> string" where
  "Simple_LocalIpAddress s = ip_string (cfg_cidrIp (smp_config s))"

definition Simple_IsRemote :: "Simple \<Rightarrow> string \<Rightarrow> bool" where
  "Simple_IsRemote s ip =
     (if map_of (cfg_local (smp_config s)) ip \<noteq> None then False else map_of (cfg_remote (smp_config s)) ip \<noteq> None)"

definition Simple_Entries :: "Simple \<Rightarrow> entry list" where
  "Simple_Entries s = cfg_entries (smp_config s)"

definition Simple_RemoteEntriesMap :: "Simple \<Rightarrow> entry gomap" where
  "Simple_RemoteEntriesMap s = cfg_remote (smp_config s)"

definition Simple_RemoteNonPeerEntriesMap :: "Simple \<Rightarrow> entry gomap" where
  "Simple_RemoteNonPeerEntriesMap s = cfg_remoteNonPeersMap (smp_config s)"

definition Simple_PeerEntriesMap :: "Simple \<Rightarrow> entry gomap" where
  "Simple_PeerEntriesMap s = cfg_peers (smp_config s)"

section \<open>The file store keeps the interface\<close>

definition simple_inv :: "Simple \<Rightarrow> bool" where
  "simple_inv s \<longleftrightarrow>
     classified (cfg_hostIp (smp_config s)) (cfg_entries (smp_config s)) (cfg_local (smp_config s)) (cfg_remote (smp_config s))
       (cfg_remoteNonPeersMap (smp_config s)) \<and>
     gomap_ok (cfg_peers (smp_config s)) \<and>
     (\<forall>ip e. map_of (cfg_peers (smp_config s)) ip = Some e \<longrightarrow> Peer e \<and> ipNoCidr e = ip)"

definition acc_ok :: "string \<Rightarrow> class_acc \<Rightarrow> bool" where
  "acc_ok host acc \<longleftrightarrow>
     (case acc of (loc, rem, nonpeers, filtered, ps) \<Rightarrow>
        classified host filtered loc rem nonpeers \<and> gomap_ok ps \<and>
        (\<forall>ip e. map_of ps ip = Some e \<longrightarrow> Peer e \<and> ipNoCidr e = ip))"

lemma simple_step_ok: "acc_ok (HostIpAddress self) acc \<Longrightarrow> acc_ok (HostIpAddress self) (simple_step self acc e)"
  using classified_snoc[of "HostIpAddress self" _ _ _ _ e]
  by (cases acc) (simp add: simple_step_def acc_ok_def Let_def)

lemma simple_fold_ok: "acc_ok (HostIpAddress self) (foldl (simple_step self) ([], [], [], [], []) es)"
  by (rule foldl_preserves) (simp add: acc_ok_def, rule simple_step_ok)

lemma NewSimpleStore_inv: "simple_inv (NewSimpleStore f ip)"
  by (simp add: simple_inv_def NewSimpleStore_def zeroConfig_def)

lemma Simple_Reload_inv: "simple_inv s \<Longrightarrow> simple_inv (snd (Simple_Reload r s))"
proof -
  assume s: "simple_inv s"
  have "simple_inv (s\<lparr>smp_config := \<lparr>cfg_hostIp = HostIpAddress self, cfg_cidrIp = i, cfg_cidrNetwork = n, cfg_local = loc,
      cfg_remote = rem, cfg_entries = filtered, cfg_peers = ps, cfg_remoteNonPeersMap = nonpeers\<rparr>\<rparr>)"
    if "foldl (simple_step self) ([], [], [], [], []) es = (loc, rem, nonpeers, filtered, ps)"
    for self es i n loc rem nonpeers filtered ps
    using simple_fold_ok[of self es] by (simp add: that acc_ok_def simple_inv_def)
  then show ?thesis
    using s by (auto simp: Simple_Reload_def split: sum.split option.split prod.split)
qed

interpretation simple: overlay_store simple_inv Simple_LocalHostIpAddress Simple_IsRemote Simple_Entries
  Simple_RemoteEntriesMap Simple_RemoteNonPeerEntriesMap Simple_PeerEntriesMap
proof (unfold_locales, goal_cases)
  case (1 s)
  then show ?case
    by (simp add: simple_inv_def classified_def Simple_RemoteEntriesMap_def Simple_LocalHostIpAddress_def
        Simple_Entries_def)
next
  case (2 s)
  then show ?case
    by (simp add: simple_inv_def classified_def Simple_RemoteNonPeerEntriesMap_def
        Simple_LocalHostIpAddress_def Simple_Entries_def)
next
  case (3 s ip)
  then show ?case
    unfolding Simple_IsRemote_def Simple_LocalHostIpAddress_def Simple_Entries_def simple_inv_def
    by (subst classified_is_remote[symmetric]) auto
next
  case (4 s ip e)
  then show ?case by (simp add: simple_inv_def Simple_PeerEntriesMap_def)
next
  case (5 s)
  then show ?case
    by (simp add: simple_inv_def classified_def Simple_RemoteEntriesMap_def
        Simple_RemoteNonPeerEntriesMap_def Simple_PeerEntriesMap_def)
qed

section \<open>Properties of the file store\<close>

text \<open>The store after a sequence of reloads, each with its own state of the file system.\<close>

definition simple_after :: "string \<Rightarrow> string \<Rightarrow> (string \<Rightarrow> string result) list \<Rightarrow> Simple" where
  "simple_after f ov rs = foldl (\<lambda>s r. snd (Simple_Reload r s)) (NewSimpleStore f ov) rs"

lemma simple_after_inv: "simple_inv (simple_after f ov rs)"
  unfolding simple_after_def by (rule foldl_preserves) (rule NewSimpleStore_inv, rule Simple_Reload_inv)

text \<open>
  C10. Whatever reloads the file store went through, successful or not, the addresses it calls
  remote are exactly those that some entry on another host has and no entry on this host has, the
  remote map holds exactly the addresses of entries on other hosts, and the non-peer map exactly
  those of non-peer entries on other hosts.
\<close>

theorem simple_store_remote:
  fixes f ov rs
  defines "s \<equiv> simple_after f ov rs"
  defines "remotes \<equiv> {e \<in> set (Simple_Entries s). HostIpAddress e \<noteq> Simple_LocalHostIpAddress s}"
  defines "locals \<equiv> {e \<in> set (Simple_Entries s). HostIpAddress e = Simple_LocalHostIpAddress s}"
  shows "{ip. Simple_IsRemote s ip} = ipNoCidr ` remotes - ipNoCidr ` locals \<and>
    dom (map_of (Simple_RemoteEntriesMap s)) = ipNoCidr ` remotes \<and>
    dom (map_of (Simple_RemoteNonPeerEntriesMap s)) = ipNoCidr ` {e \<in> remotes. \<not> Peer e}"
proof -
  have inv: "simple_inv s" by (simp add: s_def simple_after_inv)
  show ?thesis
    unfolding remotes_def locals_def simple.remote_law[OF inv] simple.nonpeer_law[OF inv] dom_last_by_ip
    by (auto simp: simple.is_remote_law[OF inv] image_iff) (metis (no_types))
qed

lemma simple_fold_entries:
  "(\<lambda>(l, r, n, fs, p). fs) (foldl (simple_step self) (l0, r0, n0, fs0, p0) es) = fs0 @ filter (\<lambda>e. IpAddress e \<noteq> []) es"
proof (induction es arbitrary: l0 r0 n0 fs0 p0)
  case (Cons e es)
  then show ?case by (simp add: simple_step_def Let_def)
qed simp

lemma Simple_Reload_found:
  assumes "simple_readFile readf s = Inr es" "find_self (smp_ipOverride s) es = Some (self, es')"
  shows "(case Simple_Reload readf s of
      (Some err, s') \<Rightarrow> s' = s
    | (None, s') \<Rightarrow> Simple_Entries s' = filter (\<lambda>e. IpAddress e \<noteq> []) es' \<and> Simple_LocalHostIpAddress s' = HostIpAddress self) \<and>
    (fst (Simple_Reload readf s) = None \<longleftrightarrow> parseCIDR (IpAddress self) \<noteq> None \<and>
        (smp_ipOverride s = [] \<or> (\<exists>net. parseCIDR (smp_ipOverride s) = Some net)))"
proof -
  obtain l r n fs ps where fold: "foldl (simple_step self) ([], [], [], [], []) es' = (l, r, n, fs, ps)"
    by (metis prod_cases5)
  have fs: "fs = filter (\<lambda>e. IpAddress e \<noteq> []) es'"
    using simple_fold_entries[of self "[]" "[]" "[]" "[]" "[]" es'] by (simp add: fold)
  show ?thesis
    using assms(2)
    by (cases "parseCIDR (IpAddress self)"; cases "smp_ipOverride s = []"; cases "parseCIDR (smp_ipOverride s)")
      (auto simp: Simple_Reload_def assms(1) fold fs Simple_Entries_def Simple_LocalHostIpAddress_def)
qed

lemma Simple_Reload_None:
  assumes "Simple_Reload readf s = (None, s')"
  obtains es self es' where "simple_readFile readf s = Inr es" "find_self (smp_ipOverride s) es = Some (self, es')"
    "Simple_Entries s' = filter (\<lambda>e. IpAddress e \<noteq> []) es'" "Simple_LocalHostIpAddress s' = HostIpAddress self"
proof -
  obtain es where es: "simple_readFile readf s = Inr es"
    using assms by (cases "simple_readFile readf s") (auto simp: Simple_Reload_def)
  obtain self es' where f: "find_self (smp_ipOverride s) es = Some (self, es')"
    using assms by (cases "find_self (smp_ipOverride s) es") (auto simp: Simple_Reload_def es)
  from Simple_Reload_found[OF es f] show thesis using that es f assms by simp
qed

lemma simple_after_override: "smp_ipOverride (simple_after f ip rs) = ip"
proof -
  have step: "smp_ipOverride (snd (Simple_Reload r s)) = smp_ipOverride s" for r s
    by (auto simp: Simple_Reload_def split: sum.split option.split prod.split)
  have "smp_ipOverride (foldl (\<lambda>s r. snd (Simple_Reload r s)) s rs) = smp_ipOverride s" for s
    by (induction rs arbitrary: s) (simp_all add: step)
  then show ?thesis by (simp add: simple_after_def NewSimpleStore_def)
qed

text \<open>
  A reload of the file store either reports an error and leaves the store as it was, or
  installs exactly the entries of the file that have an address, in order, with the configured
  address in place of that of the first self entry, and the host of that entry as the local host.
  It succeeds exactly if the file decodes, has a self entry, and the address of that entry and the
  configured address, if any, are in CIDR form.
\<close>

theorem simple_reload_result:
  "(case Simple_Reload readf s of
      (Some err, s') \<Rightarrow> s' = s
    | (None, s') \<Rightarrow>
        (case simple_readFile readf s of
           Inl _ \<Rightarrow> False
         | Inr es \<Rightarrow>
            (case find_self (smp_ipOverride s) es of
               None \<Rightarrow> False
             | Some (self, es') \<Rightarrow>
                 Simple_Entries s' = filter (\<lambda>e. IpAddress e \<noteq> []) es' \<and>
                 Simple_LocalHostIpAddress s' = HostIpAddress self))) \<and>
   (fst (Simple_Reload readf s) = None \<longleftrightarrow>
      (\<exists>es self es'. simple_readFile readf s = Inr es \<and> find_self (smp_ipOverride s) es = Some (self, es') \<and>
        parseCIDR (IpAddress self) \<noteq> None \<and>
        (smp_ipOverride s = [] \<or> (\<exists>net. parseCIDR (smp_ipOverride s) = Some net))))"
proof (cases "simple_readFile readf s")
  case (Inr es)
  show ?thesis
  proof (cases "find_self (smp_ipOverride s) es")
    case (Some p)
    obtain self es' where p: "p = (self, es')" by (cases p)
    show ?thesis using Simple_Reload_found[OF Inr Some[unfolded p]] Some by (auto simp: Inr p split: prod.splits option.splits)
  qed (simp add: Simple_Reload_def Inr)
qed (simp add: Simple_Reload_def)

end
