(* ===== verification/Metadata_Store.thy ===== *)
theory Metadata_Store
  imports Store
begin

text \<open>
  The store that reads the platform metadata service, \<^verbatim>\<open>store/metadata.go\<close>. The records hold the
  fields of the metadata types that the program reads. The answers of the metadata client to the
  calls of one reload are the argument \<open>metadata_client\<close>.
\<close>

section \<open>Metadata types\<close>

record container =
  c_PrimaryIp :: string
  c_ServiceName :: string
  c_StackName :: string
  c_HostUUID :: string
  c_UUID :: string
  c_NetworkFromContainerUUID :: string
  c_NetworkUUID :: string

record service =
  s_Name :: string
  s_StackName :: string
  s_UUID :: string
  s_Containers :: "container list"
  s_Links :: "string gomap"
  s_System :: bool

record network =
  n_Name :: string
  n_UUID :: string

record host =
  h_AgentIP :: string
  h_UUID :: string

record metadata_client =
  GetSelfContainer :: "container result"
  GetHosts :: "host list result"
  GetContainers :: "container list result"
  GetServices :: "service list result"
  GetSelfHost :: "host result"
  GetSelfService :: "service result"
  GetNetworks :: "network list result"

record InfoFromMetadata =
  info_selfContainer :: container
  info_selfHost :: host
  info_selfService :: service
  info_selfNetwork :: network
  info_services :: "service list"
  info_servicesMapByName :: "service list gomap"
  info_hosts :: "host list"
  info_containers :: "container list"
  info_hostsMap :: "host gomap"
  info_networksMap :: "network gomap"

record MetadataStore =
  clientIP :: string
  ms_self :: entry
  ms_entries :: "entry list"
  ms_local :: "entry gomap"
  ms_remote :: "entry gomap"
  ms_peersMap :: "entry gomap"
  ms_remoteNonPeersMap :: "entry gomap"
  ms_info :: "InfoFromMetadata option"

definition zeroHost :: host where "zeroHost = \<lparr>h_AgentIP = [], h_UUID = []\<rparr>"

definition zeroNetwork :: network where "zeroNetwork = \<lparr>n_Name = [], n_UUID = []\<rparr>"

text \<open>The store object that \<^verbatim>\<open>NewMetadataStoreWithClientIP\<close> and \<^verbatim>\<open>NewMetadataStore\<close> return.\<close>

definition newMetadataStore :: "string \<Rightarrow> MetadataStore" where
  "newMetadataStore ip = \<lparr>clientIP = ip, ms_self = zeroEntry, ms_entries = [], ms_local = [],
     ms_remote = [], ms_peersMap = [], ms_remoteNonPeersMap = [], ms_info = None\<rparr>"

definition DefaultMetadataURL :: string where
  "DefaultMetadataURL = ''http://169.254.169.250/2015-12-19''"

definition metadataURL_or_default :: "string \<Rightarrow> string" where
  "metadataURL_or_default userURL = (if userURL \<noteq> [] then userURL else DefaultMetadataURL)"

text \<open>
  The constructors: the client library (its connection attempt, as a function of the URL and the
  client address) is an argument.
\<close>

definition NewMetadataStoreWithClientIP ::
  "(string \<Rightarrow> string \<Rightarrow> unit result) \<Rightarrow> string \<Rightarrow> string \<Rightarrow> MetadataStore result" where
  "NewMetadataStoreWithClientIP newClient userURL ip =
     (case newClient (metadataURL_or_default userURL) ip of
        Inl e \<Rightarrow> Inl e | Inr _ \<Rightarrow> Inr (newMetadataStore ip))"

definition NewMetadataStore :: "(string \<Rightarrow> unit result) \<Rightarrow> string \<Rightarrow> MetadataStore result" where
  "NewMetadataStore newClient userURL =
     (case newClient (metadataURL_or_default userURL) of
        Inl e \<Rightarrow> Inl e | Inr _ \<Rightarrow> Inr (newMetadataStore []))"

section \<open>Lookups\<close>

definition findSelfContainerByIP :: "container list \<Rightarrow> string \<Rightarrow> container result" where
  "findSelfContainerByIP cs ip =
     (case find (\<lambda>c. c_PrimaryIp c = ip) cs of
        Some c \<Rightarrow> Inr c
      | None \<Rightarrow> Inl (Errorf ''couldn't find self container with primary IP %s in metadata'' [ip]))"

definition findHostByUUID :: "host list \<Rightarrow> string \<Rightarrow> host result" where
  "findHostByUUID hs uuid =
     (case find (\<lambda>h. h_UUID h = uuid) hs of
        Some h \<Rightarrow> Inr h
      | None \<Rightarrow> Inl (Errorf ''couldn't find host %s in metadata'' [uuid]))"

definition findServiceForContainer :: "service list \<Rightarrow> container \<Rightarrow> service result" where
  "findServiceForContainer ss c =
     (case find (\<lambda>s. s_StackName s = c_StackName c \<and> s_Name s = c_ServiceName c) ss of
        Some s \<Rightarrow> Inr s
      | None \<Rightarrow> Inl (Errorf ''couldn't find service %s/%s in metadata'' [c_StackName c, c_ServiceName c]))"

definition getHostsMapFromHostsArray :: "host list \<Rightarrow> host gomap" where
  "getHostsMapFromHostsArray hs = foldl (\<lambda>m h. mput (h_UUID h) h m) [] hs"

definition getNetworksMapFromNetworksArray :: "network list \<Rightarrow> network gomap" where
  "getNetworksMapFromNetworksArray ns = foldl (\<lambda>m n. mput (n_UUID n) n m) [] ns"

text \<open>The services by \<^verbatim>\<open>stack/name\<close>, without the service itself and without non-system services.\<close>

definition service_key :: "service \<Rightarrow> string" where
  "service_key s = s_StackName s @ ''/'' @ s_Name s"

definition getServicesMapByName :: "service list \<Rightarrow> service \<Rightarrow> service list gomap" where
  "getServicesMapByName ss self =
     foldl (\<lambda>m s. if \<not> s_System s \<or> s_UUID s = s_UUID self then m
                  else mput (service_key s)
                         (case map_of m (service_key s) of Some v \<Rightarrow> v @ [s] | None \<Rightarrow> [s]) m) [] ss"

section \<open>Refresh\<close>

definition getEntryFromContainer :: "InfoFromMetadata \<Rightarrow> container \<Rightarrow> entry" where
  "getEntryFromContainer info c =
     \<lparr>IpAddress = c_PrimaryIp c @ ''/16'',
      HostIpAddress = h_AgentIP (mgetd zeroHost (info_hostsMap info) (c_HostUUID c)),
      Self = (c_PrimaryIp c = c_PrimaryIp (info_selfContainer info)),
      Peer = False\<rparr>"

definition getLinkedFromServicesToSelf :: "InfoFromMetadata \<Rightarrow> service list" where
  "getLinkedFromServicesToSelf info =
     (let linkedTo = service_key (info_selfService info)
      in concat (map (\<lambda>s. if \<not> s_System s then []
           else concat (map (\<lambda>(l, _). if l \<noteq> linkedTo then []
                  else mgetd [] (info_servicesMapByName info) (service_key s)) (s_Links s))) (info_services info)))"

text \<open>One peer container of a linked service: kept only if its network has the name of our network.\<close>

definition linked_container ::
  "InfoFromMetadata \<Rightarrow> bool gomap \<times> container list \<Rightarrow> container \<Rightarrow> bool gomap \<times> container list" where
  "linked_container info acc c =
     (if n_Name (mgetd zeroNetwork (info_networksMap info) (c_NetworkUUID c)) \<noteq> n_Name (info_selfNetwork info) then acc
      else ((if map_of (fst acc) (c_NetworkUUID c) = None then mput (c_NetworkUUID c) True (fst acc) else fst acc),
            snd acc @ [c]))"

definition linked_services ::
  "InfoFromMetadata \<Rightarrow> bool gomap \<times> container list \<Rightarrow> service list \<Rightarrow> bool gomap \<times> container list" where
  "linked_services info acc ss = foldl (\<lambda>a s. foldl (linked_container info) a (s_Containers s)) acc ss"

definition getLinkedPeersInfo :: "InfoFromMetadata \<Rightarrow> bool gomap \<times> container list" where
  "getLinkedPeersInfo info =
     (if s_Links (info_selfService info) \<noteq> [] then
        foldl (\<lambda>acc (name, _). case map_of (info_servicesMapByName info) name of
                 None \<Rightarrow> acc
               | Some ss \<Rightarrow> linked_services info acc ss) ([], []) (s_Links (info_selfService info))
      else linked_services info ([], []) (getLinkedFromServicesToSelf info))"

definition peer_entries :: "InfoFromMetadata \<Rightarrow> container list \<Rightarrow> entry gomap" where
  "peer_entries info cs =
     foldl (\<lambda>m c. let e = (getEntryFromContainer info c)\<lparr>Peer := True\<rparr> in mput (ipNoCidr e) e m) [] cs"

text \<open>A container is listed if its network is one of the peer networks and it owns its address.\<close>

definition overlay_container :: "bool gomap \<Rightarrow> container \<Rightarrow> bool" where
  "overlay_container nets c \<longleftrightarrow>
     map_of nets (c_NetworkUUID c) \<noteq> None \<and> c_PrimaryIp c \<noteq> [] \<and> c_NetworkFromContainerUUID c = []"

definition peer_networks :: "InfoFromMetadata \<Rightarrow> bool gomap" where
  "peer_networks info = mput (c_NetworkUUID (info_selfContainer info)) True (fst (getLinkedPeersInfo info))"

definition all_peer_entries :: "InfoFromMetadata \<Rightarrow> entry gomap" where
  "all_peer_entries info =
     peer_entries info (s_Containers (info_selfService info) @ snd (getLinkedPeersInfo info))"

definition entry_from :: "InfoFromMetadata \<Rightarrow> entry gomap \<Rightarrow> container \<Rightarrow> entry" where
  "entry_from info ps c =
     (let e = getEntryFromContainer info c
      in if map_of ps (ipNoCidr e) \<noteq> None then e\<lparr>Peer := True\<rparr> else e)"

type_synonym refresh_acc =
  "string list \<times> entry gomap \<times> entry gomap \<times> entry gomap \<times> entry list"

text \<open>
  The body of the loop over all containers: seen addresses, local, remote, remote non-peers,
  entries.
\<close>

definition refresh_step ::
  "InfoFromMetadata \<Rightarrow> string \<Rightarrow> bool gomap \<Rightarrow> entry gomap \<Rightarrow> refresh_acc \<Rightarrow> container \<Rightarrow> refresh_acc" where
  "refresh_step info host networks peersM acc c =
     (let (seen, loc, rem, nonpeers, es) = acc; e = entry_from info peersM c; ip = ipNoCidr e
      in if \<not> overlay_container networks c then acc
         else if ip \<in> set seen then acc
         else (ip # seen,
               (if HostIpAddress e = host then mput ip e loc else loc),
               (if HostIpAddress e = host then rem else mput ip e rem),
               (if HostIpAddress e \<noteq> host \<and> \<not> Peer e then mput ip e nonpeers else nonpeers),
               es @ [e]))"

definition doInternalRefresh :: "InfoFromMetadata \<Rightarrow> MetadataStore \<Rightarrow> MetadataStore" where
  "doInternalRefresh info ms =
     (let self = getEntryFromContainer info (info_selfContainer info);
          networks = peer_networks info;
          peersM = all_peer_entries info
      in case foldl (refresh_step info (HostIpAddress self) networks peersM) ([], [], [], [], [])
                (info_containers info) of
           (seen, loc, rem, nonpeers, es) \<Rightarrow>
             ms\<lparr>ms_self := self, ms_entries := es, ms_peersMap := peersM, ms_local := loc,
                ms_remote := rem, ms_remoteNonPeersMap := nonpeers\<rparr>)"

text \<open>
  Who we are: from the metadata service, or, when it does not know the caller, from the
  configured client address.
\<close>

definition resolve_self ::
  "metadata_client \<Rightarrow> string \<Rightarrow> host list \<Rightarrow> container list \<Rightarrow> service list \<Rightarrow>
   (container \<times> host \<times> service) result" where
  "resolve_self mc ip hs cs ss =
     (case GetSelfContainer mc of
        Inl err \<Rightarrow>
          if ip = [] then Inl err
          else (case findSelfContainerByIP cs ip of
             Inl e \<Rightarrow> Inl e
           | Inr c \<Rightarrow> (case findHostByUUID hs (c_HostUUID c) of
               Inl e \<Rightarrow> Inl e
             | Inr h \<Rightarrow> (case findServiceForContainer ss c of
                 Inl e \<Rightarrow> Inl e
               | Inr s \<Rightarrow> Inr (c, h, s))))
      | Inr c \<Rightarrow> (case GetSelfHost mc of
           Inl e \<Rightarrow> Inl e
         | Inr h \<Rightarrow> (case GetSelfService mc of
             Inl e \<Rightarrow> Inl e
           | Inr s \<Rightarrow> Inr (c, h, s))))"

definition gather_info :: "metadata_client \<Rightarrow> string \<Rightarrow> InfoFromMetadata result" where
  "gather_info mc ip =
     (case GetHosts mc of Inl e \<Rightarrow> Inl e | Inr hs \<Rightarrow>
      (case GetContainers mc of Inl e \<Rightarrow> Inl e | Inr cs \<Rightarrow>
      (case GetServices mc of Inl e \<Rightarrow> Inl e | Inr ss \<Rightarrow>
      (case resolve_self mc ip hs cs ss of Inl e \<Rightarrow> Inl e | Inr (c, h, s) \<Rightarrow>
      (case GetNetworks mc of Inl e \<Rightarrow> Inl e | Inr ns \<Rightarrow>
      (let nm = getNetworksMapFromNetworksArray ns
       in case map_of nm (c_NetworkUUID c) of
            None \<Rightarrow> Inl (Errorf ''couldn't find self network in metadata'' [])
          | Some sn \<Rightarrow>
              Inr \<lparr>info_selfContainer = c, info_selfHost = h, info_selfService = s, info_selfNetwork = sn, info_services = ss,
                   info_servicesMapByName = getServicesMapByName ss s, info_hosts = hs, info_containers = cs,
                   info_hostsMap = getHostsMapFromHostsArray hs, info_networksMap = nm\<rparr>))))))"

definition MetadataStore_Reload :: "metadata_client \<Rightarrow> MetadataStore \<Rightarrow> go_error option \<times> MetadataStore" where
  "MetadataStore_Reload mc ms =
     (case gather_info mc (clientIP ms) of
        Inl e \<Rightarrow> (Some e, ms)
      | Inr info \<Rightarrow> (None, doInternalRefresh info (ms\<lparr>ms_info := Some info\<rparr>)))"

section \<open>Reading\<close>

definition MS_LocalHostIpAddress :: "MetadataStore \<Rightarrow> string" where
  "MS_LocalHostIpAddress ms = HostIpAddress (ms_self ms)"

definition MS_LocalIpAddress :: "MetadataStore \<Rightarrow> string" where
  "MS_LocalIpAddress ms = (case parseCIDR (IpAddress (ms_self ms)) of None \<Rightarrow> [] | Some (ip, _) \<Rightarrow> ip_string ip)"

definition MS_IsRemote :: "MetadataStore \<Rightarrow> string \<Rightarrow> bool" where
  "MS_IsRemote ms ip = (if map_of (ms_local ms) ip \<noteq> None then False else map_of (ms_remote ms) ip \<noteq> None)"

definition MS_Entries :: "MetadataStore \<Rightarrow> entry list" where "MS_Entries ms = ms_entries ms"

definition MS_RemoteEntriesMap :: "MetadataStore \<Rightarrow> entry gomap" where
  "MS_RemoteEntriesMap ms = ms_remote ms"

definition MS_PeerEntriesMap :: "MetadataStore \<Rightarrow> entry gomap" where
  "MS_PeerEntriesMap ms = ms_peersMap ms"

definition MS_RemoteNonPeerEntriesMap :: "MetadataStore \<Rightarrow> entry gomap" where
  "MS_RemoteNonPeerEntriesMap ms = ms_remoteNonPeersMap ms"

section \<open>The metadata store keeps the interface\<close>

definition peers_ok :: "entry gomap \<Rightarrow> bool" where
  "peers_ok ps \<longleftrightarrow> gomap_ok ps \<and> (\<forall>ip e. map_of ps ip = Some e \<longrightarrow> Peer e \<and> ipNoCidr e = ip)"

definition ms_inv :: "MetadataStore \<Rightarrow> bool" where
  "ms_inv ms \<longleftrightarrow>
     classified (HostIpAddress (ms_self ms)) (ms_entries ms) (ms_local ms) (ms_remote ms)
       (ms_remoteNonPeersMap ms) \<and>
     distinct (map ipNoCidr (ms_entries ms)) \<and> peers_ok (ms_peersMap ms)"

definition refresh_ok :: "string \<Rightarrow> refresh_acc \<Rightarrow> bool" where
  "refresh_ok host acc \<longleftrightarrow>
     (case acc of (seen, loc, rem, nonpeers, es) \<Rightarrow>
        classified host es loc rem nonpeers \<and> distinct (map ipNoCidr es) \<and> set seen = ipNoCidr ` set es)"

lemma ipNoCidr_Peer [simp]: "ipNoCidr (e\<lparr>Peer := b\<rparr>) = ipNoCidr e"
  by (simp add: ipNoCidr_def)

lemma ipNoCidr_entry_from [simp]:
  "ipNoCidr (entry_from info ps c) = ipNoCidr (getEntryFromContainer info c)"
  by (simp add: entry_from_def Let_def)

lemma refresh_step_skip:
  "\<not> (overlay_container nets c \<and> ipNoCidr (entry_from info ps c) \<notin> set seen) \<Longrightarrow>
   refresh_step info host nets ps (seen, loc, rem, np, es) c = (seen, loc, rem, np, es)"
  by (auto simp: refresh_step_def Let_def)

lemma refresh_step_new:
  assumes "overlay_container nets c" "e = entry_from info ps c" "ipNoCidr e \<notin> set seen"
  shows "refresh_step info host nets ps (seen, loc, rem, np, es) c =
    (ipNoCidr e # seen, (if HostIpAddress e = host then mput (ipNoCidr e) e loc else loc),
     (if HostIpAddress e = host then rem else mput (ipNoCidr e) e rem),
     (if HostIpAddress e \<noteq> host \<and> \<not> Peer e then mput (ipNoCidr e) e np else np), es @ [e])"
  using assms by (simp add: refresh_step_def Let_def)

lemma refresh_step_ok: "refresh_ok host acc \<Longrightarrow> refresh_ok host (refresh_step info host nets ps acc c)"
proof -
  assume ok: "refresh_ok host acc"
  obtain seen loc rem np es where acc: "acc = (seen, loc, rem, np, es)" by (cases acc)
  let ?e = "entry_from info ps c"
  show ?thesis
  proof (cases "overlay_container nets c \<and> ipNoCidr ?e \<notin> set seen")
    case True
    then show ?thesis
      using ok classified_snoc[of host es loc rem np ?e]
      by (simp add: acc refresh_ok_def refresh_step_new[of nets c ?e] del: ipNoCidr_entry_from)
  next
    case False
    then show ?thesis using ok by (simp add: acc refresh_step_skip del: ipNoCidr_entry_from)
  qed
qed

lemma refresh_fold_ok:
  "refresh_ok host (foldl (refresh_step info host nets ps) ([], [], [], [], []) cs)"
  by (rule foldl_preserves) (simp add: refresh_ok_def, rule refresh_step_ok)

lemma peer_entries_ok: "peers_ok (peer_entries info cs)"
  unfolding peer_entries_def
  by (rule foldl_preserves) (auto simp: peers_ok_def Let_def)

lemma doInternalRefresh_inv: "ms_inv (doInternalRefresh info ms)"
  using refresh_fold_ok[of "HostIpAddress (getEntryFromContainer info (info_selfContainer info))" info
      "peer_networks info" "all_peer_entries info" "info_containers info"]
    peer_entries_ok
  by (auto simp: doInternalRefresh_def ms_inv_def refresh_ok_def all_peer_entries_def Let_def
      split: prod.splits)

lemma newMetadataStore_inv: "ms_inv (newMetadataStore ip)"
  by (simp add: newMetadataStore_def ms_inv_def peers_ok_def)

lemma MetadataStore_Reload_inv: "ms_inv ms \<Longrightarrow> ms_inv (snd (MetadataStore_Reload mc ms))"
  by (simp add: MetadataStore_Reload_def doInternalRefresh_inv split: sum.split)

interpretation mstore: overlay_store ms_inv MS_LocalHostIpAddress MS_IsRemote MS_Entries
  MS_RemoteEntriesMap MS_RemoteNonPeerEntriesMap MS_PeerEntriesMap
proof (unfold_locales, goal_cases)
  case (1 s)
  then show ?case
    by (simp add: ms_inv_def classified_def MS_RemoteEntriesMap_def MS_LocalHostIpAddress_def MS_Entries_def)
next
  case (2 s)
  then show ?case
    by (simp add: ms_inv_def classified_def MS_RemoteNonPeerEntriesMap_def MS_LocalHostIpAddress_def
        MS_Entries_def)
next
  case (3 s ip)
  then show ?case
    unfolding MS_IsRemote_def MS_LocalHostIpAddress_def MS_Entries_def ms_inv_def
    by (subst classified_is_remote[symmetric]) auto
next
  case (4 s ip e)
  then show ?case by (simp add: ms_inv_def peers_ok_def MS_PeerEntriesMap_def)
next
  case (5 s)
  then show ?case
    by (simp add: ms_inv_def peers_ok_def classified_def MS_RemoteEntriesMap_def
        MS_RemoteNonPeerEntriesMap_def MS_PeerEntriesMap_def)
qed

section \<open>Where the entries come from\<close>

text \<open>What the loop over all containers computes: the first container of every address.\<close>

fun first_by_ip :: "InfoFromMetadata \<Rightarrow> entry gomap \<Rightarrow> string set \<Rightarrow> container list \<Rightarrow> entry list" where
  "first_by_ip info ps seen [] = []"
| "first_by_ip info ps seen (c # cs) =
     (let e = entry_from info ps c
      in if ipNoCidr e \<in> seen then first_by_ip info ps seen cs
         else e # first_by_ip info ps (insert (ipNoCidr e) seen) cs)"

lemma refresh_entries:
  "(\<lambda>(seen, loc, rem, np, es). es)
     (foldl (refresh_step info host nets ps) (seen, loc, rem, np, es0) cs) =
   es0 @ first_by_ip info ps (set seen) (filter (overlay_container nets) cs)"
proof (induction cs arbitrary: seen loc rem np es0)
  case (Cons c cs)
  show ?case
  proof (cases "overlay_container nets c \<and> ipNoCidr (entry_from info ps c) \<notin> set seen")
    case True
    then show ?thesis using Cons.IH by (simp add: refresh_step_new Let_def del: ipNoCidr_entry_from)
  next
    case False
    then show ?thesis
      using Cons.IH by (auto simp: refresh_step_skip Let_def simp del: ipNoCidr_entry_from)
  qed
qed simp

lemma ms_entries_doInternalRefresh:
  "ms_entries (doInternalRefresh info ms) =
   first_by_ip info (all_peer_entries info) {}
     (filter (overlay_container (peer_networks info)) (info_containers info))"
  using refresh_entries[of info "HostIpAddress (getEntryFromContainer info (info_selfContainer info))"
      "peer_networks info" "all_peer_entries info" "[]" "[]" "[]" "[]" "[]" "info_containers info"]
  by (auto simp: doInternalRefresh_def Let_def split: prod.splits)

lemma first_by_ip_cover:
  "ipNoCidr ` set (first_by_ip info ps seen cs) = (\<lambda>c. ipNoCidr (getEntryFromContainer info c)) ` set cs - seen"
  by (induction info ps seen cs rule: first_by_ip.induct) (auto simp: Let_def)

lemma first_by_ip_from: "e \<in> set (first_by_ip info ps seen cs) \<Longrightarrow> \<exists>c \<in> set cs. e = entry_from info ps c"
  by (induction info ps seen cs rule: first_by_ip.induct) (auto simp: Let_def split: if_splits)

section \<open>Properties of the metadata store\<close>

text \<open>The store after a sequence of reloads, each with the answers it got from the service.\<close>

definition metadata_after :: "string \<Rightarrow> metadata_client list \<Rightarrow> MetadataStore" where
  "metadata_after ip mcs = foldl (\<lambda>s mc. snd (MetadataStore_Reload mc s)) (newMetadataStore ip) mcs"

lemma metadata_after_inv: "ms_inv (metadata_after ip mcs)"
  unfolding metadata_after_def
  by (rule foldl_preserves) (rule newMetadataStore_inv, rule MetadataStore_Reload_inv)

lemma ms_inv_remote:
  assumes inv: "ms_inv s"
  shows "{a. MS_IsRemote s a} = ipNoCidr ` {e \<in> set (MS_Entries s). HostIpAddress e \<noteq> MS_LocalHostIpAddress s} \<and>
    distinct (map ipNoCidr (MS_Entries s))"
proof -
  have d: "distinct (map ipNoCidr (MS_Entries s))" using inv by (simp add: ms_inv_def MS_Entries_def)
  have u: "e = e'" if "e \<in> set (MS_Entries s)" "e' \<in> set (MS_Entries s)" "ipNoCidr e = ipNoCidr e'" for e e'
    using d that by (auto simp: distinct_map inj_on_def)
  show ?thesis using d by (auto simp: mstore.is_remote_law[OF inv] dest: u)
qed

text \<open>
  C11. Whatever reloads the metadata store went through, the addresses it calls remote are exactly
  those of its entries on other hosts (no address has two entries), its remote map holds exactly
  these, and its non-peer map exactly those of them that are not peers.
\<close>

theorem metadata_store_remote:
  fixes ip mcs
  defines "s \<equiv> metadata_after ip mcs"
  defines "remotes \<equiv> {e \<in> set (MS_Entries s). HostIpAddress e \<noteq> MS_LocalHostIpAddress s}"
  shows "{a. MS_IsRemote s a} = ipNoCidr ` remotes \<and>
    distinct (map ipNoCidr (MS_Entries s)) \<and>
    dom (map_of (MS_RemoteEntriesMap s)) = ipNoCidr ` remotes \<and>
    dom (map_of (MS_RemoteNonPeerEntriesMap s)) = ipNoCidr ` {e \<in> remotes. \<not> Peer e}"
proof -
  have inv: "ms_inv s" by (simp add: s_def metadata_after_inv)
  show ?thesis
    using ms_inv_remote[OF inv] unfolding remotes_def mstore.remote_law[OF inv] mstore.nonpeer_law[OF inv] dom_last_by_ip
    by auto
qed

lemma reloaded_entries:
  assumes "MetadataStore_Reload mc ms = (None, ms')"
  shows "\<exists>info. ms_info ms' = Some info \<and>
    distinct (map ipNoCidr (MS_Entries ms')) \<and>
    ipNoCidr ` set (MS_Entries ms') =
      (\<lambda>c. split_head CHR ''/'' (c_PrimaryIp c)) `
        {c \<in> set (info_containers info). overlay_container (peer_networks info) c} \<and>
    (\<forall>e \<in> set (MS_Entries ms'). \<exists>c \<in> set (info_containers info).
       IpAddress e = c_PrimaryIp c @ ''/16'' \<and>
       HostIpAddress e = h_AgentIP (mgetd zeroHost (info_hostsMap info) (c_HostUUID c)) \<and>
       (Peer e \<longleftrightarrow> ipNoCidr e \<in> dom (map_of (MS_PeerEntriesMap ms'))))"
proof -
  obtain info where i: "ms' = doInternalRefresh info (ms\<lparr>ms_info := Some info\<rparr>)"
    using assms by (auto simp: MetadataStore_Reload_def split: sum.splits)
  let ?cs = "filter (overlay_container (peer_networks info)) (info_containers info)"
  have es: "MS_Entries ms' = first_by_ip info (all_peer_entries info) {} ?cs"
    by (simp add: MS_Entries_def i ms_entries_doInternalRefresh)
  have f: "ms_info ms' = Some info" "MS_PeerEntriesMap ms' = all_peer_entries info"
    by (auto simp: i doInternalRefresh_def MS_PeerEntriesMap_def Let_def split: prod.split)
  have key: "ipNoCidr (getEntryFromContainer info c) = split_head CHR ''/'' (c_PrimaryIp c)" for c
    by (cases "CHR ''/'' \<in> set (c_PrimaryIp c)")
      (simp_all add: ipNoCidr_def getEntryFromContainer_def split_head_eq takeWhile_append1)
  have "ms_inv ms'" by (simp add: i doInternalRefresh_inv)
  then have d: "distinct (map ipNoCidr (MS_Entries ms'))" by (simp add: ms_inv_def MS_Entries_def)
  have "\<exists>c \<in> set (info_containers info). IpAddress e = c_PrimaryIp c @ ''/16'' \<and>
       HostIpAddress e = h_AgentIP (mgetd zeroHost (info_hostsMap info) (c_HostUUID c)) \<and>
       (Peer e \<longleftrightarrow> ipNoCidr e \<in> dom (map_of (MS_PeerEntriesMap ms')))" if "e \<in> set (MS_Entries ms')" for e
  proof -
    obtain c where c: "c \<in> set ?cs" "e = entry_from info (all_peer_entries info) c"
      using \<open>e \<in> set (MS_Entries ms')\<close> first_by_ip_from unfolding es by blast
    then show ?thesis
      by (intro bexI[of _ c]) (auto simp: entry_from_def getEntryFromContainer_def ipNoCidr_def Let_def f(2))
  qed
  then show ?thesis
    using f(1) d first_by_ip_cover[of info "all_peer_entries info" "{}" ?cs]
    by (intro exI[of _ info]) (simp add: es key)
qed


text \<open>Two hosts, a service with one container on each, and a workload container on the second.\<close>

definition example_container :: "string \<Rightarrow> string \<Rightarrow> container" where
  "example_container ip h = \<lparr>c_PrimaryIp = ip, c_ServiceName = ''ipsec'', c_StackName = ''net'', c_HostUUID = h,
     c_UUID = ip, c_NetworkFromContainerUUID = [], c_NetworkUUID = ''n1''\<rparr>"

definition example_service :: service where
  "example_service = \<lparr>s_Name = ''ipsec'', s_StackName = ''net'', s_UUID = ''s1'',
     s_Containers = [example_container ''10.42.0.1'' ''h1'', example_container ''10.42.0.2'' ''h2''],
     s_Links = [], s_System = True\<rparr>"

definition example_client :: metadata_client where
  "example_client =
     \<lparr>GetSelfContainer = Inr (example_container ''10.42.0.1'' ''h1''),
      GetHosts = Inr [\<lparr>h_AgentIP = ''192.0.2.10'', h_UUID = ''h1''\<rparr>, \<lparr>h_AgentIP = ''192.0.2.20'', h_UUID = ''h2''\<rparr>],
      GetContainers = Inr (s_Containers example_service @ [example_container ''10.42.0.3'' ''h2'']),
      GetServices = Inr [example_service], GetSelfHost = Inr \<lparr>h_AgentIP = ''192.0.2.10'', h_UUID = ''h1''\<rparr>,
      GetSelfService = Inr example_service, GetNetworks = Inr [\<lparr>n_Name = ''ipsec'', n_UUID = ''n1''\<rparr>]\<rparr>"


end
