(* ===== verification/Ipsec_Types.thy ===== *)
theory Ipsec_Types
  imports Store
begin

text \<open>
  The data of the IPsec backend: the strongSwan configuration and security-association records of
  the VICI library, the kernel's XFRM policies, the \<^verbatim>\<open>Overlay\<close> object of
  \<^verbatim>\<open>backend/ipsec/ipsec.go\<close>, and the environment (kernel, charon, processes, files) that the
  backend acts on. The environment is an argument of every operation: a record of functions on a
  world of arbitrary type.
\<close>

section \<open>strongSwan configuration\<close>

text \<open>
  A slice that is printed even when it is empty is an option, where \<open>None\<close> is Go's nil: the printed
  forms of nil and of an empty slice differ.
\<close>

record AuthConf =
  a_ID :: string
  a_Round :: string
  a_AuthMethod :: string
  a_EAP_ID :: string
  a_PubKeys :: "string list"

record ChildSAConf =
  ch_Local_ts :: "string list option"
  ch_Remote_ts :: "string list option"
  ch_ESPProposals :: "string list"
  ch_StartAction :: string
  ch_CloseAction :: string
  ch_ReqID :: string
  ch_RekeyTime :: string
  ch_ReplayWindow :: string
  ch_Mode :: string
  ch_InstallPolicy :: string
  ch_UpDown :: string
  ch_Priority :: string
  ch_MarkIn :: string
  ch_MarkOut :: string
  ch_DpdAction :: string
  ch_LifeTime :: string

record IKEConnectionConfig =
  k_LocalAddrs :: "string list option"
  k_RemoteAddrs :: "string list"
  k_LocalPort :: string
  k_RemotePort :: string
  k_Proposals :: "string list"
  k_Vips :: "string list"
  k_Version :: string
  k_Encap :: string
  k_KeyingTries :: string
  k_RekeyTime :: string
  k_DPDDelay :: string
  k_LocalAuth :: AuthConf
  k_RemoteAuth :: AuthConf
  k_Pools :: "string list"
  k_Children :: "ChildSAConf gomap"
  k_Mobike :: string
  k_Unique :: string

text \<open>
  The identity that a loaded connection is remembered by. The source keeps its JSON text as the
  fingerprint of the connection.
\<close>

record connectionIdentity =
  TemplateRevision :: string
  LocalAgentIP :: string
  LocalTunnelIP :: string
  HostTunnelSource :: bool
  Connection :: IKEConnectionConfig

section \<open>Security associations\<close>

text \<open>The fields of the VICI \<^verbatim>\<open>list-sa\<close> event that the program reads.\<close>

record Child_sas =
  cs_Reqid :: string
  cs_State :: string
  cs_Bytes_in :: string
  cs_Bytes_out :: string

record IkeSa =
  sa_Uniqueid :: string
  sa_State :: string
  sa_Local_host :: string
  sa_Local_id :: string
  sa_Remote_host :: string
  sa_Remote_id :: string
  sa_Established :: string
  sa_Child_sas :: "Child_sas gomap"
  sa_Tasks_active :: "string list"
  sa_Tasks_queued :: "string list"

type_synonym sa_list = "IkeSa gomap list"

section \<open>XFRM policies\<close>

type_synonym dir = "8 word"

abbreviation (input) XFRM_DIR_IN :: dir where "XFRM_DIR_IN \<equiv> 0"
abbreviation (input) XFRM_DIR_OUT :: dir where "XFRM_DIR_OUT \<equiv> 1"
abbreviation (input) XFRM_DIR_FWD :: dir where "XFRM_DIR_FWD \<equiv> 2"
abbreviation (input) XFRM_PROTO_ESP :: "8 word" where "XFRM_PROTO_ESP \<equiv> 50"
abbreviation (input) XFRM_MODE_TUNNEL :: "8 word" where "XFRM_MODE_TUNNEL \<equiv> 1"

record XfrmPolicyTmpl =
  t_Dst :: go_ip
  t_Src :: go_ip
  t_Proto :: "8 word"
  t_Mode :: "8 word"
  t_Spi :: int
  t_Reqid :: int
  t_Optional :: int

record XfrmPolicy =
  p_Dst :: "ipnet option"
  p_Src :: "ipnet option"
  p_Proto :: "8 word"
  p_DstPort :: int
  p_SrcPort :: int
  p_Dir :: dir
  p_Priority :: int
  p_Index :: int
  p_Action :: "8 word"
  p_Ifindex :: int
  p_Ifid :: int
  p_Mark :: "(32 word \<times> 32 word) option"
  p_Tmpls :: "XfrmPolicyTmpl list"

text \<open>A route as the kernel reports it: protocol, destination, output link.\<close>

record Route =
  r_Protocol :: int
  r_Dst :: "ipnet option"
  r_LinkIndex :: int

section \<open>The environment\<close>

text \<open>
  What the backend calls outside the program: charon's VICI socket, netlink, external commands,
  files and signals. Each operation takes the world and returns its result with the new world. A
  VICI request and its response are messages: maps to untyped values. A command returns its
  output and its error.
\<close>

record 'w ipsec_env =
  env_Dial :: "'w \<Rightarrow> go_error option \<times> 'w"
  env_Close :: "'w \<Rightarrow> 'w"
  env_Request :: "string \<Rightarrow> gval gomap \<Rightarrow> 'w \<Rightarrow> gval gomap result \<times> 'w"
  env_ListSas :: "'w \<Rightarrow> sa_list result \<times> 'w"
  env_ListConns :: "'w \<Rightarrow> IKEConnectionConfig gomap list result \<times> 'w"
  env_NewHandle :: "'w \<Rightarrow> go_error option \<times> 'w"
  env_GetNetns :: "string \<Rightarrow> 'w \<Rightarrow> go_error option \<times> 'w"
  env_NewHandleAt :: "string \<Rightarrow> 'w \<Rightarrow> go_error option \<times> 'w"
  env_PolicyList :: "'w \<Rightarrow> XfrmPolicy list result \<times> 'w"
  env_PolicyDel :: "XfrmPolicy \<Rightarrow> 'w \<Rightarrow> go_error option \<times> 'w"
  env_PolicyAdd :: "XfrmPolicy \<Rightarrow> 'w \<Rightarrow> go_error option \<times> 'w"
  env_RouteGet :: "go_ip \<Rightarrow> 'w \<Rightarrow> Route list result \<times> 'w"
  env_LinkByIndex :: "int \<Rightarrow> 'w \<Rightarrow> string result \<times> 'w"
  env_RouteList :: "'w \<Rightarrow> Route list result \<times> 'w"
  env_Exec :: "string \<Rightarrow> string list \<Rightarrow> 'w \<Rightarrow> (string \<times> go_error option) \<times> 'w"
  env_ReadFile :: "string \<Rightarrow> 'w \<Rightarrow> string result \<times> 'w"
  env_Kill :: "int \<Rightarrow> 'w \<Rightarrow> go_error option \<times> 'w"

section \<open>The overlay object\<close>

record Templates =
  tm_ConfigDir :: string
  tm_ikeConf :: string
  tm_childSaConf :: string
  tm_revision :: string

record Overlay =
  o_keyAttempt :: "bool gomap"
  o_hostAttempt :: "bool gomap"
  o_initiating :: "bool gomap"
  o_keys :: "string gomap"
  o_hosts :: "string gomap"
  o_staleLocal :: "string gomap gomap"
  o_templates :: Templates
  o_psk :: string
  o_netlinkHandle :: bool
  o_Blacklist :: "string list"
  o_NetnsPath :: string
  o_UseHostTunnelSource :: bool
  o_SyncHostRoutes :: bool

text \<open>What the backend reads from its store: the operations of \<^verbatim>\<open>store.Store\<close> on a loaded store.\<close>

record store_view =
  v_LocalHostIp :: string
  v_LocalIp :: string
  v_Entries :: "entry list"
  v_PeerEntries :: "entry gomap"

definition NewOverlay :: "string \<Rightarrow> Overlay" where
  "NewOverlay configDir =
     \<lparr>o_keyAttempt = [], o_hostAttempt = [], o_initiating = [], o_keys = [], o_hosts = [],
      o_staleLocal = [],
      o_templates = \<lparr>tm_ConfigDir = configDir, tm_ikeConf = [], tm_childSaConf = [], tm_revision = []\<rparr>,
      o_psk = [], o_netlinkHandle = False, o_Blacklist = [], o_NetnsPath = [],
      o_UseHostTunnelSource = False, o_SyncHostRoutes = False\<rparr>"

definition localTunnelAddress :: "Overlay \<Rightarrow> store_view \<Rightarrow> string" where
  "localTunnelAddress ov db = (if o_UseHostTunnelSource ov then v_LocalHostIp db else v_LocalIp db)"

definition reqId :: int where "reqId = 1234"

definition reqIdStr :: string where "reqIdStr = ''1234''"

text \<open>Three connection attempts to charon, one second apart; the last error is returned.\<close>

fun getClient_loop :: "'w ipsec_env \<Rightarrow> nat \<Rightarrow> go_error \<Rightarrow> 'w \<Rightarrow> go_error option \<times> 'w" where
  "getClient_loop env 0 err w = (Some err, w)"
| "getClient_loop env (Suc n) err w =
     (case env_Dial env w of
        (None, w') \<Rightarrow> (None, w')
      | (Some e, w') \<Rightarrow> getClient_loop env n e w')"

definition getClient :: "'w ipsec_env \<Rightarrow> 'w \<Rightarrow> go_error option \<times> 'w" where
  "getClient env w = getClient_loop env 3 (EnvError ''unreachable'') w"

end
