(* ===== verification/Ipsec_SA.thy ===== *)
theory Ipsec_SA
  imports Ipsec_Types
begin

text \<open>
  The pure decisions of the IPsec backend about security associations
  (\<^verbatim>\<open>backend/ipsec/ipsec.go\<close> and \<^verbatim>\<open>connection.go\<close>): which CHILD_SA belongs to which peer, which
  peer identities are stale, and which IKE_SAs may be terminated.
\<close>

section \<open>Names of CHILD_SAs\<close>

definition clean_cutset :: string where
  "clean_cutset = [CHR '' '', CHR 0x09, CHR 0x0D, CHR 0x0A, CHR 0x27, CHR 0x22]"

definition cleanIP :: "string \<Rightarrow> string" where
  "cleanIP value =
     (let v = split_head CHR ''/'' (trim_set clean_cutset value); ip = parseIP v
      in if ip = [] then [] else ip_string ip)"

definition childHostIP :: "string \<Rightarrow> string" where
  "childHostIP childName =
     (if \<not> hasPrefix childName ''child-'' then []
      else let value = trimPrefix childName ''child-''; hostIP = cleanIP value
      in if hostIP \<noteq> [] then hostIP
         else (case split_last CHR ''-'' value of
            None \<Rightarrow> []
          | Some (before, after) \<Rightarrow>
              if before = [] then []
              else if parseUint 64 after = None then [] else cleanIP before))"

definition canonicalChildName :: "string \<Rightarrow> string" where
  "canonicalChildName childName =
     (let hostIP = childHostIP childName in if hostIP = [] then [] else ''child-'' @ hostIP)"

section \<open>Peer identities\<close>

text \<open>The identities a peer may present: its host address and the overlay addresses of its peers.\<close>

definition identity_step :: "string \<Rightarrow> bool gomap gomap \<Rightarrow> string \<times> entry \<Rightarrow> bool gomap gomap" where
  "identity_step localHostIP expected ke =
     (let e = snd ke; hostIP = cleanIP (HostIpAddress e)
      in if hostIP = [] \<or> hostIP = localHostIP then expected
         else let ids = mput hostIP True (mgetd [] expected hostIP);
                  overlayIP = cleanIP (IpAddress e);
                  ids' = (if overlayIP \<noteq> [] then mput overlayIP True ids else ids)
         in mput hostIP ids' expected)"

definition expectedPeerIdentitiesByHost :: "store_view \<Rightarrow> bool gomap gomap" where
  "expectedPeerIdentitiesByHost db =
     foldl (identity_step (cleanIP (v_LocalHostIp db))) [] (v_PeerEntries db)"

definition stalePeerIdentity :: "string \<Rightarrow> string \<Rightarrow> bool gomap gomap \<Rightarrow> string \<times> bool" where
  "stalePeerIdentity childName remoteID expected =
     (let hostIP = childHostIP childName; remoteIP = cleanIP remoteID
      in if hostIP = [] \<or> remoteIP = [] then ([], False)
         else case map_of expected hostIP of
           None \<Rightarrow> ([], False)
         | Some identities \<Rightarrow> (hostIP, \<not> mtest identities remoteIP))"

section \<open>Redundant associations\<close>

definition GetBytesIn :: "Child_sas \<Rightarrow> 64 word" where
  "GetBytesIn c = (case parseUint 64 (cs_Bytes_in c) of None \<Rightarrow> 0 | Some n \<Rightarrow> word_of_nat n)"

definition GetBytesOut :: "Child_sas \<Rightarrow> 64 word" where
  "GetBytesOut c = (case parseUint 64 (cs_Bytes_out c) of None \<Rightarrow> 0 | Some n \<Rightarrow> word_of_nat n)"

definition duplicateSAQuietPeriod :: nat where "duplicateSAQuietPeriod = 120"

text \<open>An unsigned identifier that charon can have assigned: a non-zero 32-bit number.\<close>

definition valid_id :: "string \<Rightarrow> bool" where
  "valid_id s = (case parseUint 32 s of None \<Rightarrow> False | Some n \<Rightarrow> n \<noteq> 0)"

definition managed_child :: "IkeSa \<Rightarrow> string \<Rightarrow> Child_sas \<Rightarrow> bool" where
  "managed_child sa childName child \<longleftrightarrow>
     cs_State child = ''INSTALLED'' \<and>
     canonicalChildName childName = ''child-'' @ sa_Remote_host sa \<and> cs_Reqid child = reqIdStr"

definition sa_traffic :: "IkeSa \<Rightarrow> bool \<times> 64 word" where
  "sa_traffic sa =
     foldl (\<lambda>(installed, traffic) (childName, child).
              if \<not> managed_child sa childName child then (installed, traffic)
              else (True, traffic + (GetBytesIn child + GetBytesOut child)))
       (False, 0) (sa_Child_sas sa)"

definition idle_guard :: "bool gomap \<Rightarrow> string \<Rightarrow> IkeSa \<Rightarrow> bool" where
  "idle_guard expectedHosts name sa \<longleftrightarrow>
     mtest expectedHosts (sa_Remote_host sa) \<and> name = ''conn-'' @ sa_Remote_host sa \<and>
     sa_State sa = ''ESTABLISHED'' \<and> sa_Tasks_active sa = [] \<and> sa_Tasks_queued sa = [] \<and>
     sa_Local_id sa \<noteq> [] \<and> sa_Remote_id sa \<noteq> [] \<and>
     (case parseUint 64 (sa_Established sa) of None \<Rightarrow> False | Some age \<Rightarrow> duplicateSAQuietPeriod \<le> age) \<and>
     valid_id (sa_Uniqueid sa)"

definition peer_key :: "IkeSa \<Rightarrow> string" where
  "peer_key sa = sa_Remote_host sa @ [CHR 0x00] @ sa_Local_id sa @ [CHR 0x00] @ sa_Remote_id sa"

type_synonym candidate = "string \<times> 64 word"

definition idle_step ::
  "bool gomap \<Rightarrow> candidate list gomap \<Rightarrow> string \<times> IkeSa \<Rightarrow> candidate list gomap" where
  "idle_step expectedHosts byPeer ns =
     (let (name, sa) = ns; (installed, traffic) = sa_traffic sa
      in if \<not> idle_guard expectedHosts name sa \<or> \<not> installed then byPeer
         else mput (peer_key sa) (mgetd [] byPeer (peer_key sa) @ [(sa_Uniqueid sa, traffic)]) byPeer)"

definition idle_groups :: "sa_list \<Rightarrow> bool gomap \<Rightarrow> candidate list gomap" where
  "idle_groups sas expectedHosts = foldl (idle_step expectedHosts) [] (concat sas)"

text \<open>Of a pair with exactly one used tunnel, the unused one; every other group is left alone.\<close>

definition idle_of_group :: "candidate list \<Rightarrow> string list" where
  "idle_of_group g =
     (case g of
        [a, b] \<Rightarrow>
          if snd a = 0 \<and> 0 < snd b then [fst a]
          else if snd b = 0 \<and> 0 < snd a then [fst b] else []
      | _ \<Rightarrow> [])"

definition idleDuplicateIKEIDs :: "map_order \<Rightarrow> sa_list \<Rightarrow> bool gomap \<Rightarrow> string list" where
  "idleDuplicateIKEIDs ro sas expectedHosts =
     sort (concat (map (\<lambda>(k, g). idle_of_group g) (go_range ro 0 (idle_groups sas expectedHosts))))"

definition healthy_sa :: "bool gomap \<Rightarrow> string \<Rightarrow> IkeSa \<Rightarrow> bool" where
  "healthy_sa expectedHosts name sa \<longleftrightarrow>
     mtest expectedHosts (sa_Remote_host sa) \<and> name = ''conn-'' @ sa_Remote_host sa \<and>
     sa_State sa = ''ESTABLISHED'' \<and>
     list_ex (\<lambda>(childName, child). cs_State child = ''INSTALLED'' \<and>
        canonicalChildName childName = ''child-'' @ sa_Remote_host sa) (sa_Child_sas sa)"

definition healthy_hosts :: "sa_list \<Rightarrow> bool gomap \<Rightarrow> bool gomap" where
  "healthy_hosts sas expectedHosts =
     foldl (\<lambda>h (name, sa). if healthy_sa expectedHosts name sa then mput (sa_Remote_host sa) True h else h)
       [] (concat sas)"

definition deletingDuplicateIKEIDs :: "sa_list \<Rightarrow> bool gomap \<Rightarrow> string list" where
  "deletingDuplicateIKEIDs sas expectedHosts =
     (let healthy = healthy_hosts sas expectedHosts
      in map (\<lambda>(name, sa). sa_Uniqueid sa)
           (filter (\<lambda>(name, sa). mtest healthy (sa_Remote_host sa) \<and>
               name = ''conn-'' @ sa_Remote_host sa \<and> sa_State sa = ''DELETING'' \<and>
               valid_id (sa_Uniqueid sa)) (concat sas)))"

definition installed_step :: "bool gomap \<Rightarrow> string \<times> Child_sas \<Rightarrow> bool gomap" where
  "installed_step m nc =
     (if cs_State (snd nc) = ''INSTALLED'' then
        (let canonical = canonicalChildName (fst nc)
         in mput (if canonical = [] then fst nc else canonical) True m)
      else m)"

text \<open>The canonical names of the installed CHILD_SAs, from the list of all associations.\<close>

definition installed_of :: "sa_list \<Rightarrow> bool gomap" where
  "installed_of sas = foldl (\<lambda>m (_, sa). foldl installed_step m (sa_Child_sas sa)) [] (concat sas)"

section \<open>Associations of a previous local address\<close>

definition owned_child :: "IkeSa \<Rightarrow> string \<Rightarrow> Child_sas \<Rightarrow> bool" where
  "owned_child sa childName child \<longleftrightarrow>
     (let prefix = ''child-'' @ sa_Remote_host sa
      in (if hasPrefix childName (prefix @ ''-'')
          then (case parseUint 64 (trimPrefix childName (prefix @ ''-'')) of None \<Rightarrow> False | Some n \<Rightarrow> 0 < n)
          else childName = prefix)) \<and>
     cs_Reqid child = reqIdStr"

definition id_count :: "sa_list \<Rightarrow> string \<Rightarrow> nat" where
  "id_count sas uid = length (filter (\<lambda>(_, sa). sa_Uniqueid sa = uid) (concat sas))"

definition stale_local_sa ::
  "sa_list \<Rightarrow> string \<Rightarrow> bool gomap \<Rightarrow> string gomap gomap \<Rightarrow> string \<Rightarrow> IkeSa \<Rightarrow> bool" where
  "stale_local_sa sas currentLocalIP expectedHosts staleLocal name sa =
     (case map_of (mgetd [] staleLocal (sa_Remote_host sa)) (sa_Local_host sa) of
        None \<Rightarrow> False
      | Some identity \<Rightarrow>
          mtest expectedHosts (sa_Remote_host sa) \<and> name = ''conn-'' @ sa_Remote_host sa \<and>
          sa_Local_host sa \<noteq> currentLocalIP \<and> id_count sas (sa_Uniqueid sa) = 1 \<and>
          (sa_State sa = ''CONNECTING'' \<or> sa_State sa = ''ESTABLISHED'' \<or> sa_State sa = ''REKEYING'') \<and>
          (sa_Local_id sa = identity \<or> sa_State sa = ''CONNECTING'' \<and> sa_Local_id sa = []) \<and>
          valid_id (sa_Uniqueid sa) \<and>
          list_all (\<lambda>(childName, child). owned_child sa childName child) (sa_Child_sas sa))"

definition staleLocalIKEIDs ::
  "sa_list \<Rightarrow> string \<Rightarrow> bool gomap \<Rightarrow> string gomap gomap \<Rightarrow> string list" where
  "staleLocalIKEIDs sas currentLocalIP expectedHosts staleLocal =
     (if parseIP currentLocalIP = [] then []
      else sort (map (\<lambda>(name, sa). sa_Uniqueid sa)
             (filter (\<lambda>(name, sa). stale_local_sa sas currentLocalIP expectedHosts staleLocal name sa)
               (concat sas))))"

section \<open>Lemmas\<close>

subsection \<open>Names\<close>

lemma digit_not_clean: "isDigit c \<Longrightarrow> c \<notin> set clean_cutset"
  by (auto simp: isDigit_def clean_cutset_def)

lemma trim_clean_id:
  "isDigit (hd s) \<Longrightarrow> isDigit (last s) \<Longrightarrow> trim_set clean_cutset s = s"
  by (rule trim_set_id) (simp add: digit_not_clean)

lemma show_ipv4_ends:
  assumes "length b = 4"
  shows "show_ipv4 b \<noteq> [] \<and> isDigit (hd (show_ipv4 b)) \<and> isDigit (last (show_ipv4 b))"
proof -
  obtain x y z v where b: "b = [x, y, z, v]"
    using assms by (auto simp: numeral_eq_Suc length_Suc_conv)
  have "isDigit (hd (itoa n)) \<and> isDigit (last (itoa n))" for n
    using itoa_digits[of n] itoa_not_Nil[of n] by (metis hd_in_set last_in_set list_all_iff)
  then show ?thesis by (simp add: b show_ipv4_def hd_append)
qed

lemma cleanIP_show [simp]: "length b = 4 \<Longrightarrow> cleanIP (show_ipv4 b) = show_ipv4 b"
  using show_ipv4_ends[of b] by (auto simp: cleanIP_def trim_clean_id)

lemma cleanIP_show_suffix: "length b = 4 \<Longrightarrow> cleanIP (show_ipv4 b @ CHR ''-'' # itoa n) = []"
proof -
  assume b: "length b = 4"
  have "trim_set clean_cutset (show_ipv4 b @ CHR ''-'' # itoa n) = show_ipv4 b @ CHR ''-'' # itoa n"
    using show_ipv4_ends[OF b] itoa_digits[of n] itoa_not_Nil[of n]
    by (intro trim_clean_id) (auto simp: hd_append list_all_iff)
  then show ?thesis
    using b by (simp add: cleanIP_def parseIP_show_hyphen)
qed

lemma childHostIP_plain: "length b = 4 \<Longrightarrow> childHostIP (''child-'' @ show_ipv4 b) = show_ipv4 b"
  using show_ipv4_ends[of b] by (simp add: childHostIP_def Let_def del: append_Cons)

lemma childHostIP_suffix:
  "length b = 4 \<Longrightarrow> n < 2 ^ 64 \<Longrightarrow>
   childHostIP (''child-'' @ show_ipv4 b @ ''-'' @ itoa n) = show_ipv4 b"
  unfolding append.append_Cons[of "CHR ''-''" "[]"] append.append_Nil
  using show_ipv4_ends[of b] cleanIP_show_suffix[of b n]
  by (simp add: childHostIP_def Let_def split_last_append del: append_Cons)

text \<open>
  Health reconciliation compares configured CHILD_SA names: for every IPv4 peer, the name
  under which the connection was configured and every run-time name that charon derives from it by
  appending a 64-bit unique identifier have the same canonical form, the configured name.
\<close>

theorem canonicalChildName_runtime:
  fixes a b c d :: byte and n :: "64 word"
  defines "conf \<equiv> ''child-'' @ show_ipv4 [a, b, c, d]"
  shows "canonicalChildName conf = conf \<and> canonicalChildName (conf @ ''-'' @ itoa (unat n)) = conf"
  using show_ipv4_ends[of "[a, b, c, d]"] childHostIP_plain[of "[a, b, c, d]"]
    childHostIP_suffix[of "[a, b, c, d]" "unat n"] unat_u64[of n]
  by (simp add: canonicalChildName_def conf_def Let_def del: append_Cons)

subsection \<open>Idle duplicates\<close>

definition idle_candidate :: "bool gomap \<Rightarrow> string \<Rightarrow> IkeSa \<Rightarrow> bool" where
  "idle_candidate expectedHosts name sa \<longleftrightarrow> idle_guard expectedHosts name sa \<and> fst (sa_traffic sa)"

text \<open>The associations that the idle check groups under one key.\<close>

definition peer_group :: "bool gomap \<Rightarrow> string \<Rightarrow> sa_list \<Rightarrow> IkeSa list" where
  "peer_group expectedHosts k sas =
     map snd (filter (\<lambda>(name, sa). idle_candidate expectedHosts name sa \<and> peer_key sa = k) (concat sas))"

abbreviation as_candidate :: "IkeSa \<Rightarrow> candidate" where
  "as_candidate sa \<equiv> (sa_Uniqueid sa, snd (sa_traffic sa))"

lemma idle_step_get:
  "mgetd [] (foldl (idle_step ex) m xs) k =
   mgetd [] m k @ map as_candidate (map snd (filter (\<lambda>(n, sa). idle_candidate ex n sa \<and> peer_key sa = k) xs))"
proof (induction xs arbitrary: m)
  case (Cons x xs)
  obtain n sa where x: "x = (n, sa)" by (cases x)
  have "mgetd [] (idle_step ex m x) k =
      mgetd [] m k @ (if idle_candidate ex n sa \<and> peer_key sa = k then [as_candidate sa] else [])"
    by (simp add: idle_step_def x idle_candidate_def case_prod_beta)
  then show ?case using Cons.IH[of "idle_step ex m x"] by (simp add: x)
qed simp

lemma idle_groups_get:
  "mgetd [] (idle_groups sas ex) k = map as_candidate (peer_group ex k sas)"
  by (simp add: idle_groups_def peer_group_def idle_step_get)

lemma idle_groups_ok: "gomap_ok (idle_groups sas ex) \<and> (\<forall>k. map_of (idle_groups sas ex) k \<noteq> Some [])"
  unfolding idle_groups_def
  by (rule foldl_preserves) (auto simp: idle_step_def case_prod_beta)

lemma idle_groups_Some:
  "map_of (idle_groups sas ex) k = Some g \<longleftrightarrow> g = map as_candidate (peer_group ex k sas) \<and> g \<noteq> []"
  using idle_groups_get[of sas ex k] idle_groups_ok[of sas ex]
  by (auto simp: mgetd_def split: option.splits)

lemma idle_of_group_Nil: "idle_of_group [] = []"
  by (simp add: idle_of_group_def)

lemma in_idle_of_group:
  "i \<in> set (idle_of_group g) \<longleftrightarrow> (\<exists>t j. 0 < t \<and> (g = [(i, 0), (j, t)] \<or> g = [(j, t), (i, 0)]))"
  by (auto simp: idle_of_group_def split: list.split)

lemma in_idleDuplicateIKEIDs:
  assumes "valid_order ro"
  shows "i \<in> set (idleDuplicateIKEIDs ro sas ex) \<longleftrightarrow>
    (\<exists>k. i \<in> set (idle_of_group (map as_candidate (peer_group ex k sas))))"
proof -
  have "i \<in> set (idleDuplicateIKEIDs ro sas ex) \<longleftrightarrow>
      (\<exists>k g. map_of (idle_groups sas ex) k = Some g \<and> i \<in> set (idle_of_group g))"
    unfolding idleDuplicateIKEIDs_def using set_go_range[OF assms, where m = "idle_groups sas ex"]
    by fastforce
  also have "\<dots> \<longleftrightarrow> (\<exists>k. i \<in> set (idle_of_group (map as_candidate (peer_group ex k sas))))"
  proof (intro ex_cong1)
    fix k
    let ?g = "map as_candidate (peer_group ex k sas)"
    show "(\<exists>g. map_of (idle_groups sas ex) k = Some g \<and> i \<in> set (idle_of_group g)) \<longleftrightarrow> i \<in> set (idle_of_group ?g)"
      unfolding idle_groups_Some by (cases "?g = []") (auto simp: idle_of_group_Nil)
  qed
  finally show ?thesis .
qed

lemma append_sep_inj: "c \<notin> set a \<Longrightarrow> c \<notin> set a' \<Longrightarrow> a @ c # b = a' @ c # b' \<longleftrightarrow> a = a' \<and> b = b'"
  by (metis takeWhile_sep dropWhile_sep list.inject)

definition no_nul :: "IkeSa \<Rightarrow> bool" where
  "no_nul sa \<longleftrightarrow> CHR 0x00 \<notin> set (sa_Remote_host sa) \<and> CHR 0x00 \<notin> set (sa_Local_id sa)"

lemma peer_key_inj:
  "no_nul sa \<Longrightarrow> no_nul sa' \<Longrightarrow> peer_key sa = peer_key sa' \<Longrightarrow>
   sa_Remote_host sa = sa_Remote_host sa' \<and> sa_Local_id sa = sa_Local_id sa' \<and>
   sa_Remote_id sa = sa_Remote_id sa'"
  by (simp add: no_nul_def peer_key_def append_sep_inj)

lemma peer_group_mem:
  "sa \<in> set (peer_group ex k sas) \<longleftrightarrow>
   (\<exists>name. (name, sa) \<in> set (concat sas) \<and> idle_candidate ex name sa \<and> peer_key sa = k)"
  unfolding peer_group_def by force

lemma idle_pair:
  assumes "i \<in> set (idle_of_group (map as_candidate (peer_group ex k sas)))"
  shows "\<exists>sa sa'. mset (peer_group ex k sas) = {#sa, sa'#} \<and> sa_Uniqueid sa = i \<and>
    snd (sa_traffic sa) = 0 \<and> 0 < snd (sa_traffic sa')"
proof -
  obtain t j where t: "0 < t" and "map as_candidate (peer_group ex k sas) = [(i, 0), (j, t)] \<or>
      map as_candidate (peer_group ex k sas) = [(j, t), (i, 0)]"
    using assms unfolding in_idle_of_group by (elim exE conjE)
  then show ?thesis
  proof (elim disjE)
    assume "map as_candidate (peer_group ex k sas) = [(i, 0), (j, t)]"
    then obtain sa sa' where "peer_group ex k sas = [sa, sa']" "as_candidate sa = (i, 0)" "as_candidate sa' = (j, t)"
      by (auto simp: map_eq_Cons_conv)
    with t show ?thesis by (intro exI[of _ sa] exI[of _ sa']) simp
  next
    assume "map as_candidate (peer_group ex k sas) = [(j, t), (i, 0)]"
    then obtain sa sa' where "peer_group ex k sas = [sa', sa]" "as_candidate sa = (i, 0)" "as_candidate sa' = (j, t)"
      by (auto simp: map_eq_Cons_conv)
    with t show ?thesis by (intro exI[of _ sa] exI[of _ sa']) (simp add: add_mset_commute)
  qed
qed

text \<open>
  C20. The reaper of idle duplicates never touches a live data path: an association whose
  identifier it returns carried no traffic, and it is one of exactly two established, quiet,
  long-lived associations with the same peer host and the same identities, the other of which has
  an installed CHILD_SA that did carry traffic.
\<close>

theorem idle_reap_keeps_used_tunnel:
  assumes "valid_order ro" "\<forall>(name, sa) \<in> set (concat sas). no_nul sa"
    and "i \<in> set (idleDuplicateIKEIDs ro sas expectedHosts)"
  shows "\<exists>sa sa'. sa_Uniqueid sa = i \<and> snd (sa_traffic sa) = 0 \<and>
    fst (sa_traffic sa') \<and> 0 < snd (sa_traffic sa') \<and> sa_State sa' = ''ESTABLISHED'' \<and>
    mset (peer_group expectedHosts (peer_key sa) sas) = {#sa, sa'#} \<and>
    sa_Remote_host sa' = sa_Remote_host sa \<and> sa_Local_id sa' = sa_Local_id sa \<and>
    sa_Remote_id sa' = sa_Remote_id sa"
proof -
  obtain k sa sa' where g: "mset (peer_group expectedHosts k sas) = {#sa, sa'#}" "sa_Uniqueid sa = i"
      "snd (sa_traffic sa) = 0" "0 < snd (sa_traffic sa')"
    using assms(3) idle_pair unfolding in_idleDuplicateIKEIDs[OF assms(1)] by blast
  have "sa \<in> set (peer_group expectedHosts k sas)" "sa' \<in> set (peer_group expectedHosts k sas)"
    unfolding set_mset_mset[symmetric] g(1) by simp_all
  then obtain n n' where m: "(n, sa) \<in> set (concat sas)" "(n', sa') \<in> set (concat sas)"
      "idle_candidate expectedHosts n' sa'" and k: "peer_key sa = k" "peer_key sa' = k"
    unfolding peer_group_mem by blast
  have "no_nul sa" "no_nul sa'" using assms(2) m(1,2) by blast+
  from peer_key_inj[OF this] show ?thesis
    using g m(3) k
    by (intro exI[of _ sa] exI[of _ sa']) (simp add: idle_candidate_def idle_guard_def)
qed

text \<open>A concrete list of associations: a used and an unused tunnel of one peer.\<close>

definition example_sa :: "string \<Rightarrow> string \<Rightarrow> string \<Rightarrow> string \<Rightarrow> IkeSa" where
  "example_sa uid state localHost bytes =
     \<lparr>sa_Uniqueid = uid, sa_State = state, sa_Local_host = localHost, sa_Local_id = ''192.0.2.10'',
      sa_Remote_host = ''192.0.2.20'', sa_Remote_id = ''192.0.2.20'', sa_Established = ''180'',
      sa_Child_sas = [(''child-192.0.2.20-'' @ uid,
        \<lparr>cs_Reqid = ''1234'', cs_State = ''INSTALLED'', cs_Bytes_in = bytes, cs_Bytes_out = ''0''\<rparr>)],
      sa_Tasks_active = [], sa_Tasks_queued = []\<rparr>"

definition example_sas :: sa_list where
  "example_sas =
     [[(''conn-192.0.2.20'', example_sa ''3'' ''ESTABLISHED'' ''192.0.2.10'' ''0'')],
      [(''conn-192.0.2.20'', example_sa ''4'' ''ESTABLISHED'' ''192.0.2.10'' ''400'')],
      [(''conn-192.0.2.20'', example_sa ''5'' ''DELETING'' ''192.0.2.10'' ''0'')],
      [(''conn-192.0.2.20'', example_sa ''7'' ''CONNECTING'' ''192.0.2.9'' ''0'')]]"

abbreviation example_hosts :: "bool gomap" where
  "example_hosts \<equiv> [(''192.0.2.20'', True)]"

lemma example_sas_no_nul: "\<forall>(name, sa) \<in> set (concat example_sas). no_nul sa"
  by (simp add: example_sas_def example_sa_def no_nul_def)

lemma example_idle: "''3'' \<in> set (idleDuplicateIKEIDs (\<lambda>_ ks. ks) example_sas example_hosts)"
  by code_simp

theorem idle_reap_keeps_used_tunnel_witness:
  "''3'' \<in> set (idleDuplicateIKEIDs (\<lambda>_ ks. ks) example_sas example_hosts) \<and>
   (\<exists>sa sa'. sa_Uniqueid sa = ''3'' \<and> snd (sa_traffic sa) = 0 \<and>
    fst (sa_traffic sa') \<and> 0 < snd (sa_traffic sa') \<and> sa_State sa' = ''ESTABLISHED'' \<and>
    mset (peer_group example_hosts (peer_key sa) example_sas) = {#sa, sa'#} \<and>
    sa_Remote_host sa' = sa_Remote_host sa \<and> sa_Local_id sa' = sa_Local_id sa \<and>
    sa_Remote_id sa' = sa_Remote_id sa)"
  using idle_reap_keeps_used_tunnel[OF valid_order_id example_sas_no_nul example_idle] example_idle
  by (rule conjI[rotated])

subsection \<open>Order of the answers\<close>

lemma mset_idle_of_group: "mset g = mset g' \<Longrightarrow> mset (idle_of_group g) = mset (idle_of_group g')"
proof -
  assume eq: "mset g = mset g'"
  then have len: "length g = length g'" by (rule mset_eq_length)
  show ?thesis
  proof (cases "\<exists>a b. g = [a, b]")
    case True
    then obtain a b where g: "g = [a, b]" by blast
    then have "length g' = Suc (Suc 0)" using len by simp
    then obtain c d where g': "g' = [c, d]"
      unfolding length_Suc_conv by (elim exE conjE) simp
    have "c = a \<and> d = b \<or> c = b \<and> d = a"
      using eq by (auto simp: g g' add_eq_conv_ex)
    then show ?thesis by (auto simp: g g' idle_of_group_def)
  next
    case False
    then have "length g \<noteq> 2" by (auto simp: numeral_2_eq_2 length_Suc_conv)
    then have "idle_of_group h = []" if "length h = length g" for h
      using that by (auto simp: idle_of_group_def split: list.split)
    then show ?thesis using len by simp
  qed
qed

lemma mset_idle_ids:
  assumes "valid_order ro"
  shows "mset (idleDuplicateIKEIDs ro sas ex) =
    (\<Sum>k | peer_group ex k sas \<noteq> []. mset (idle_of_group (map as_candidate (peer_group ex k sas))))"
proof -
  let ?M = "idle_groups sas ex" and ?f = "\<lambda>kg. mset (idle_of_group (snd kg))"
  have "mset (idleDuplicateIKEIDs ro sas ex) = (\<Sum>kg \<in># mset (go_range ro 0 ?M). ?f kg)"
    unfolding idleDuplicateIKEIDs_def
    by (simp add: mset_concat case_prod_beta sum_mset_sum_list[symmetric] comp_def)
  also have "\<dots> = (\<Sum>kg \<in> set ?M. ?f kg)"
    using idle_groups_ok[of sas ex] mset_go_range[OF assms, of ?M]
    by (simp add: sum_unfold_sum_mset mset_set_set gomap_ok_def distinct_map)
  also have "set ?M = (\<lambda>k. (k, map as_candidate (peer_group ex k sas))) ` {k. peer_group ex k sas \<noteq> []}"
    using idle_groups_ok[of sas ex] idle_groups_Some[of sas ex]
    by (auto simp: gomap_map_of_iff[symmetric])
  also have "(\<Sum>kg \<in> \<dots>. ?f kg) =
      (\<Sum>k | peer_group ex k sas \<noteq> []. mset (idle_of_group (map as_candidate (peer_group ex k sas))))"
    by (subst sum.reindex) (auto simp: inj_on_def)
  finally show ?thesis .
qed

text \<open>
  The list of idle duplicates does not depend on any order that Go leaves open: it is the same
  for every range order of the grouping map and for every order in which charon lists the
  associations.
\<close>

theorem idle_ids_order_independent:
  assumes "valid_order ro" "valid_order ro'" "mset (concat sas) = mset (concat sas')"
  shows "idleDuplicateIKEIDs ro sas expectedHosts = idleDuplicateIKEIDs ro' sas' expectedHosts"
proof -
  have g: "mset (peer_group expectedHosts k sas) = mset (peer_group expectedHosts k sas')" for k
    unfolding peer_group_def using assms(3) by simp
  then have "peer_group expectedHosts k sas \<noteq> [] \<longleftrightarrow> peer_group expectedHosts k sas' \<noteq> []" for k
    by (metis mset_zero_iff)
  moreover have "mset (idle_of_group (map as_candidate (peer_group expectedHosts k sas))) =
      mset (idle_of_group (map as_candidate (peer_group expectedHosts k sas')))" for k
    by (rule mset_idle_of_group) (simp add: g)
  ultimately have "mset (idleDuplicateIKEIDs ro sas expectedHosts) = mset (idleDuplicateIKEIDs ro' sas' expectedHosts)"
    unfolding mset_idle_ids[OF assms(1)] mset_idle_ids[OF assms(2)] by simp
  then have "sort (idleDuplicateIKEIDs ro sas expectedHosts) = sort (idleDuplicateIKEIDs ro' sas' expectedHosts)"
    by (rule sort_cong_mset)
  then show ?thesis by (simp add: idleDuplicateIKEIDs_def sort_key_id_if_sorted)
qed

theorem idle_ids_order_independent_witness:
  "idleDuplicateIKEIDs (\<lambda>_ ks. ks) example_sas example_hosts =
   idleDuplicateIKEIDs (\<lambda>_ ks. rev ks) (rev example_sas) example_hosts"
  by (rule idle_ids_order_independent[OF valid_order_id valid_order_rev]) (simp add: example_sas_def)

subsection \<open>Deleting duplicates\<close>

lemma healthy_hosts_iff:
  "mtest (healthy_hosts sas ex) h \<longleftrightarrow>
   (\<exists>(n, sa) \<in> set (concat sas). healthy_sa ex n sa \<and> sa_Remote_host sa = h)"
proof -
  have "mtest (foldl (\<lambda>h (name, sa). if healthy_sa ex name sa then mput (sa_Remote_host sa) True h else h) m xs) h
      \<longleftrightarrow> mtest m h \<or> (\<exists>(n, sa) \<in> set xs. healthy_sa ex n sa \<and> sa_Remote_host sa = h)" for m xs
    by (induction xs arbitrary: m) (auto simp: case_prod_beta)
  then show ?thesis by (simp add: healthy_hosts_def)
qed

text \<open>
  A DELETING association is reaped exactly if it is the association of a managed connection
  with a usable identifier and the same peer has, at the same time, an ESTABLISHED association of
  its managed connection with an installed CHILD_SA.
\<close>

theorem deleting_reap_iff:
  "i \<in> set (deletingDuplicateIKEIDs sas expectedHosts) \<longleftrightarrow>
   (\<exists>name sa name' sa'.
      (name, sa) \<in> set (concat sas) \<and> sa_Uniqueid sa = i \<and> valid_id i \<and>
      name = ''conn-'' @ sa_Remote_host sa \<and> sa_State sa = ''DELETING'' \<and>
      (name', sa') \<in> set (concat sas) \<and> healthy_sa expectedHosts name' sa' \<and>
      sa_Remote_host sa' = sa_Remote_host sa)"
  unfolding deletingDuplicateIKEIDs_def Let_def healthy_hosts_iff by (force simp: image_iff)

subsection \<open>Stale local addresses\<close>

lemma distinct_map_filter_unique:
  assumes "\<And>x. x \<in> set xs \<Longrightarrow> P x \<Longrightarrow> length (filter (\<lambda>y. f y = f x) xs) = 1"
  shows "distinct (map f (filter P xs))"
proof -
  have "count (mset (map f (filter P xs))) v \<le> 1" for v
  proof (cases "v \<in> f ` set (filter P xs)")
    case True
    then obtain x where x: "x \<in> set xs" "P x" "v = f x" by auto
    have "count (mset (map f (filter P xs))) v = length (filter (\<lambda>y. P y \<and> f y = v) xs)"
      by (induction xs) auto
    also have "\<dots> \<le> length (filter (\<lambda>y. f y = v) xs)"
      by (induction xs) auto
    finally show ?thesis using assms[OF x(1,2)] x(3) by simp
  next
    case False
    then show ?thesis by (simp add: count_eq_zero_iff[THEN iffD2])
  qed
  then show ?thesis
    by (metis One_nat_def distinct_count_atmost_1 count_eq_zero_iff le_Suc_eq le_zero_eq set_mset_mset)
qed

lemma stale_local_saD:
  assumes "stale_local_sa sas cur ex st name sa"
  shows "\<exists>identity. map_of (mgetd [] st (sa_Remote_host sa)) (sa_Local_host sa) = Some identity \<and>
    mtest ex (sa_Remote_host sa) \<and> sa_Local_host sa \<noteq> cur \<and> id_count sas (sa_Uniqueid sa) = 1"
  using assms unfolding stale_local_sa_def by (auto split: option.splits)

lemma staleLocalIKEIDs_mem:
  "i \<in> set (staleLocalIKEIDs sas cur ex st) \<longleftrightarrow>
   parseIP cur \<noteq> [] \<and> (\<exists>(name, sa) \<in> set (concat sas). stale_local_sa sas cur ex st name sa \<and> sa_Uniqueid sa = i)"
  by (auto simp: staleLocalIKEIDs_def image_iff)


lemma example_stale:
  "''7'' \<in> set (staleLocalIKEIDs example_sas ''192.0.2.10'' example_hosts
     [(''192.0.2.20'', [(''192.0.2.9'', ''192.0.2.10'')])])"
  by code_simp


subsection \<open>Peer identities\<close>

abbreviation on_host :: "string \<Rightarrow> string \<times> entry \<Rightarrow> bool" where
  "on_host h ke \<equiv> cleanIP (HostIpAddress (snd ke)) = h"

text \<open>The identities that are acceptable for a host that runs peers.\<close>

definition host_identities :: "(string \<times> entry) list \<Rightarrow> string \<Rightarrow> string set" where
  "host_identities ps h =
     insert h ((\<lambda>ke. cleanIP (IpAddress (snd ke))) ` {ke \<in> set ps. on_host h ke} - {[]})"

lemma identity_step_other: "\<not> on_host h ke \<Longrightarrow> map_of (identity_step l m ke) h = map_of m h"
  by (simp add: identity_step_def Let_def)

lemma identity_step_here:
  assumes "h \<noteq> []" "h \<noteq> l" "on_host h ke"
  shows "map_of (identity_step l m ke) h \<noteq> None"
    and "mtest (mgetd [] (identity_step l m ke) h) x \<longleftrightarrow>
      mtest (mgetd [] m h) x \<or> x = h \<or> x = cleanIP (IpAddress (snd ke)) \<and> x \<noteq> []"
  using assms by (auto simp: identity_step_def Let_def)

lemma identity_fold_known:
  assumes "h \<noteq> []" "h \<noteq> l"
  shows "map_of (foldl (identity_step l) m xs) h \<noteq> None \<longleftrightarrow>
    map_of m h \<noteq> None \<or> (\<exists>ke \<in> set xs. on_host h ke)"
proof (induction xs arbitrary: m)
  case (Cons ke xs)
  then show ?case
    using identity_step_here(1)[OF assms, of ke m] identity_step_other[of ke h l m]
    by (cases "on_host h ke") auto
qed simp

lemma identity_fold_ids:
  assumes "h \<noteq> []" "h \<noteq> l"
  shows "mtest (mgetd [] (foldl (identity_step l) m xs) h) x \<longleftrightarrow>
    mtest (mgetd [] m h) x \<or> (\<exists>ke \<in> set xs. on_host h ke) \<and> x \<in> host_identities xs h"
proof (induction xs arbitrary: m)
  case (Cons ke xs)
  show ?case
  proof (cases "on_host h ke")
    case True
    then show ?thesis
      using identity_step_here(2)[OF assms True, of m x] Cons.IH[of "identity_step l m ke"]
      by (auto simp: host_identities_def)
  next
    case False
    then show ?thesis
      using Cons.IH[of "identity_step l m ke"] identity_step_other[OF False, of l m]
      by (auto simp: host_identities_def mgetd_def)
  qed
qed simp

lemma Collect_nonempty_iff: "{x \<in> A. P x} \<noteq> {} \<longleftrightarrow> (\<exists>x \<in> A. P x)"
  by blast

lemma identity_fold_skip:
  "h = [] \<or> h = l \<Longrightarrow> map_of (foldl (identity_step l) m xs) h = map_of m h"
  by (induction xs arbitrary: m) (auto simp: identity_step_def Let_def)

text \<open>
  An association is judged to have a stale peer identity exactly if its CHILD_SA names a host
  other than this one on which some peer runs, its remote identity is an address, and that address
  is neither the address of the host nor the overlay address of a peer on that host.
\<close>

theorem stale_identity_iff:
  "snd (stalePeerIdentity childName remoteID (expectedPeerIdentitiesByHost db)) \<longleftrightarrow>
   childHostIP childName \<noteq> [] \<and> childHostIP childName \<noteq> cleanIP (v_LocalHostIp db) \<and>
   {ke \<in> set (v_PeerEntries db). on_host (childHostIP childName) ke} \<noteq> {} \<and>
   cleanIP remoteID \<noteq> [] \<and>
   cleanIP remoteID \<notin> host_identities (v_PeerEntries db) (childHostIP childName)"
proof -
  let ?h = "childHostIP childName" and ?l = "cleanIP (v_LocalHostIp db)" and ?r = "cleanIP remoteID"
  let ?ex = "expectedPeerIdentitiesByHost db"
  consider "?h = [] \<or> ?h = ?l" | "?h \<noteq> []" "?h \<noteq> ?l" by blast
  then show ?thesis
  proof cases
    case 1
    then have "map_of ?ex ?h = None"
      using identity_fold_skip[of ?h ?l "[]"] by (simp add: expectedPeerIdentitiesByHost_def)
    then show ?thesis using 1 by (auto simp: stalePeerIdentity_def Let_def)
  next
    case 2
    have known: "map_of ?ex ?h \<noteq> None \<longleftrightarrow> {ke \<in> set (v_PeerEntries db). on_host ?h ke} \<noteq> {}"
      unfolding Collect_nonempty_iff
      using identity_fold_known[OF 2, of "[]" "v_PeerEntries db"] by (simp add: expectedPeerIdentitiesByHost_def)
    have ids: "mtest (mgetd [] ?ex ?h) ?r \<longleftrightarrow> {ke \<in> set (v_PeerEntries db). on_host ?h ke} \<noteq> {} \<and>
        ?r \<in> host_identities (v_PeerEntries db) ?h"
      unfolding Collect_nonempty_iff
      using identity_fold_ids[OF 2, of "[]" "v_PeerEntries db" ?r] by (simp add: expectedPeerIdentitiesByHost_def)
    show ?thesis
      using 2 known ids by (cases "map_of ?ex ?h") (auto simp: stalePeerIdentity_def Let_def mgetd_def)
  qed
qed

end
