(* ===== verification/Go_Crypto.thy ===== *)
theory Go_Crypto
  imports Go_Net
begin

text \<open>
  The digests of Go's \<^verbatim>\<open>crypto/sha1\<close> and \<^verbatim>\<open>crypto/sha256\<close> on byte strings, in lower-case
  hexadecimal: the revision of the IKE templates and the fingerprint of a topology plan.
\<close>

unbundle bit_operations_syntax

section \<open>Padding and blocks\<close>

definition pad_zeros :: "nat \<Rightarrow> nat" where
  "pad_zeros n = (119 - n mod 64) mod 64"

definition be64 :: "nat \<Rightarrow> byte list" where
  "be64 n = map (\<lambda>i. word_of_nat (n div 256 ^ (7 - i))) [0..<8]"

definition pad :: "byte list \<Rightarrow> byte list" where
  "pad m = m @ 0x80 # replicate (pad_zeros (length m)) 0 @ be64 (8 * length m)"

text \<open>The 32-bit big-endian words of a message whose length is a multiple of four.\<close>

fun be_words :: "byte list \<Rightarrow> 32 word list" where
  "be_words (a # b # c # d # r) =
     word_of_nat (((unat a * 256 + unat b) * 256 + unat c) * 256 + unat d) # be_words r"
| "be_words _ = []"

function blocks :: "'a list \<Rightarrow> 'a list list" where
  "blocks ws = (if ws = [] then [] else take 16 ws # blocks (drop 16 ws))"
  by pat_completeness auto
termination by (relation "measure length") auto

declare blocks.simps [simp del]

definition bytes_of :: "32 word \<Rightarrow> byte list" where
  "bytes_of w = map (\<lambda>i. word_of_nat (unat w div 256 ^ (3 - i))) [0..<4]"

definition rotl :: "nat \<Rightarrow> 32 word \<Rightarrow> 32 word" where
  "rotl n w = push_bit n w OR drop_bit (32 - n) w"

abbreviation rotr :: "nat \<Rightarrow> 32 word \<Rightarrow> 32 word" where "rotr n \<equiv> rotl (32 - n)"

definition char_bytes :: "string \<Rightarrow> byte list" where
  "char_bytes s = map (\<lambda>c. word_of_nat (of_char c)) s"

text \<open>The message schedule, kept in reverse: the head is the latest word.\<close>

fun extend :: "(32 word list \<Rightarrow> 32 word) \<Rightarrow> nat \<Rightarrow> 32 word list \<Rightarrow> 32 word list" where
  "extend f 0 ws = ws"
| "extend f (Suc n) ws = extend f n (f ws # ws)"

section \<open>SHA-1\<close>

definition sha1_w :: "32 word list \<Rightarrow> 32 word" where
  "sha1_w ws = rotl 1 (ws ! 2 XOR ws ! 7 XOR ws ! 13 XOR ws ! 15)"

definition sha1_f :: "nat \<Rightarrow> 32 word \<Rightarrow> 32 word \<Rightarrow> 32 word \<Rightarrow> 32 word" where
  "sha1_f t b c d =
     (if t < 20 then (b AND c) OR (NOT b AND d)
      else if t < 40 then b XOR c XOR d
      else if t < 60 then (b AND c) OR (b AND d) OR (c AND d)
      else b XOR c XOR d)"

definition sha1_k :: "nat \<Rightarrow> 32 word" where
  "sha1_k t = (if t < 20 then 0x5A827999 else if t < 40 then 0x6ED9EBA1
     else if t < 60 then 0x8F1BBCDC else 0xCA62C1D6)"

type_synonym sha1_state = "32 word \<times> 32 word \<times> 32 word \<times> 32 word \<times> 32 word"

definition sha1_round :: "sha1_state \<Rightarrow> nat \<times> 32 word \<Rightarrow> sha1_state" where
  "sha1_round = (\<lambda>(a, b, c, d, e) (t, w).
     (rotl 5 a + sha1_f t b c d + e + sha1_k t + w, a, rotl 30 b, c, d))"

definition sha1_block :: "sha1_state \<Rightarrow> 32 word list \<Rightarrow> sha1_state" where
  "sha1_block h ws =
     (case h of (a, b, c, d, e) \<Rightarrow>
       (case foldl sha1_round h (enumerate 0 (rev (extend sha1_w 64 (rev ws)))) of
          (a', b', c', d', e') \<Rightarrow> (a + a', b + b', c + c', d + d', e + e')))"

definition sha1_sum :: "string \<Rightarrow> sha1_state" where
  "sha1_sum s =
     foldl sha1_block (0x67452301, 0xEFCDAB89, 0x98BADCFE, 0x10325476, 0xC3D2E1F0)
       (blocks (be_words (pad (char_bytes s))))"

definition sha1 :: "string \<Rightarrow> byte list" where
  "sha1 s = (case sha1_sum s of (a, b, c, d, e) \<Rightarrow> concat (map bytes_of [a, b, c, d, e]))"

section \<open>SHA-256\<close>

definition sha256_w :: "32 word list \<Rightarrow> 32 word" where
  "sha256_w ws =
     (let x = ws ! 14; y = ws ! 1
      in ws ! 15 + (rotr 7 x XOR rotr 18 x XOR drop_bit 3 x) + ws ! 6 +
         (rotr 17 y XOR rotr 19 y XOR drop_bit 10 y))"

definition sha256_k :: "32 word list" where
  "sha256_k =
     [0x428a2f98, 0x71374491, 0xb5c0fbcf, 0xe9b5dba5, 0x3956c25b, 0x59f111f1, 0x923f82a4, 0xab1c5ed5,
      0xd807aa98, 0x12835b01, 0x243185be, 0x550c7dc3, 0x72be5d74, 0x80deb1fe, 0x9bdc06a7, 0xc19bf174,
      0xe49b69c1, 0xefbe4786, 0x0fc19dc6, 0x240ca1cc, 0x2de92c6f, 0x4a7484aa, 0x5cb0a9dc, 0x76f988da,
      0x983e5152, 0xa831c66d, 0xb00327c8, 0xbf597fc7, 0xc6e00bf3, 0xd5a79147, 0x06ca6351, 0x14292967,
      0x27b70a85, 0x2e1b2138, 0x4d2c6dfc, 0x53380d13, 0x650a7354, 0x766a0abb, 0x81c2c92e, 0x92722c85,
      0xa2bfe8a1, 0xa81a664b, 0xc24b8b70, 0xc76c51a3, 0xd192e819, 0xd6990624, 0xf40e3585, 0x106aa070,
      0x19a4c116, 0x1e376c08, 0x2748774c, 0x34b0bcb5, 0x391c0cb3, 0x4ed8aa4a, 0x5b9cca4f, 0x682e6ff3,
      0x748f82ee, 0x78a5636f, 0x84c87814, 0x8cc70208, 0x90befffa, 0xa4506ceb, 0xbef9a3f7, 0xc67178f2]"

type_synonym sha256_state =
  "32 word \<times> 32 word \<times> 32 word \<times> 32 word \<times> 32 word \<times> 32 word \<times> 32 word \<times> 32 word"

definition sha256_round :: "sha256_state \<Rightarrow> 32 word \<times> 32 word \<Rightarrow> sha256_state" where
  "sha256_round = (\<lambda>(a, b, c, d, e, f, g, h) (k, w).
     let t1 = h + (rotr 6 e XOR rotr 11 e XOR rotr 25 e) + ((e AND f) XOR (NOT e AND g)) + k + w;
         t2 = (rotr 2 a XOR rotr 13 a XOR rotr 22 a) + ((a AND b) XOR (a AND c) XOR (b AND c))
     in (t1 + t2, a, b, c, d + t1, e, f, g))"

definition sha256_block :: "sha256_state \<Rightarrow> 32 word list \<Rightarrow> sha256_state" where
  "sha256_block s ws =
     (case s of (a, b, c, d, e, f, g, h) \<Rightarrow>
       (case foldl sha256_round s (zip sha256_k (rev (extend sha256_w 48 (rev ws)))) of
          (a', b', c', d', e', f', g', h') \<Rightarrow>
            (a + a', b + b', c + c', d + d', e + e', f + f', g + g', h + h')))"

definition sha256_sum :: "string \<Rightarrow> sha256_state" where
  "sha256_sum s =
     foldl sha256_block
       (0x6a09e667, 0xbb67ae85, 0x3c6ef372, 0xa54ff53a, 0x510e527f, 0x9b05688c, 0x1f83d9ab, 0x5be0cd19)
       (blocks (be_words (pad (char_bytes s))))"

definition sha256 :: "string \<Rightarrow> byte list" where
  "sha256 s =
     (case sha256_sum s of (a, b, c, d, e, f, g, h) \<Rightarrow> concat (map bytes_of [a, b, c, d, e, f, g, h]))"

lemma length_bytes_of [simp]: "length (bytes_of w) = 4"
  by (simp add: bytes_of_def)

lemma length_sha1 [simp]: "length (sha1 s) = 20"
  by (cases "sha1_sum s") (simp add: sha1_def)

lemma length_sha256 [simp]: "length (sha256 s) = 32"
  by (cases "sha256_sum s") (simp add: sha256_def split: prod.split)

end
