(* ===== verification/Ipsec_Conn.thy ===== *)
theory Ipsec_Conn
  imports Ipsec_SA Go_Crypto
begin

text \<open>
  IKE connections: the templates of \<^verbatim>\<open>backend/ipsec/templates.go\<close>, the connection of a peer host
  with its fingerprint, loading it into charon, and the clean-up of associations that a previous
  local address left behind (\<^verbatim>\<open>backend/ipsec/connection.go\<close>).
\<close>

section \<open>JSON forms of the configuration\<close>

definition zeroAuth :: AuthConf where
  "zeroAuth = \<lparr>a_ID = [], a_Round = [], a_AuthMethod = [], a_EAP_ID = [], a_PubKeys = []\<rparr>"

definition zeroChild :: ChildSAConf where
  "zeroChild = \<lparr>ch_Local_ts = None, ch_Remote_ts = None, ch_ESPProposals = [], ch_StartAction = [],
     ch_CloseAction = [], ch_ReqID = [], ch_RekeyTime = [], ch_ReplayWindow = [], ch_Mode = [],
     ch_InstallPolicy = [], ch_UpDown = [], ch_Priority = [], ch_MarkIn = [], ch_MarkOut = [],
     ch_DpdAction = [], ch_LifeTime = []\<rparr>"

definition zeroIke :: IKEConnectionConfig where
  "zeroIke = \<lparr>k_LocalAddrs = None, k_RemoteAddrs = [], k_LocalPort = [], k_RemotePort = [], k_Proposals = [],
     k_Vips = [], k_Version = [], k_Encap = [], k_KeyingTries = [], k_RekeyTime = [], k_DPDDelay = [],
     k_LocalAuth = zeroAuth, k_RemoteAuth = zeroAuth, k_Pools = [], k_Children = [], k_Mobike = [], k_Unique = []\<rparr>"

abbreviation dec_strings :: "string list dec" where "dec_strings \<equiv> dec_list dec_string []"

definition auth_fields :: "AuthConf field list" where
  "auth_fields =
     [field ''id'' dec_string a_ID a_ID_update,
      field ''round'' dec_string a_Round a_Round_update,
      field ''auth'' dec_string a_AuthMethod a_AuthMethod_update,
      field ''eap_id'' dec_string a_EAP_ID a_EAP_ID_update,
      field ''pubkeys'' dec_strings a_PubKeys a_PubKeys_update]"

definition child_fields :: "ChildSAConf field list" where
  "child_fields =
     [field ''local_ts'' (dec_slice dec_string []) ch_Local_ts ch_Local_ts_update,
      field ''remote_ts'' (dec_slice dec_string []) ch_Remote_ts ch_Remote_ts_update,
      field ''esp_proposals'' dec_strings ch_ESPProposals ch_ESPProposals_update,
      field ''start_action'' dec_string ch_StartAction ch_StartAction_update,
      field ''close_action'' dec_string ch_CloseAction ch_CloseAction_update,
      field ''reqid'' dec_string ch_ReqID ch_ReqID_update,
      field ''rekey_time'' dec_string ch_RekeyTime ch_RekeyTime_update,
      field ''replay_window'' dec_string ch_ReplayWindow ch_ReplayWindow_update,
      field ''mode'' dec_string ch_Mode ch_Mode_update,
      field ''policies'' dec_string ch_InstallPolicy ch_InstallPolicy_update,
      field ''updown'' dec_string ch_UpDown ch_UpDown_update,
      field ''priority'' dec_string ch_Priority ch_Priority_update,
      field ''mark_in'' dec_string ch_MarkIn ch_MarkIn_update,
      field ''mark_out'' dec_string ch_MarkOut ch_MarkOut_update,
      field ''dpd_action'' dec_string ch_DpdAction ch_DpdAction_update,
      field ''life_time'' dec_string ch_LifeTime ch_LifeTime_update]"

text \<open>The fields of the embedded library structure, then \<^verbatim>\<open>Unique\<close>.\<close>

definition ike_fields :: "IKEConnectionConfig field list" where
  "ike_fields =
     [field ''local_addrs'' (dec_slice dec_string []) k_LocalAddrs k_LocalAddrs_update,
      field ''remote_addrs'' dec_strings k_RemoteAddrs k_RemoteAddrs_update,
      field ''local_port'' dec_string k_LocalPort k_LocalPort_update,
      field ''remote_port'' dec_string k_RemotePort k_RemotePort_update,
      field ''proposals'' dec_strings k_Proposals k_Proposals_update,
      field ''vips'' dec_strings k_Vips k_Vips_update,
      field ''version'' dec_string k_Version k_Version_update,
      field ''encap'' dec_string k_Encap k_Encap_update,
      field ''keyingtries'' dec_string k_KeyingTries k_KeyingTries_update,
      field ''rekey_time'' dec_string k_RekeyTime k_RekeyTime_update,
      field ''dpd_delay'' dec_string k_DPDDelay k_DPDDelay_update,
      field ''local'' (dec_struct False auth_fields) k_LocalAuth k_LocalAuth_update,
      field ''remote'' (dec_struct False auth_fields) k_RemoteAuth k_RemoteAuth_update,
      field ''pools'' dec_strings k_Pools k_Pools_update,
      field ''children'' (dec_map (dec_struct False child_fields) zeroChild) k_Children k_Children_update,
      field ''mobike'' dec_string k_Mobike k_Mobike_update,
      field ''unique'' dec_string k_Unique k_Unique_update]"

abbreviation dec_child :: "ChildSAConf dec" where "dec_child \<equiv> dec_struct False child_fields"
abbreviation dec_ike :: "IKEConnectionConfig dec" where "dec_ike \<equiv> dec_struct False ike_fields"

definition identity_fields :: "connectionIdentity field list" where
  "identity_fields =
     [field ''TemplateRevision'' dec_string TemplateRevision TemplateRevision_update,
      field ''LocalAgentIP'' dec_string LocalAgentIP LocalAgentIP_update,
      field ''LocalTunnelIP'' dec_string LocalTunnelIP LocalTunnelIP_update,
      field ''HostTunnelSource'' dec_bool HostTunnelSource HostTunnelSource_update,
      field ''Connection'' dec_ike Connection Connection_update]"

definition zeroIdentity :: connectionIdentity where
  "zeroIdentity = \<lparr>TemplateRevision = [], LocalAgentIP = [], LocalTunnelIP = [], HostTunnelSource = False,
     Connection = zeroIke\<rparr>"

abbreviation dec_identity :: "connectionIdentity dec" where "dec_identity \<equiv> dec_struct False identity_fields"

abbreviation (input) omit_string :: "string \<Rightarrow> string \<Rightarrow> (string \<times> json) list" where
  "omit_string k s \<equiv> omit (s = []) (k, enc_string s)"

abbreviation (input) omit_list :: "string \<Rightarrow> string list \<Rightarrow> (string \<times> json) list" where
  "omit_list k xs \<equiv> omit (xs = []) (k, enc_list xs)"

definition enc_auth :: "AuthConf \<Rightarrow> json" where
  "enc_auth a = JObj (
     (''id'', enc_string (a_ID a)) #
     omit_string ''round'' (a_Round a) @
     (''auth'', enc_string (a_AuthMethod a)) #
     omit_string ''eap_id'' (a_EAP_ID a) @
     omit_list ''pubkeys'' (a_PubKeys a) @ [])"

definition enc_child :: "ChildSAConf \<Rightarrow> json" where
  "enc_child c = JObj (
     (''local_ts'', enc_slice (ch_Local_ts c)) #
     (''remote_ts'', enc_slice (ch_Remote_ts c)) #
     omit_list ''esp_proposals'' (ch_ESPProposals c) @
     (''start_action'', enc_string (ch_StartAction c)) #
     (''close_action'', enc_string (ch_CloseAction c)) #
     omit_string ''reqid'' (ch_ReqID c) @
     (''rekey_time'', enc_string (ch_RekeyTime c)) #
     omit_string ''replay_window'' (ch_ReplayWindow c) @
     (''mode'', enc_string (ch_Mode c)) #
     (''policies'', enc_string (ch_InstallPolicy c)) #
     omit_string ''updown'' (ch_UpDown c) @
     omit_string ''priority'' (ch_Priority c) @
     omit_string ''mark_in'' (ch_MarkIn c) @
     omit_string ''mark_out'' (ch_MarkOut c) @
     omit_string ''dpd_action'' (ch_DpdAction c) @
     omit_string ''life_time'' (ch_LifeTime c) @ [])"

definition enc_ike :: "IKEConnectionConfig \<Rightarrow> json" where
  "enc_ike k = JObj (
     (''local_addrs'', enc_slice (k_LocalAddrs k)) #
     omit_list ''remote_addrs'' (k_RemoteAddrs k) @
     omit_string ''local_port'' (k_LocalPort k) @
     omit_string ''remote_port'' (k_RemotePort k) @
     omit_list ''proposals'' (k_Proposals k) @
     omit_list ''vips'' (k_Vips k) @
     (''version'', enc_string (k_Version k)) #
     (''encap'', enc_string (k_Encap k)) #
     (''keyingtries'', enc_string (k_KeyingTries k)) #
     (''rekey_time'', enc_string (k_RekeyTime k)) #
     omit_string ''dpd_delay'' (k_DPDDelay k) @
     (''local'', enc_auth (k_LocalAuth k)) #
     (''remote'', enc_auth (k_RemoteAuth k)) #
     omit_list ''pools'' (k_Pools k) @
     (''children'', enc_map enc_child (k_Children k)) #
     omit_string ''mobike'' (k_Mobike k) @
     omit_string ''unique'' (k_Unique k) @ [])"

definition enc_identity :: "connectionIdentity \<Rightarrow> json" where
  "enc_identity i = JObj
     [(''TemplateRevision'', enc_string (TemplateRevision i)),
      (''LocalAgentIP'', enc_string (LocalAgentIP i)),
      (''LocalTunnelIP'', enc_string (LocalTunnelIP i)),
      (''HostTunnelSource'', JBool (HostTunnelSource i)),
      (''Connection'', enc_ike (Connection i))]"

text \<open>
  \<^verbatim>\<open>ConvertToGeneral\<close>: print the value as JSON and read the text back as an untyped map.
\<close>

definition convertToGeneral :: "json \<Rightarrow> gval gomap result" where
  "convertToGeneral j =
     (case json_parse (render j) of
        None \<Rightarrow> Inl syntax_error
      | Some v \<Rightarrow> (case general v of GMap m \<Rightarrow> Inr m | GNull \<Rightarrow> Inr [] | _ \<Rightarrow> Inl (type_error v)))"

text \<open>How \<^verbatim>\<open>%v\<close> prints an untyped value; a missing map entry prints as nil.\<close>

fun show_gval :: "gval \<Rightarrow> string" where
  "show_gval GNull = ''<nil>''"
| "show_gval (GBool b) = (if b then ''true'' else ''false'')"
| "show_gval (GNum s) = s"
| "show_gval (GStr s) = s"
| "show_gval (GArr vs) = ''['' @ join '' '' (map show_gval vs) @ '']''"
| "show_gval (GMap ms) =
     ''map['' @ join '' '' (map (\<lambda>(k, v). k @ '':'' @ v) (sort_key fst (map (\<lambda>(k, v). (k, show_gval v)) ms))) @ '']''"

definition errmsg :: "gval gomap \<Rightarrow> string" where
  "errmsg resp = show_gval (mgetd GNull resp ''errmsg'')"

definition succeeded :: "gval gomap \<Rightarrow> bool" where
  "succeeded resp \<longleftrightarrow> map_of resp ''success'' = Some (GStr ''yes'')"

section \<open>Templates\<close>

definition ikeConfName :: string where "ikeConfName = ''ike.conf''"
definition childSaConfName :: string where "childSaConfName = ''childsa.conf''"

text \<open>A raw string literal of the source: its lines, which are separated by newlines; \<open>n\<close> tabs indent a line.\<close>

definition raw_lines :: "(nat \<times> string) list \<Rightarrow> string" where
  "raw_lines ls = join [CHR 0x0A] (map (\<lambda>(n, l). replicate n CHR 0x09 @ l) ls)"

definition defaultIkeConf :: string where
  \<open>defaultIkeConf = raw_lines
     [(0, ''{''),
      (2, ''"local_addrs": [],''),
      (2, ''"proposals": ["aes128gcm16-sha256-modp2048", "aes-sha1-modp2048"],''),
      (2, ''"encap": "yes",''),
      (2, ''"unique": "replace",''),
      (2, ''"local": {''),
      (3, ''"auth": "psk"''),
      (2, ''},''),
      (2, ''"remote": {''),
      (3, ''"auth": "psk"''),
      (2, ''}''),
      (1, ''}'')]\<close>

definition defaultChildSaConf :: string where
  \<open>defaultChildSaConf = raw_lines
     [(0, ''{''),
      (2, ''"local_ts": ["0.0.0.0/0"],''),
      (2, ''"remote_ts": ["0.0.0.0/0"],''),
      (2, ''"esp_proposals":  ["aes128gcm16-modp2048", "aes-modp2048"],''),
      (2, ''"start_action": "none",''),
      (2, ''"close_action": "none",''),
      (2, ''"mode": "tunnel",''),
      (2, ''"policies": "no"''),
      (1, ''}'')]\<close>

text \<open>\<^verbatim>\<open>path.Join\<close> of two elements, with \<^verbatim>\<open>path.Clean\<close>.\<close>

fun clean_parts :: "bool \<Rightarrow> string list \<Rightarrow> string list \<Rightarrow> string list" where
  "clean_parts rooted acc [] = rev acc"
| "clean_parts rooted acc (p # ps) =
     (if p = [] \<or> p = ''.'' then clean_parts rooted acc ps
      else if p = ''..'' then
        (case acc of
           [] \<Rightarrow> clean_parts rooted (if rooted then [] else [p]) ps
         | q # qs \<Rightarrow> clean_parts rooted (if q = ''..'' then p # acc else qs) ps)
      else clean_parts rooted (p # acc) ps)"

definition path_clean :: "string \<Rightarrow> string" where
  "path_clean p =
     (let rooted = hasPrefix p ''/''; s = join ''/'' (clean_parts rooted [] (split_on CHR ''/'' p))
      in if rooted then CHR ''/'' # s else if s = [] then ''.'' else s)"

definition path_join :: "string \<Rightarrow> string \<Rightarrow> string" where
  "path_join a b =
     (if a = [] \<and> b = [] then []
      else path_clean (if a = [] then b else if b = [] then a else a @ ''/'' @ b))"

definition errNotExist :: go_error where "errNotExist = EnvError ''file does not exist''"

definition loadBytes ::
  "'w ipsec_env \<Rightarrow> Templates \<Rightarrow> string \<Rightarrow> string \<Rightarrow> 'w \<Rightarrow> string result \<times> 'w" where
  "loadBytes env t f defaultBytes w =
     (case env_ReadFile env (path_join (tm_ConfigDir t) f) w of
        (Inl e, w') \<Rightarrow> (if e = errNotExist then Inr defaultBytes else Inl e, w')
      | (Inr bytes, w') \<Rightarrow> (Inr bytes, w'))"

definition Templates_Reload ::
  "'w ipsec_env \<Rightarrow> Templates \<Rightarrow> 'w \<Rightarrow> go_error option \<times> Templates \<times> 'w" where
  "Templates_Reload env t w =
     (case loadBytes env t ikeConfName defaultIkeConf w of
        (Inl e, w1) \<Rightarrow> (Some e, t\<lparr>tm_ikeConf := []\<rparr>, w1)
      | (Inr ike, w1) \<Rightarrow>
        let t1 = t\<lparr>tm_ikeConf := ike\<rparr>
        in case snd (unmarshal dec_ike zeroIke ike) of
             Some e \<Rightarrow> (Some e, t1, w1)
           | None \<Rightarrow>
             (case loadBytes env t1 childSaConfName defaultChildSaConf w1 of
                (Inl e, w2) \<Rightarrow> (Some e, t1\<lparr>tm_childSaConf := []\<rparr>, w2)
              | (Inr child, w2) \<Rightarrow>
                let t2 = t1\<lparr>tm_childSaConf := child\<rparr>
                in case snd (unmarshal dec_child zeroChild child) of
                     Some e \<Rightarrow> (Some e, t2, w2)
                   | None \<Rightarrow> (None, t2\<lparr>tm_revision := hexString (sha1 (ike @ child))\<rparr>, w2)))"

definition Revision :: "Templates \<Rightarrow> string" where "Revision t = tm_revision t"

definition NewIkeConf :: "Templates \<Rightarrow> IKEConnectionConfig" where
  "NewIkeConf t =
     (let resp = fst (unmarshal dec_ike zeroIke (tm_ikeConf t))
      in if k_Unique resp = [] then resp\<lparr>k_Unique := ''replace''\<rparr> else resp)"

definition NewChildSaConf :: "Templates \<Rightarrow> ChildSAConf" where
  "NewChildSaConf t = fst (unmarshal dec_child zeroChild (tm_childSaConf t))"

section \<open>The connection of a peer host\<close>

definition filter_algos :: "string list \<Rightarrow> string list \<Rightarrow> string list" where
  "filter_algos blacklist algos = filter (\<lambda>algo. \<not> list_ex (hasPrefix algo) blacklist) algos"

definition host_identity ::
  "Templates \<Rightarrow> string list \<Rightarrow> string \<Rightarrow> string \<Rightarrow> string \<Rightarrow> bool \<Rightarrow> connectionIdentity" where
  "host_identity templates blacklist localAgentIP localTunnelIP remoteIP hostTunnelSource =
     (let child0 = NewChildSaConf templates;
          child1 = child0\<lparr>ch_ESPProposals := filter_algos blacklist (ch_ESPProposals child0), ch_ReqID := reqIdStr\<rparr>;
          child = (if remoteIP < localAgentIP then child1\<lparr>ch_RekeyTime := ''8760h''\<rparr> else child1);
          conf0 = NewIkeConf templates;
          conf1 = conf0\<lparr>k_Proposals := filter_algos blacklist (k_Proposals conf0)\<rparr>;
          conf2 = (if hostTunnelSource then conf1\<lparr>k_LocalAddrs := Some [localTunnelIP]\<rparr> else conf1);
          conf = conf2\<lparr>k_RemoteAddrs := [remoteIP], k_Children := [(''child-'' @ remoteIP, child)]\<rparr>
      in \<lparr>TemplateRevision = Revision templates, LocalAgentIP = localAgentIP, LocalTunnelIP = localTunnelIP,
          HostTunnelSource = hostTunnelSource, Connection = conf\<rparr>)"

definition fingerprint :: "connectionIdentity \<Rightarrow> string" where
  "fingerprint i = render (enc_identity i)"

text \<open>The structure holds only strings, lists and maps of them and a boolean, so printing it cannot fail.\<close>

definition hostConnectionConfig ::
  "Templates \<Rightarrow> string list \<Rightarrow> string \<Rightarrow> string \<Rightarrow> string \<Rightarrow> bool \<Rightarrow> (IKEConnectionConfig \<times> string) result" where
  "hostConnectionConfig templates blacklist localAgentIP localTunnelIP remoteIP hostTunnelSource =
     (let i = host_identity templates blacklist localAgentIP localTunnelIP remoteIP hostTunnelSource
      in Inr (Connection i, fingerprint i))"

section \<open>Loading\<close>

definition loadIKEConnection ::
  "'w ipsec_env \<Rightarrow> string \<Rightarrow> IKEConnectionConfig \<Rightarrow> 'w \<Rightarrow> go_error option \<times> 'w" where
  "loadIKEConnection env name conf w =
     (case convertToGeneral (JObj [(quote name, enc_ike conf)]) of
        Inl e \<Rightarrow> (Some (Wrapf ''encode IKE connection: %w'' [] e), w)
      | Inr request \<Rightarrow>
        (case env_Request env ''load-conn'' request w of
           (Inl e, w') \<Rightarrow> (Some e, w')
         | (Inr response, w') \<Rightarrow>
             (if succeeded response then None
              else Some (Errorf ''load IKE connection: %v'' [errmsg response]), w')))"

fun load_attempts ::
  "'w ipsec_env \<Rightarrow> nat \<Rightarrow> string \<Rightarrow> IKEConnectionConfig \<Rightarrow> go_error option \<Rightarrow> 'w \<Rightarrow> go_error option \<times> 'w" where
  "load_attempts env 0 name conf err w = (err, w)"
| "load_attempts env (Suc n) name conf err w =
     (case loadIKEConnection env name conf w of
        (None, w') \<Rightarrow> (None, w')
      | (Some e, w') \<Rightarrow> load_attempts env n name conf (Some e) w')"

text \<open>
  Whether a previous load is evidence that an old local address was ours, and the identity under
  which charon knows it.
\<close>

definition transition_proof :: "string \<Rightarrow> connectionIdentity \<Rightarrow> connectionIdentity \<Rightarrow> bool" where
  "transition_proof remoteIP previous current \<longleftrightarrow>
     HostTunnelSource previous \<and> HostTunnelSource current \<and> LocalAgentIP previous \<noteq> LocalAgentIP current \<and>
     parseIP (LocalAgentIP previous) \<noteq> [] \<and> parseIP (LocalAgentIP current) \<noteq> [] \<and>
     k_LocalAddrs (Connection previous) = Some [LocalAgentIP previous] \<and>
     k_RemoteAddrs (Connection previous) = [remoteIP] \<and>
     a_AuthMethod (k_LocalAuth (Connection previous)) = ''psk'' \<and>
     length (k_Children (Connection previous)) = 1 \<and>
     ch_ReqID (mgetd zeroChild (k_Children (Connection previous)) (''child-'' @ remoteIP)) = reqIdStr"

definition previous_id :: "connectionIdentity \<Rightarrow> string" where
  "previous_id previous =
     (let i = a_ID (k_LocalAuth (Connection previous)) in if i = [] then LocalAgentIP previous else i)"

definition queue_stale ::
  "string \<Rightarrow> string \<Rightarrow> string \<Rightarrow> string gomap gomap \<Rightarrow> string gomap gomap" where
  "queue_stale remoteIP old new staleLocal =
     (let (previous, e1) = unmarshal dec_identity zeroIdentity old;
          (current, e2) = unmarshal dec_identity zeroIdentity new
      in if e1 = None \<and> e2 = None \<and> transition_proof remoteIP previous current \<and>
            \<not> hasPrefix (previous_id previous) ''%''
         then mput remoteIP (mput (LocalAgentIP previous) (previous_id previous) (mgetd [] staleLocal remoteIP)) staleLocal
         else staleLocal)"

definition loadHostConnection ::
  "'w ipsec_env \<Rightarrow> string \<Rightarrow> IKEConnectionConfig \<Rightarrow> string \<Rightarrow> string gomap \<Rightarrow> string gomap gomap \<Rightarrow> 'w \<Rightarrow>
   go_error option \<times> string gomap \<times> string gomap gomap \<times> 'w" where
  "loadHostConnection env remoteIP conf fp hosts staleLocal w =
     (if mgetd [] hosts remoteIP = fp then (None, hosts, staleLocal, w)
      else case load_attempts env 3 (''conn-'' @ remoteIP) conf None w of
        (Some e, w') \<Rightarrow> (Some e, hosts, staleLocal, w')
      | (None, w') \<Rightarrow>
          (None, mput remoteIP fp hosts, queue_stale remoteIP (mgetd [] hosts remoteIP) fp staleLocal, w'))"

section \<open>Terminating\<close>

definition terminate_request :: "string \<Rightarrow> gval gomap" where
  "terminate_request uid = [(''ike-id'', GStr uid), (''force'', GStr ''yes''), (''timeout'', GStr ''1000'')]"

definition terminateIKEID :: "'w ipsec_env \<Rightarrow> string \<Rightarrow> 'w \<Rightarrow> go_error option \<times> 'w" where
  "terminateIKEID env uid w =
     (case env_Request env ''terminate'' (terminate_request uid) w of
        (Inl e, w') \<Rightarrow> (Some e, w')
      | (Inr response, w') \<Rightarrow>
          (if \<not> succeeded response \<and> map_of response ''matches'' \<noteq> Some (GStr ''0'')
           then Some (Errorf ''terminate stale IKE_SA %s: %v'' [uid, errmsg response]) else None, w'))"

fun terminate_all :: "'w ipsec_env \<Rightarrow> string list \<Rightarrow> 'w \<Rightarrow> go_error option \<times> 'w" where
  "terminate_all env [] w = (None, w)"
| "terminate_all env (uid # ids) w =
     (case terminateIKEID env uid w of
        (Some e, w') \<Rightarrow> (Some e, w')
      | (None, w') \<Rightarrow> terminate_all env ids w')"

definition reapStaleLocalSAs ::
  "'w ipsec_env \<Rightarrow> string \<Rightarrow> bool gomap \<Rightarrow> string gomap gomap \<Rightarrow> 'w \<Rightarrow>
   go_error option \<times> string gomap gomap \<times> 'w" where
  "reapStaleLocalSAs env currentLocalIP expectedHosts staleLocal w =
     (if staleLocal = [] then (None, staleLocal, w)
      else case env_ListSas env w of
        (Inl e, w1) \<Rightarrow> (Some e, staleLocal, w1)
      | (Inr sas, w1) \<Rightarrow>
        (case terminate_all env (staleLocalIKEIDs sas currentLocalIP expectedHosts staleLocal) w1 of
           (Some e, w2) \<Rightarrow> (Some e, staleLocal, w2)
         | (None, w2) \<Rightarrow> (None, filter (\<lambda>(h, _). \<not> mtest expectedHosts h) staleLocal, w2)))"

section \<open>Decoding a printed identity gives the identity\<close>

lemma auth_find [simp]:
  "find_field auth_fields ''id'' = Some (field ''id'' dec_string a_ID a_ID_update)"
  "find_field auth_fields ''round'' = Some (field ''round'' dec_string a_Round a_Round_update)"
  "find_field auth_fields ''auth'' = Some (field ''auth'' dec_string a_AuthMethod a_AuthMethod_update)"
  "find_field auth_fields ''eap_id'' = Some (field ''eap_id'' dec_string a_EAP_ID a_EAP_ID_update)"
  "find_field auth_fields ''pubkeys'' = Some (field ''pubkeys'' dec_strings a_PubKeys a_PubKeys_update)"
  by (simp_all add: auth_fields_def find_field_def)

lemma child_find [simp]:
  "find_field child_fields ''local_ts'' = Some (field ''local_ts'' (dec_slice dec_string []) ch_Local_ts ch_Local_ts_update)"
  "find_field child_fields ''remote_ts'' = Some (field ''remote_ts'' (dec_slice dec_string []) ch_Remote_ts ch_Remote_ts_update)"
  "find_field child_fields ''esp_proposals'' = Some (field ''esp_proposals'' dec_strings ch_ESPProposals ch_ESPProposals_update)"
  "find_field child_fields ''start_action'' = Some (field ''start_action'' dec_string ch_StartAction ch_StartAction_update)"
  "find_field child_fields ''close_action'' = Some (field ''close_action'' dec_string ch_CloseAction ch_CloseAction_update)"
  "find_field child_fields ''reqid'' = Some (field ''reqid'' dec_string ch_ReqID ch_ReqID_update)"
  "find_field child_fields ''rekey_time'' = Some (field ''rekey_time'' dec_string ch_RekeyTime ch_RekeyTime_update)"
  "find_field child_fields ''replay_window'' = Some (field ''replay_window'' dec_string ch_ReplayWindow ch_ReplayWindow_update)"
  "find_field child_fields ''mode'' = Some (field ''mode'' dec_string ch_Mode ch_Mode_update)"
  "find_field child_fields ''policies'' = Some (field ''policies'' dec_string ch_InstallPolicy ch_InstallPolicy_update)"
  "find_field child_fields ''updown'' = Some (field ''updown'' dec_string ch_UpDown ch_UpDown_update)"
  "find_field child_fields ''priority'' = Some (field ''priority'' dec_string ch_Priority ch_Priority_update)"
  "find_field child_fields ''mark_in'' = Some (field ''mark_in'' dec_string ch_MarkIn ch_MarkIn_update)"
  "find_field child_fields ''mark_out'' = Some (field ''mark_out'' dec_string ch_MarkOut ch_MarkOut_update)"
  "find_field child_fields ''dpd_action'' = Some (field ''dpd_action'' dec_string ch_DpdAction ch_DpdAction_update)"
  "find_field child_fields ''life_time'' = Some (field ''life_time'' dec_string ch_LifeTime ch_LifeTime_update)"
  by (simp_all add: child_fields_def find_field_def)

lemma ike_find [simp]:
  "find_field ike_fields ''local_addrs'' = Some (field ''local_addrs'' (dec_slice dec_string []) k_LocalAddrs k_LocalAddrs_update)"
  "find_field ike_fields ''remote_addrs'' = Some (field ''remote_addrs'' dec_strings k_RemoteAddrs k_RemoteAddrs_update)"
  "find_field ike_fields ''local_port'' = Some (field ''local_port'' dec_string k_LocalPort k_LocalPort_update)"
  "find_field ike_fields ''remote_port'' = Some (field ''remote_port'' dec_string k_RemotePort k_RemotePort_update)"
  "find_field ike_fields ''proposals'' = Some (field ''proposals'' dec_strings k_Proposals k_Proposals_update)"
  "find_field ike_fields ''vips'' = Some (field ''vips'' dec_strings k_Vips k_Vips_update)"
  "find_field ike_fields ''version'' = Some (field ''version'' dec_string k_Version k_Version_update)"
  "find_field ike_fields ''encap'' = Some (field ''encap'' dec_string k_Encap k_Encap_update)"
  "find_field ike_fields ''keyingtries'' = Some (field ''keyingtries'' dec_string k_KeyingTries k_KeyingTries_update)"
  "find_field ike_fields ''rekey_time'' = Some (field ''rekey_time'' dec_string k_RekeyTime k_RekeyTime_update)"
  "find_field ike_fields ''dpd_delay'' = Some (field ''dpd_delay'' dec_string k_DPDDelay k_DPDDelay_update)"
  "find_field ike_fields ''local'' = Some (field ''local'' (dec_struct False auth_fields) k_LocalAuth k_LocalAuth_update)"
  "find_field ike_fields ''remote'' = Some (field ''remote'' (dec_struct False auth_fields) k_RemoteAuth k_RemoteAuth_update)"
  "find_field ike_fields ''pools'' = Some (field ''pools'' dec_strings k_Pools k_Pools_update)"
  "find_field ike_fields ''children'' = Some (field ''children'' (dec_map (dec_struct False child_fields) zeroChild) k_Children k_Children_update)"
  "find_field ike_fields ''mobike'' = Some (field ''mobike'' dec_string k_Mobike k_Mobike_update)"
  "find_field ike_fields ''unique'' = Some (field ''unique'' dec_string k_Unique k_Unique_update)"
  by (simp_all add: ike_fields_def find_field_def)

lemma identity_find [simp]:
  "find_field identity_fields ''TemplateRevision'' = Some (field ''TemplateRevision'' dec_string TemplateRevision TemplateRevision_update)"
  "find_field identity_fields ''LocalAgentIP'' = Some (field ''LocalAgentIP'' dec_string LocalAgentIP LocalAgentIP_update)"
  "find_field identity_fields ''LocalTunnelIP'' = Some (field ''LocalTunnelIP'' dec_string LocalTunnelIP LocalTunnelIP_update)"
  "find_field identity_fields ''HostTunnelSource'' = Some (field ''HostTunnelSource'' dec_bool HostTunnelSource HostTunnelSource_update)"
  "find_field identity_fields ''Connection'' = Some (field ''Connection'' dec_ike Connection Connection_update)"
  by (simp_all add: identity_fields_def find_field_def)

lemma dec_string_empty [simp]: "dec_string (JStr []) cur = ([], None)"
  by (simp add: dec_string_def)

definition auth_utf8 :: "AuthConf \<Rightarrow> bool" where
  "auth_utf8 a \<longleftrightarrow> utf8_ok (a_ID a) \<and> utf8_ok (a_Round a) \<and> utf8_ok (a_AuthMethod a) \<and> utf8_ok (a_EAP_ID a) \<and>
     list_all utf8_ok (a_PubKeys a)"

lemma dec_auth_enc: "auth_utf8 a \<Longrightarrow> dec_struct False auth_fields (enc_auth a) zeroAuth = (a, None)"
  by (simp add: dec_struct_def enc_auth_def auth_utf8_def zeroAuth_def struct_eval)


definition child_utf8 :: "ChildSAConf \<Rightarrow> bool" where
  "child_utf8 c \<longleftrightarrow> slice_utf8 (ch_Local_ts c) \<and> slice_utf8 (ch_Remote_ts c) \<and>
     list_all utf8_ok (ch_ESPProposals c) \<and>
     list_all utf8_ok [ch_StartAction c, ch_CloseAction c, ch_ReqID c, ch_RekeyTime c, ch_ReplayWindow c, ch_Mode c,
       ch_InstallPolicy c, ch_UpDown c, ch_Priority c, ch_MarkIn c, ch_MarkOut c, ch_DpdAction c, ch_LifeTime c]"

lemma dec_child_enc: "child_utf8 c \<Longrightarrow> dec_child (enc_child c) zeroChild = (c, None)"
  by (simp add: dec_struct_def enc_child_def child_utf8_def zeroChild_def struct_eval)


definition ike_utf8 :: "IKEConnectionConfig \<Rightarrow> bool" where
  "ike_utf8 k \<longleftrightarrow> slice_utf8 (k_LocalAddrs k) \<and>
     list_all (list_all utf8_ok) [k_RemoteAddrs k, k_Proposals k, k_Vips k, k_Pools k] \<and>
     list_all utf8_ok [k_LocalPort k, k_RemotePort k, k_Version k, k_Encap k, k_KeyingTries k, k_RekeyTime k,
       k_DPDDelay k, k_Mobike k, k_Unique k] \<and>
     auth_utf8 (k_LocalAuth k) \<and> auth_utf8 (k_RemoteAuth k) \<and>
     sorted (map fst (k_Children k)) \<and> gomap_ok (k_Children k) \<and>
     list_all (\<lambda>(n, c). utf8_ok n \<and> child_utf8 c) (k_Children k)"

lemma mput_new: "k \<notin> fst ` set m \<Longrightarrow> mput k v m = m @ [(k, v)]"
  unfolding mput_def by (induction m) auto

lemma dec_map_fold:
  assumes "list_all (\<lambda>(k, x). utf8_ok k \<and> d (f x) z = (x, None)) m" "distinct (map fst (acc @ m))"
  shows "foldl (\<lambda>(m, e) (k, v). let (x, e') = d v z in (mput (unquote k) x m, orElse e e')) (acc, None)
    (map (\<lambda>(k, v). (quote k, f v)) m) = (acc @ m, None)"
  using assms
proof (induction m arbitrary: acc)
  case (Cons p m)
  obtain k x where p: "p = (k, x)" by (cases p)
  have "mput k x acc = acc @ [(k, x)]"
    using Cons.prems(2) by (intro mput_new) (simp add: p)
  then show ?case using Cons.prems Cons.IH[of "acc @ [(k, x)]"] by (simp add: p unquote_quote)
qed simp

lemma dec_map_enc:
  assumes "list_all (\<lambda>(k, x). utf8_ok k \<and> d (f x) z = (x, None)) m" "sorted (map fst m)" "gomap_ok m"
  shows "dec_map d z (enc_map f m) [] = (m, None)"
proof -
  have "sort_key fst m = m" using assms(2) by (rule sort_key_id_if_sorted)
  then show ?thesis
    using dec_map_fold[of d f z m "[]"] assms by (simp add: dec_map_def enc_map_def gomap_ok_def)
qed

lemma dec_ike_enc: "ike_utf8 k \<Longrightarrow> dec_ike (enc_ike k) zeroIke = (k, None)"
proof -
  assume k: "ike_utf8 k"
  have "dec_map dec_child zeroChild (enc_map enc_child (k_Children k)) [] = (k_Children k, None)"
    using k by (intro dec_map_enc) (auto simp: ike_utf8_def list_all_iff dec_child_enc)
  then show ?thesis
    using k by (simp add: dec_struct_def[where fs = ike_fields] enc_ike_def ike_utf8_def zeroIke_def
        struct_eval dec_auth_enc)
qed

definition identity_utf8 :: "connectionIdentity \<Rightarrow> bool" where
  "identity_utf8 i \<longleftrightarrow> utf8_ok (TemplateRevision i) \<and> utf8_ok (LocalAgentIP i) \<and> utf8_ok (LocalTunnelIP i) \<and>
     ike_utf8 (Connection i)"

lemma dec_identity_enc: "identity_utf8 i \<Longrightarrow> dec_identity (enc_identity i) zeroIdentity = (i, None)"
  by (simp add: dec_struct_def[where fs = identity_fields] enc_identity_def identity_utf8_def
      zeroIdentity_def struct_eval dec_ike_enc dec_bool_def)


lemma depth_obj_le: "depth (JObj ms) \<le> Suc n \<longleftrightarrow> list_all (\<lambda>(k, v). depth v \<le> n) ms"
  by (induction ms) auto

lemma depth_string [simp]: "depth (JStr s) \<le> n" "depth (JBool b) \<le> n"
  by simp_all

lemma depth_lists [simp]: "depth (enc_list xs) \<le> Suc n" "depth (enc_slice ys) \<le> Suc n"
  using depth_enc(2)[of ys] by simp_all

lemma list_all_omit [simp]: "list_all P (omit b m) \<longleftrightarrow> b \<or> P m"
  by (simp add: omit_def)

lemma list_all_map: "list_all P (map f xs) \<longleftrightarrow> list_all (\<lambda>x. P (f x)) xs"
  by (induction xs) auto

lemma depth_auth: "depth (enc_auth a) \<le> Suc (Suc n)"
  unfolding enc_auth_def depth_obj_le by simp

lemma depth_child: "depth (enc_child c) \<le> Suc (Suc n)"
  unfolding enc_child_def depth_obj_le by simp

lemma depth_children: "depth (enc_map enc_child m) \<le> Suc (Suc (Suc n))"
  unfolding enc_map_def depth_obj_le list_all_map by (simp add: list_all_iff depth_child case_prod_beta)

lemma depth_ike: "depth (enc_ike k) \<le> Suc (Suc (Suc (Suc n)))"
  unfolding enc_ike_def depth_obj_le by (simp add: depth_children depth_auth)

lemma depth_identity: "depth (enc_identity i) \<le> Suc (Suc (Suc (Suc (Suc n))))"
  unfolding enc_identity_def depth_obj_le by (simp add: depth_ike)

lemma depth_max: "depth j \<le> 6 \<Longrightarrow> depth j \<le> maxNestingDepth"
  by (simp add: maxNestingDepth_def)

lemma json_ok_auth [simp]: "json_ok (enc_auth a)"
  by (simp add: enc_auth_def str_ok_plain plain_char_def)

lemma json_ok_child [simp]: "json_ok (enc_child c)"
  by (simp add: enc_child_def str_ok_plain plain_char_def)

lemma json_ok_children [simp]: "json_ok (enc_map enc_child m)"
  by (simp add: enc_map_def list_all_iff case_prod_beta)

lemma json_ok_ike [simp]: "json_ok (enc_ike k)"
  by (simp add: enc_ike_def str_ok_plain plain_char_def)

lemma json_ok_identity [simp]: "json_ok (enc_identity i)"
  by (simp add: enc_identity_def str_ok_plain plain_char_def)

lemma unmarshal_fingerprint:
  "identity_utf8 i \<Longrightarrow> unmarshal dec_identity zeroIdentity (fingerprint i) = (i, None)"
proof -
  have "depth (enc_identity i) \<le> maxNestingDepth"
    using depth_identity[of i 1] by (intro depth_max) simp
  then show "identity_utf8 i \<Longrightarrow> ?thesis"
    by (simp add: fingerprint_def unmarshal_render[OF json_ok_identity] dec_identity_enc)
qed

lemma unmarshal_empty: "unmarshal d cur [] = (cur, Some syntax_error)"
  by (simp add: unmarshal_def json_parse_def)

section \<open>Requests\<close>

definition load_request :: "string \<Rightarrow> IKEConnectionConfig \<Rightarrow> gval gomap" where
  "load_request name conf = [(unquote (quote name), general (enc_ike conf))]"

lemma convertToGeneral_ike: "convertToGeneral (JObj [(quote name, enc_ike conf)]) = Inr (load_request name conf)"
proof -
  have "depth (JObj [(quote name, enc_ike conf)]) \<le> Suc (Suc (Suc (Suc (Suc 1))))"
    unfolding depth_obj_le using depth_ike[of conf 1] by simp
  then have "depth (JObj [(quote name, enc_ike conf)]) \<le> maxNestingDepth"
    by (intro depth_max) simp
  then have "json_parse (render (JObj [(quote name, enc_ike conf)])) = Some (JObj [(quote name, enc_ike conf)])"
    by (intro json_parse_render) simp_all
  then show ?thesis by (simp add: convertToGeneral_def load_request_def mput_def)
qed


text \<open>An environment that records the VICI requests the program makes.\<close>

type_synonym vici_log = "(string \<times> gval gomap) list"

definition lifted :: "('w \<Rightarrow> 'r \<times> 'w) \<Rightarrow> 'w \<times> 'l \<Rightarrow> 'r \<times> 'w \<times> 'l" where
  "lifted f wl = (let (r, w') = f (fst wl) in (r, w', snd wl))"

definition logged :: "'w ipsec_env \<Rightarrow> ('w \<times> vici_log) ipsec_env" where
  "logged env = \<lparr>
     env_Dial = lifted (env_Dial env),
     env_Close = (\<lambda>(w, l). (env_Close env w, l)),
     env_Request = (\<lambda>cmd msg (w, l). let (r, w') = env_Request env cmd msg w in (r, w', l @ [(cmd, msg)])),
     env_ListSas = lifted (env_ListSas env),
     env_ListConns = lifted (env_ListConns env),
     env_NewHandle = lifted (env_NewHandle env),
     env_GetNetns = (\<lambda>p. lifted (env_GetNetns env p)),
     env_NewHandleAt = (\<lambda>p. lifted (env_NewHandleAt env p)),
     env_PolicyList = lifted (env_PolicyList env),
     env_PolicyDel = (\<lambda>p. lifted (env_PolicyDel env p)),
     env_PolicyAdd = (\<lambda>p. lifted (env_PolicyAdd env p)),
     env_RouteGet = (\<lambda>ip. lifted (env_RouteGet env ip)),
     env_LinkByIndex = (\<lambda>i. lifted (env_LinkByIndex env i)),
     env_RouteList = lifted (env_RouteList env),
     env_Exec = (\<lambda>c args. lifted (env_Exec env c args)),
     env_ReadFile = (\<lambda>f. lifted (env_ReadFile env f)),
     env_Kill = (\<lambda>p. lifted (env_Kill env p))\<rparr>"

lemma logged_Request:
  "env_Request (logged env) cmd msg (w, l) =
   (fst (env_Request env cmd msg w), snd (env_Request env cmd msg w), l @ [(cmd, msg)])"
  by (simp add: logged_def case_prod_beta)

lemma logged_ListSas:
  "env_ListSas (logged env) (w, l) = (fst (env_ListSas env w), snd (env_ListSas env w), l)"
  by (simp add: logged_def lifted_def case_prod_beta)

lemma loadIKEConnection_log:
  "\<exists>err w'. loadIKEConnection (logged env) name conf (w, l) = (err, w', l @ [(''load-conn'', load_request name conf)])"
  by (simp add: loadIKEConnection_def convertToGeneral_ike logged_Request split: sum.split)

lemma load_attempts_log:
  "\<exists>err' w' n. load_attempts (logged env) k name conf err (w, l) =
      (err', w', l @ replicate n (''load-conn'', load_request name conf)) \<and> n \<le> k \<and> (0 < k \<longrightarrow> 0 < n)"
proof (induction k arbitrary: err w l)
  case (Suc k)
  let ?q = "(''load-conn'', load_request name conf)"
  obtain e w1 where e: "loadIKEConnection (logged env) name conf (w, l) = (e, w1, l @ [?q])"
    using loadIKEConnection_log[of env name conf w l] by (elim exE)
  show ?case
  proof (cases e)
    case None
    then show ?thesis by (intro exI[of _ None] exI[of _ w1] exI[of _ 1]) (simp add: e)
  next
    case (Some err1)
    obtain err2 w2 n where "load_attempts (logged env) k name conf (Some err1) (w1, l @ [?q]) =
        (err2, w2, (l @ [?q]) @ replicate n ?q)" "n \<le> k"
      using Suc.IH[of "Some err1" w1 "l @ [?q]"] by (elim exE conjE)
    then show ?thesis
      by (intro exI[of _ err2] exI[of _ w2] exI[of _ "Suc n"]) (simp add: e Some)
  qed
qed simp

text \<open>
  C13. Loading the connection of a peer host: if the recorded fingerprint is the wanted one, nothing
  happens. Otherwise between one and three identical \<^verbatim>\<open>load-conn\<close> requests are made and nothing
  else is asked of charon; the fingerprint of this host, and of no other, is replaced only if one of
  them succeeded, and after a failure both the fingerprints and the queue of old local addresses
  are what they were.
\<close>

theorem load_host_connection:
  "\<exists>err hosts' stale' w' n.
     loadHostConnection (logged env) remoteIP conf fp hosts stale (w, l) =
       (err, hosts', stale', w', l @ replicate n (''load-conn'', load_request (''conn-'' @ remoteIP) conf)) \<and>
     n \<le> 3 \<and> (n = 0 \<longleftrightarrow> mgetd [] hosts remoteIP = fp) \<and>
     hosts' = (if err = None \<and> 0 < n then mput remoteIP fp hosts else hosts) \<and>
     (err = None \<and> 0 < n \<or> stale' = stale)"
proof (cases "mgetd [] hosts remoteIP = fp")
  case True
  then show ?thesis by (auto simp: loadHostConnection_def)
next
  case False
  let ?q = "(''load-conn'', load_request (''conn-'' @ remoteIP) conf)"
  obtain err w' n where a: "load_attempts (logged env) 3 (''conn-'' @ remoteIP) conf None (w, l) =
      (err, w', l @ replicate n ?q)" "n \<le> 3" "0 < n"
    using load_attempts_log[of env 3 "''conn-'' @ remoteIP" conf None w l] by auto
  show ?thesis
  proof (cases err)
    case None
    with False a show ?thesis
      by (intro exI[of _ None] exI[of _ "mput remoteIP fp hosts"]
          exI[of _ "queue_stale remoteIP (mgetd [] hosts remoteIP) fp stale"] exI[of _ w'] exI[of _ n])
        (simp add: loadHostConnection_def)
  next
    case (Some e)
    with False a show ?thesis
      by (intro exI[of _ "Some e"] exI[of _ hosts] exI[of _ stale] exI[of _ w'] exI[of _ n])
        (simp add: loadHostConnection_def)
  qed
qed


text \<open>The identities of one peer before and after the local address changed, from the default templates.\<close>

definition example_templates :: Templates where
  "example_templates = \<lparr>tm_ConfigDir = ''/etc/ipsec'', tm_ikeConf = defaultIkeConf,
     tm_childSaConf = defaultChildSaConf, tm_revision = ''r1''\<rparr>"

definition example_identity :: "string list \<Rightarrow> string \<Rightarrow> connectionIdentity" where
  "example_identity blacklist ip = host_identity example_templates blacklist ip ip ''192.0.2.20'' True"


text \<open>
  C16. The fingerprint identifies the connection: two identities with the same fingerprint agree in
  the template revision, the local addresses, the tunnel mode and every field of the connection.
\<close>

theorem fingerprint_injective:
  assumes "identity_utf8 i" "identity_utf8 j" "fingerprint i = fingerprint j"
  shows "i = j"
proof -
  have "(i, None :: go_error option) = unmarshal dec_identity zeroIdentity (fingerprint i)"
    by (simp only: unmarshal_fingerprint[OF assms(1)])
  also have "\<dots> = (j, None)"
    by (simp only: assms(3) unmarshal_fingerprint[OF assms(2)])
  finally show ?thesis by (simp only: prod.inject)
qed

theorem fingerprint_injective_witness:
  "example_identity [] ''192.0.2.9'' = example_identity [''blowfish''] ''192.0.2.9''"
proof (rule fingerprint_injective)
  show "identity_utf8 (example_identity [] ''192.0.2.9'')" by code_simp
  show "identity_utf8 (example_identity [''blowfish''] ''192.0.2.9'')" by code_simp
  show "fingerprint (example_identity [] ''192.0.2.9'') = fingerprint (example_identity [''blowfish''] ''192.0.2.9'')"
    by code_simp
qed

abbreviation terminations :: "string list \<Rightarrow> vici_log" where
  "terminations ids \<equiv> map (\<lambda>i. (''terminate'', terminate_request i)) ids"

lemma terminateIKEID_log:
  "\<exists>e w'. terminateIKEID (logged env) i (w, l) = (e, w', l @ terminations [i])"
  by (simp add: terminateIKEID_def logged_Request split: sum.split)

lemma terminate_all_log:
  "\<exists>err w' n. terminate_all (logged env) ids (w, l) = (err, w', l @ terminations (take n ids)) \<and>
    (err = None \<longrightarrow> n = length ids)"
proof (induction ids arbitrary: w l)
  case (Cons i ids)
  obtain e w1 where e: "terminateIKEID (logged env) i (w, l) = (e, w1, l @ terminations [i])"
    using terminateIKEID_log[of env i w l] by (elim exE)
  show ?case
  proof (cases e)
    case None
    obtain err w' n where "terminate_all (logged env) ids (w1, l @ terminations [i]) =
        (err, w', (l @ terminations [i]) @ terminations (take n ids))" "err = None \<longrightarrow> n = length ids"
      using Cons.IH[of w1 "l @ terminations [i]"] by (elim exE conjE)
    then show ?thesis
      by (intro exI[of _ err] exI[of _ w'] exI[of _ "Suc n"]) (simp add: e None)
  next
    case (Some er)
    then show ?thesis by (intro exI[of _ "Some er"] exI[of _ w1] exI[of _ 1]) (simp add: e)
  qed
qed simp

text \<open>
  C19. Cleaning up after a change of the local address asks charon for nothing but the termination,
  by unique identifier, of associations that the listing showed to be stale, in order. The queued
  authority of the expected hosts is consumed exactly when all of them were terminated; after any
  error it is kept whole.
\<close>

theorem reap_stale_local:
  "\<exists>err stale' w' n.
     reapStaleLocalSAs (logged env) currentIP expected stale (w, l) =
       (err, stale', w', l @ (case fst (env_ListSas env w) of
          Inl _ \<Rightarrow> [] | Inr sas \<Rightarrow> terminations (take n (staleLocalIKEIDs sas currentIP expected stale)))) \<and>
     (case err of
        Some _ \<Rightarrow> stale' = stale
      | None \<Rightarrow> stale' = filter (\<lambda>(h, _). \<not> mtest expected h) stale \<and>
          (stale = [] \<or>
           (\<exists>sas. fst (env_ListSas env w) = Inr sas \<and> n = length (staleLocalIKEIDs sas currentIP expected stale))))"
proof (cases "stale = []")
  case True
  then show ?thesis
    by (intro exI[of _ None] exI[of _ stale] exI[of _ w] exI[of _ 0])
      (simp add: reapStaleLocalSAs_def split: sum.split)
next
  case False
  show ?thesis
  proof (cases "fst (env_ListSas env w)")
    case (Inl e)
    with False show ?thesis
      by (intro exI[of _ "Some e"] exI[of _ stale] exI[of _ "snd (env_ListSas env w)"])
        (simp add: reapStaleLocalSAs_def logged_ListSas)
  next
    case (Inr sas)
    obtain err w' n where "terminate_all (logged env) (staleLocalIKEIDs sas currentIP expected stale)
        (snd (env_ListSas env w), l) = (err, w', l @ terminations (take n (staleLocalIKEIDs sas currentIP expected stale)))"
        "err = None \<longrightarrow> n = length (staleLocalIKEIDs sas currentIP expected stale)"
      using terminate_all_log[of env "staleLocalIKEIDs sas currentIP expected stale" "snd (env_ListSas env w)" l]
      by (elim exE conjE)
    with False Inr show ?thesis
      by (intro exI[of _ err] exI[of _ "if err = None then filter (\<lambda>(h, _). \<not> mtest expected h) stale else stale"]
          exI[of _ w'] exI[of _ n])
        (simp add: reapStaleLocalSAs_def logged_ListSas split: option.split)
  qed
qed

end
