(* ===== verification/Ipsec_Policy.thy ===== *)
theory Ipsec_Policy
  imports Ipsec_Conn
begin

text \<open>
  The XFRM policies of the IPsec backend (\<^verbatim>\<open>backend/ipsec/ipsec.go\<close>): the netlink handle, listing
  the installed policies by their key, the three policies of a remote entry, deleting and adding.
  The kernel is the environment; what the program relies on is the hypothesis \<open>xfrm_kernel\<close>.
\<close>

section \<open>Operations\<close>

definition Dir_String :: "dir \<Rightarrow> string" where
  "Dir_String d =
     (if d = XFRM_DIR_IN then ''dir in'' else if d = XFRM_DIR_OUT then ''dir out''
      else if d = XFRM_DIR_FWD then ''dir fwd'' else if d = 3 then ''socket in''
      else if d = 4 then ''socket out'' else if d = 5 then ''socket fwd''
      else ''socket '' @ itoa (unat (d - 3)))"

definition toKey :: "XfrmPolicy \<Rightarrow> string" where
  "toKey p =
     Dir_String (p_Dir p) @ ''-'' @
     (case p_Src p of None \<Rightarrow> [] | Some n \<Rightarrow> ipnet_string n) @ ''-'' @
     (case p_Dst p of None \<Rightarrow> [] | Some n \<Rightarrow> ipnet_string n) @ ''-'' @
     (case p_Tmpls p of
        [] \<Rightarrow> []
      | t # _ \<Rightarrow> ip_string (t_Src t) @ ''-'' @ ip_string (t_Dst t) @ ''-'' @ itoa_int (t_Reqid t))"

definition tunnel_template :: "go_ip \<Rightarrow> go_ip \<Rightarrow> XfrmPolicyTmpl" where
  "tunnel_template src dst =
     \<lparr>t_Dst = dst, t_Src = src, t_Proto = XFRM_PROTO_ESP, t_Mode = XFRM_MODE_TUNNEL, t_Spi = 0,
      t_Reqid = reqId, t_Optional = 0\<rparr>"

definition tunnel_policy :: "dir \<Rightarrow> ipnet \<Rightarrow> ipnet \<Rightarrow> XfrmPolicyTmpl \<Rightarrow> XfrmPolicy" where
  "tunnel_policy d src dst t =
     \<lparr>p_Dst = Some dst, p_Src = Some src, p_Proto = 0, p_DstPort = 0, p_SrcPort = 0, p_Dir = d,
      p_Priority = 10000, p_Index = 0, p_Action = 0, p_Ifindex = 0, p_Ifid = 0, p_Mark = None, p_Tmpls = [t]\<rparr>"

text \<open>The out, in and forward policies of a remote entry.\<close>

definition entry_policies :: "string \<Rightarrow> entry \<Rightarrow> XfrmPolicy list result" where
  "entry_policies localAddr e =
     (let localIp = parseIP localAddr; remoteHostIp = parseIP (HostIpAddress e)
      in case parseCIDR (IpAddress e) of
           None \<Rightarrow> Inl (cidr_error (IpAddress e))
         | Some (ip, ipNet) \<Rightarrow>
           (case parseCIDR (ip_string ip @ ''/32'') of
              None \<Rightarrow> Inl (cidr_error (ip_string ip @ ''/32''))
            | Some (_, ipDirectNet) \<Rightarrow>
                Inr [tunnel_policy XFRM_DIR_OUT ipNet ipDirectNet (tunnel_template localIp remoteHostIp),
                     tunnel_policy XFRM_DIR_IN ipDirectNet ipNet (tunnel_template remoteHostIp localIp),
                     tunnel_policy XFRM_DIR_FWD ipDirectNet ipNet (tunnel_template remoteHostIp localIp)]))"

type_synonym policies = "XfrmPolicy gomap"

definition want_policy :: "policies \<times> policies \<Rightarrow> XfrmPolicy \<Rightarrow> policies \<times> policies" where
  "want_policy acc p =
     (let (existing, toAdd) = acc; key = toKey p
      in if map_of existing key \<noteq> None then (mdel key existing, toAdd) else (existing, mput key p toAdd))"

definition addRules :: "string \<Rightarrow> entry \<Rightarrow> policies \<times> policies \<Rightarrow> go_error option \<times> policies \<times> policies" where
  "addRules localAddr e acc =
     (case entry_policies localAddr e of
        Inl err \<Rightarrow> (Some err, acc)
      | Inr ps \<Rightarrow> (None, foldl want_policy acc ps))"

definition xfrmHandle :: "'w ipsec_env \<Rightarrow> Overlay \<Rightarrow> 'w \<Rightarrow> go_error option \<times> Overlay \<times> 'w" where
  "xfrmHandle env ov w =
     (if o_netlinkHandle ov then (None, ov, w)
      else if o_NetnsPath ov = [] then
        (case env_NewHandle env w of
           (Some e, w1) \<Rightarrow> (Some e, ov, w1)
         | (None, w1) \<Rightarrow> (None, ov\<lparr>o_netlinkHandle := True\<rparr>, w1))
      else (case env_GetNetns env (o_NetnsPath ov) w of
           (Some e, w1) \<Rightarrow> (Some e, ov, w1)
         | (None, w1) \<Rightarrow>
             (case env_NewHandleAt env (o_NetnsPath ov) w1 of
                (Some e, w2) \<Rightarrow> (Some e, ov, w2)
              | (None, w2) \<Rightarrow> (None, ov\<lparr>o_netlinkHandle := True\<rparr>, w2))))"

definition managed_dir :: "XfrmPolicy \<Rightarrow> bool" where
  "managed_dir p \<longleftrightarrow> p_Dir p = XFRM_DIR_IN \<or> p_Dir p = XFRM_DIR_FWD \<or> p_Dir p = XFRM_DIR_OUT"

definition rules_of :: "XfrmPolicy list \<Rightarrow> policies" where
  "rules_of existing = foldl (\<lambda>m p. if \<not> managed_dir p then m else mput (toKey p) p m) [] existing"

definition getRules :: "'w ipsec_env \<Rightarrow> Overlay \<Rightarrow> 'w \<Rightarrow> policies result \<times> Overlay \<times> 'w" where
  "getRules env ov w =
     (case xfrmHandle env ov w of
        (Some e, ov1, w1) \<Rightarrow> (Inl e, ov1, w1)
      | (None, ov1, w1) \<Rightarrow>
          (case env_PolicyList env w1 of
             (Inl e, w2) \<Rightarrow> (Inl e, ov1, w2)
           | (Inr existing, w2) \<Rightarrow> (Inr (rules_of existing), ov1, w2)))"

text \<open>One kernel call per policy; the last error is kept and the loop goes on.\<close>

fun each_policy ::
  "(XfrmPolicy \<Rightarrow> 'w \<Rightarrow> go_error option \<times> 'w) \<Rightarrow> (string \<times> XfrmPolicy) list \<Rightarrow> go_error option \<Rightarrow> 'w \<Rightarrow>
   go_error option \<times> 'w" where
  "each_policy call [] lastErr w = (lastErr, w)"
| "each_policy call ((_, p) # ps) lastErr w =
     (case call p w of
        (Some e, w') \<Rightarrow> each_policy call ps (Some e) w'
      | (None, w') \<Rightarrow> each_policy call ps lastErr w')"

definition deletePolicies ::
  "'w ipsec_env \<Rightarrow> map_order \<Rightarrow> policies \<Rightarrow> Overlay \<Rightarrow> 'w \<Rightarrow> go_error option \<times> Overlay \<times> 'w" where
  "deletePolicies env ro ps ov w =
     (case xfrmHandle env ov w of
        (Some e, ov1, w1) \<Rightarrow> (Some e, ov1, w1)
      | (None, ov1, w1) \<Rightarrow>
          let (err, w2) = each_policy (env_PolicyDel env) (go_range ro 1 ps) None w1 in (err, ov1, w2))"

definition addPolicies ::
  "'w ipsec_env \<Rightarrow> map_order \<Rightarrow> policies \<Rightarrow> Overlay \<Rightarrow> 'w \<Rightarrow> go_error option \<times> Overlay \<times> 'w" where
  "addPolicies env ro ps ov w =
     (case xfrmHandle env ov w of
        (Some e, ov1, w1) \<Rightarrow> (Some e, ov1, w1)
      | (None, ov1, w1) \<Rightarrow>
          let (err, w2) = each_policy (env_PolicyAdd env) (go_range ro 2 ps) None w1 in (err, ov1, w2))"

section \<open>What the program relies on in the kernel\<close>

text \<open>The selector by which the kernel identifies a policy, as the library fills it in.\<close>

definition selector ::
  "XfrmPolicy \<Rightarrow> dir \<times> string option \<times> string option \<times> 8 word \<times> int \<times> int \<times> int \<times> int \<times> (32 word \<times> 32 word) option" where
  "selector p = (p_Dir p, map_option ipnet_string (p_Src p), map_option ipnet_string (p_Dst p),
     p_Proto p, p_DstPort p, p_SrcPort p, p_Ifindex p, p_Ifid p, p_Mark p)"

text \<open>
  \<open>table\<close> gives the policies that the kernel of a world holds. Listing returns them; deletion
  removes the policy with the given selector and fails without effect otherwise; an exclusive
  addition adds the policy, in a form with the same key and direction, and fails without effect
  otherwise.
\<close>

definition keeps :: "('w \<Rightarrow> 't) \<Rightarrow> ('w \<Rightarrow> 'r \<times> 'w) \<Rightarrow> bool" where
  "keeps table f \<longleftrightarrow> (\<forall>w. table (snd (f w)) = table w)"

definition xfrm_kernel :: "'w ipsec_env \<Rightarrow> ('w \<Rightarrow> XfrmPolicy set) \<Rightarrow> bool" where
  "xfrm_kernel env table \<longleftrightarrow>
     keeps table (env_PolicyList env) \<and>
     (\<forall>w w' ps. env_PolicyList env w = (Inr ps, w') \<longrightarrow> set ps = table w) \<and>
     (\<forall>p w w' err. env_PolicyDel env p w = (err, w') \<longrightarrow>
        table w' = (if err = None then {q \<in> table w. selector q \<noteq> selector p} else table w)) \<and>
     (\<forall>p w w' err. env_PolicyAdd env p w = (err, w') \<longrightarrow>
        (if err = None then \<exists>q. toKey q = toKey p \<and> p_Dir q = p_Dir p \<and> table w' = insert q (table w)
         else table w' = table w)) \<and>
     keeps table (env_NewHandle env) \<and>
     (\<forall>s. keeps table (env_GetNetns env s)) \<and>
     (\<forall>s. keeps table (env_NewHandleAt env s))"

lemma keepsD: "keeps table f \<Longrightarrow> f w = (r, w') \<Longrightarrow> table w' = table w"
  unfolding keeps_def by (erule allE[of _ w]) simp

lemma xfrm_kernel_list:
  assumes "xfrm_kernel env table" "env_PolicyList env w = (r, w')"
  shows "table w' = table w" "r = Inr ps \<Longrightarrow> set ps = table w"
proof -
  show "table w' = table w" using assms keepsD[of table "env_PolicyList env"] by (simp add: xfrm_kernel_def)
  show "r = Inr ps \<Longrightarrow> set ps = table w" using assms unfolding xfrm_kernel_def by blast
qed

lemma xfrm_kernel_del:
  assumes "xfrm_kernel env table" "env_PolicyDel env p w = (None, w')"
  shows "table w' = {q \<in> table w. selector q \<noteq> selector p}"
proof -
  have "\<forall>p w w' err. env_PolicyDel env p w = (err, w') \<longrightarrow>
      table w' = (if err = None then {q \<in> table w. selector q \<noteq> selector p} else table w)"
    using assms(1) by (simp add: xfrm_kernel_def)
  with assms(2) show ?thesis by simp
qed

lemma xfrm_kernel_add:
  assumes "xfrm_kernel env table" "env_PolicyAdd env p w = (None, w')"
  shows "\<exists>q. toKey q = toKey p \<and> p_Dir q = p_Dir p \<and> table w' = insert q (table w)"
proof -
  have "\<forall>p w w' err. env_PolicyAdd env p w = (err, w') \<longrightarrow>
      (if err = None then \<exists>q. toKey q = toKey p \<and> p_Dir q = p_Dir p \<and> table w' = insert q (table w)
       else table w' = table w)"
    using assms(1) by (simp add: xfrm_kernel_def)
  from this[rule_format, OF assms(2)] show ?thesis by simp
qed

lemma xfrm_kernel_open:
  assumes "xfrm_kernel env table"
  shows "env_NewHandle env w = (e, w') \<Longrightarrow> table w' = table w"
    "env_GetNetns env s w = (e, w') \<Longrightarrow> table w' = table w"
    "env_NewHandleAt env s w = (e, w') \<Longrightarrow> table w' = table w"
proof -
  have k: "keeps table (env_NewHandle env)" "keeps table (env_GetNetns env s)" "keeps table (env_NewHandleAt env s)"
    using assms by (simp_all add: xfrm_kernel_def)
  show "env_NewHandle env w = (e, w') \<Longrightarrow> table w' = table w" by (rule keepsD[OF k(1)])
  show "env_GetNetns env s w = (e, w') \<Longrightarrow> table w' = table w" by (rule keepsD[OF k(2)])
  show "env_NewHandleAt env s w = (e, w') \<Longrightarrow> table w' = table w" by (rule keepsD[OF k(3)])
qed

lemma xfrm_kernel_handle:
  assumes "xfrm_kernel env table" "xfrmHandle env ov w = (e, ov', w')"
  shows "table w' = table w"
  using assms(2) unfolding xfrmHandle_def
  by (auto split: if_splits prod.splits option.splits dest: xfrm_kernel_open[OF assms(1)])

section \<open>The maps of policies\<close>

abbreviation keys :: "'v gomap \<Rightarrow> string set" where "keys m \<equiv> dom (map_of m)"

lemma want_policy_eq:
  "want_policy (E, A) p =
   (if map_of E (toKey p) = None then (E, mput (toKey p) p A) else (mdel (toKey p) E, A))"
  by (auto simp: want_policy_def Let_def)

lemma want_policies_existing:
  "foldl want_policy (E, A) ps = (E', A') \<Longrightarrow>
   map_of E' k = (if k \<in> toKey ` set ps then None else map_of E k)"
proof (induction ps arbitrary: E A)
  case (Cons p ps)
  show ?case
  proof (cases "map_of E (toKey p) = None")
    case True
    with Cons.prems Cons.IH[of E "mput (toKey p) p A"] show ?thesis by (simp add: want_policy_eq)
  next
    case False
    with Cons.prems Cons.IH[of "mdel (toKey p) E" A] show ?thesis by (simp add: want_policy_eq)
  qed
qed simp

lemma want_policies_lower:
  "foldl want_policy (E, A) ps = (E', A') \<Longrightarrow>
   map_of A k \<noteq> None \<or> k \<in> toKey ` set ps \<and> map_of E k = None \<Longrightarrow> map_of A' k \<noteq> None"
proof (induction ps arbitrary: E A)
  case (Cons p ps)
  show ?case
  proof (cases "map_of E (toKey p) = None")
    case True
    then show ?thesis
      using Cons.prems by (intro Cons.IH[of E "mput (toKey p) p A"]) (auto simp: want_policy_eq)
  next
    case False
    then show ?thesis
      using Cons.prems by (intro Cons.IH[of "mdel (toKey p) E" A]) (auto simp: want_policy_eq)
  qed
qed simp

lemma want_policies_upper:
  assumes "foldl want_policy (E, A) ps = (E', A')" "map_of A' k = Some p"
  shows "map_of A k = Some p \<or> p \<in> set ps \<and> k = toKey p"
  using assms
proof (induction ps arbitrary: E A)
  case (Cons q ps)
  show ?case
  proof (cases "map_of E (toKey q) = None")
    case True
    with Cons.prems Cons.IH[of E "mput (toKey q) q A"] show ?thesis
      by (auto simp: want_policy_eq split: if_splits)
  next
    case False
    with Cons.prems Cons.IH[of "mdel (toKey q) E" A] show ?thesis by (auto simp: want_policy_eq)
  qed
qed simp

lemma want_policies_ok:
  "gomap_ok E \<Longrightarrow> gomap_ok A \<Longrightarrow> foldl want_policy (E, A) ps = (E', A') \<Longrightarrow> gomap_ok E' \<and> gomap_ok A'"
  by (induction ps arbitrary: E A) (auto simp: want_policy_eq split: if_splits)

lemma rules_of_ok: "gomap_ok (rules_of ps)"
  unfolding rules_of_def by (rule foldl_preserves) auto

lemma rules_of_sound: "map_of (rules_of ps) k = Some p \<Longrightarrow> p \<in> set ps \<and> managed_dir p \<and> toKey p = k"
proof -
  have "\<forall>k p. map_of (rules_of ps) k = Some p \<longrightarrow> p \<in> set ps \<and> managed_dir p \<and> toKey p = k"
    unfolding rules_of_def by (rule foldl_preserves) (auto split: if_splits)
  then show "map_of (rules_of ps) k = Some p \<Longrightarrow> ?thesis" by blast
qed

lemma rules_of_keys: "keys (rules_of ps) = toKey ` {p \<in> set ps. managed_dir p}"
proof -
  have "keys (foldl (\<lambda>m p. if \<not> managed_dir p then m else mput (toKey p) p m) m0 ps) =
      keys m0 \<union> toKey ` {p \<in> set ps. managed_dir p}" for m0
    by (induction ps arbitrary: m0) (auto simp: dom_def split: if_splits)
  from this[of "[]"] show ?thesis by (simp add: rules_of_def)
qed

text \<open>The keys of the policies that the program manages.\<close>

definition managed_keys :: "XfrmPolicy set \<Rightarrow> string set" where
  "managed_keys T = toKey ` {p \<in> T. managed_dir p}"

section \<open>Deleting and adding\<close>

lemma managed_keys_insert [simp]: "managed_dir q \<Longrightarrow> managed_keys (insert q T) = insert (toKey q) (managed_keys T)"
  by (auto simp: managed_keys_def image_iff)

lemma each_policy_None:
  "each_policy call ps err w = (None, w') \<Longrightarrow> err = None"
  by (induction call ps err w rule: each_policy.induct) (auto split: prod.splits option.splits)

lemma each_del:
  assumes "xfrm_kernel env table"
  shows "each_policy (env_PolicyDel env) ps None w = (None, w') \<Longrightarrow>
    table w' = {q \<in> table w. selector q \<notin> selector ` snd ` set ps}"
proof (induction ps arbitrary: w)
  case (Cons kp ps)
  obtain k p where kp: "kp = (k, p)" by (cases kp)
  obtain e w1 where d: "env_PolicyDel env p w = (e, w1)" by (cases "env_PolicyDel env p w")
  have e: "e = None"
    using Cons.prems each_policy_None[of "env_PolicyDel env" ps e w1 w'] by (cases e) (simp_all add: kp d)
  then have "each_policy (env_PolicyDel env) ps None w1 = (None, w')" using Cons.prems by (simp add: kp d)
  then show ?case
    using Cons.IH[of w1] xfrm_kernel_del[OF assms, of p w w1] d e by (auto simp: kp)
qed simp

lemma each_add:
  assumes "xfrm_kernel env table"
  shows "each_policy (env_PolicyAdd env) ps None w = (None, w') \<Longrightarrow> list_all (\<lambda>(k, p). k = toKey p \<and> managed_dir p) ps \<Longrightarrow>
    managed_keys (table w') = managed_keys (table w) \<union> fst ` set ps"
proof (induction ps arbitrary: w)
  case (Cons kp ps)
  obtain k p where kp: "kp = (k, p)" by (cases kp)
  obtain e w1 where d: "env_PolicyAdd env p w = (e, w1)" by (cases "env_PolicyAdd env p w")
  have e: "e = None"
    using Cons.prems(1) each_policy_None[of "env_PolicyAdd env" ps e w1 w'] by (cases e) (simp_all add: kp d)
  obtain q where q: "toKey q = toKey p" "p_Dir q = p_Dir p" "table w1 = insert q (table w)"
    using xfrm_kernel_add[OF assms, of p w w1] d e by auto
  have "managed_dir q" "k = toKey p" using Cons.prems(2) q(2) by (auto simp: kp managed_dir_def)
  then have "managed_keys (table w1) = insert k (managed_keys (table w))"
    using q(1,3) by simp
  moreover have "each_policy (env_PolicyAdd env) ps None w1 = (None, w')" using Cons.prems(1) by (simp add: kp d e)
  ultimately show ?case using Cons.IH[of w1] Cons.prems(2) by (auto simp: kp)
qed simp

lemma deletePolicies_table:
  assumes "xfrm_kernel env table" "valid_order ro" "deletePolicies env ro E ov w = (None, ov', w')"
  shows "table w' = {q \<in> table w. selector q \<notin> selector ` ran (map_of E)}"
proof -
  obtain ov1 w1 where h: "xfrmHandle env ov w = (None, ov1, w1)"
      "each_policy (env_PolicyDel env) (go_range ro 1 E) None w1 = (None, w')"
    using assms(3) by (auto simp: deletePolicies_def split: prod.splits option.splits)
  have "snd ` set (go_range ro 1 E) = ran (map_of E)"
    using set_go_range[OF assms(2), where m = E and i = 1] by (force simp: ran_def image_iff)
  then show ?thesis
    using each_del[OF assms(1) h(2)] xfrm_kernel_handle[OF assms(1) h(1)] by simp
qed

lemma addPolicies_keys:
  assumes "xfrm_kernel env table" "valid_order ro" "addPolicies env ro A ov w = (None, ov', w')"
    and "\<And>k p. map_of A k = Some p \<Longrightarrow> k = toKey p \<and> managed_dir p"
  shows "managed_keys (table w') = managed_keys (table w) \<union> keys A"
proof -
  obtain ov1 w1 where h: "xfrmHandle env ov w = (None, ov1, w1)"
      "each_policy (env_PolicyAdd env) (go_range ro 2 A) None w1 = (None, w')"
    using assms(3) by (auto simp: addPolicies_def split: prod.splits option.splits)
  have "fst ` set (go_range ro 2 A) = keys A"
    using set_go_range[OF assms(2), where m = A and i = 2] by (force simp: image_iff)
  moreover have "list_all (\<lambda>(k, p). k = toKey p \<and> managed_dir p) (go_range ro 2 A)"
    using assms(4) by (auto simp: list_all_iff set_go_range[OF assms(2)])
  ultimately show ?thesis
    using each_add[OF assms(1) h(2)] xfrm_kernel_handle[OF assms(1) h(1)] by simp
qed

text \<open>
  The net effect of one reconciliation: starting from a listing in which no two managed policies
  share a key, deleting what is not wanted and adding what is missing leaves exactly the wanted keys.
\<close>

lemma reconcile_keys:
  assumes k: "xfrm_kernel env table" and ro: "valid_order ro" "valid_order ro'"
    and sel: "inj_on selector (table w0)"
    and inj: "inj_on toKey {p \<in> set ps. managed_dir p}" and ps: "set ps = table w0"
    and w: "list_all managed_dir wanted"
    and f: "foldl want_policy (rules_of ps, []) wanted = (E, A)"
    and t: "table w = table w0"
    and d: "deletePolicies env ro E ov w = (None, ov1, w1)"
    and a: "addPolicies env ro' A ov1 w1 = (None, ov2, w2)"
  shows "managed_keys (table w2) = toKey ` set wanted"
proof -
  let ?K = "toKey ` set wanted"
  have E: "map_of E key = (if key \<in> ?K then None else map_of (rules_of ps) key)" for key
    by (rule want_policies_existing[OF f])
  have complete: "map_of (rules_of ps) (toKey p) = Some p" if "p \<in> table w0" "managed_dir p" for p
  proof -
    have "toKey p \<in> keys (rules_of ps)" using that ps by (auto simp: rules_of_keys)
    then obtain q where q: "map_of (rules_of ps) (toKey p) = Some q" by blast
    then have "q \<in> set ps" "managed_dir q" "toKey q = toKey p" using rules_of_sound by blast+
    then have "q = p" using inj that ps by (auto simp: inj_on_def)
    with q show ?thesis by simp
  qed
  have "ran (map_of E) = {p \<in> table w0. managed_dir p \<and> toKey p \<notin> ?K}"
  proof (intro set_eqI iffI)
    fix p assume "p \<in> ran (map_of E)"
    then obtain key where "map_of (rules_of ps) key = Some p" "key \<notin> ?K"
      by (auto simp: ran_def E split: if_splits)
    with rules_of_sound[of ps key p] ps show "p \<in> {p \<in> table w0. managed_dir p \<and> toKey p \<notin> ?K}" by auto
  next
    fix p assume "p \<in> {p \<in> table w0. managed_dir p \<and> toKey p \<notin> ?K}"
    then have "map_of E (toKey p) = Some p" using complete[of p] by (simp add: E)
    then show "p \<in> ran (map_of E)" by (rule ranI)
  qed
  then have "table w1 = {q \<in> table w0. selector q \<notin> selector ` {p \<in> table w0. managed_dir p \<and> toKey p \<notin> ?K}}"
    using deletePolicies_table[OF k ro(1) d] t by simp
  also have "\<dots> = {q \<in> table w0. \<not> (managed_dir q \<and> toKey q \<notin> ?K)}"
    using sel by (auto simp: inj_on_def)
  finally have w1: "managed_keys (table w1) = managed_keys (table w0) \<inter> ?K"
    by (auto simp: managed_keys_def)
  have A: "k = toKey p \<and> managed_dir p" if "map_of A k = Some p" for k p
    using want_policies_upper[OF f that] w by (auto simp: list_all_iff)
  have "keys A \<subseteq> ?K" using want_policies_upper[OF f] by force
  moreover have "?K - managed_keys (table w0) \<subseteq> keys A"
    using want_policies_lower[OF f] ps rules_of_keys[of ps] by (auto simp: managed_keys_def domIff)
  ultimately show ?thesis
    using addPolicies_keys[OF k ro(2) a A] w1 by auto
qed

end
