(* ===== verification/Ipsec_Overlay.thy ===== *)
theory Ipsec_Overlay
  imports Ipsec_Policy
begin

text \<open>
  The operations of the IPsec overlay that change state (\<^verbatim>\<open>backend/ipsec/ipsec.go\<close>): shared keys,
  host connections, host routes, removal of hosts, recovery from stale peer identities, and
  \<^verbatim>\<open>configure\<close>, which runs them in order. Every operation takes the overlay object and the world
  and returns its error with the new object and the new world. \<^verbatim>\<open>defer client.Close()\<close> is the
  call of \<open>env_Close\<close> on every path that opened a client.
\<close>

section \<open>Commands\<close>

definition commandInNetns :: "string \<Rightarrow> string \<Rightarrow> string list \<Rightarrow> string \<times> string list" where
  "commandInNetns netnsPath name args =
     (if netnsPath = [] then (name, args) else (''nsenter'', (''--net='' @ netnsPath) # name # args))"

definition execInNetns ::
  "'w ipsec_env \<Rightarrow> string \<Rightarrow> string \<Rightarrow> string list \<Rightarrow> 'w \<Rightarrow> (string \<times> go_error option) \<times> 'w" where
  "execInNetns env netnsPath name args w =
     (let (cmd, as) = commandInNetns netnsPath name args in env_Exec env cmd as w)"

definition runCommand ::
  "'w ipsec_env \<Rightarrow> Overlay \<Rightarrow> string \<Rightarrow> string list \<Rightarrow> 'w \<Rightarrow> go_error option \<times> 'w" where
  "runCommand env ov name args w =
     (case execInNetns env (o_NetnsPath ov) name args w of
        ((_, None), w') \<Rightarrow> (None, w')
      | ((out, Some e), w') \<Rightarrow>
          (Some (Wrapf ''%s %s failed: %v: %s'' [name, join '' '' args, trimSpace out] e), w'))"

definition runIP :: "'w ipsec_env \<Rightarrow> Overlay \<Rightarrow> string list \<Rightarrow> 'w \<Rightarrow> go_error option \<times> 'w" where
  "runIP env ov args w = runCommand env ov ''ip'' args w"

text \<open>The first error is kept, every error is logged.\<close>

definition handleErr :: "go_error option \<Rightarrow> go_error \<Rightarrow> go_error option" where
  "handleErr firstErr err = firstOf firstErr err"

definition note_err :: "go_error option \<Rightarrow> go_error option \<Rightarrow> go_error option" where
  "note_err firstErr err = (case err of None \<Rightarrow> firstErr | Some e \<Rightarrow> handleErr firstErr e)"

section \<open>Connections found in charon\<close>

definition loadConns :: "'w ipsec_env \<Rightarrow> Overlay \<Rightarrow> 'w \<Rightarrow> go_error option \<times> Overlay \<times> 'w" where
  "loadConns env ov w =
     (case getClient env w of
        (Some e, w1) \<Rightarrow> (Some e, ov, w1)
      | (None, w1) \<Rightarrow>
          (case env_ListConns env w1 of
             (Inl e, w2) \<Rightarrow> (Some e, ov, env_Close env w2)
           | (Inr conns, w2) \<Rightarrow>
               (None,
                ov\<lparr>o_hosts := foldl (\<lambda>m (k, _). if hasPrefix k ''conn-'' then mput (trimPrefix k ''conn-'') [] m else m)
                     [] (concat conns),
                   o_staleLocal := []\<rparr>, env_Close env w2)))"

section \<open>Shared keys\<close>

definition getPsk :: "Overlay \<Rightarrow> string \<Rightarrow> string" where "getPsk ov hostIp = o_psk ov"

definition shared_key_json :: "string \<Rightarrow> string \<Rightarrow> json" where
  "shared_key_json key owner =
     JObj [(''type'', enc_string ''IKE''), (''data'', enc_string key), (''owners'', enc_list [owner])]"

text \<open>The library ignores the error of the request and judges the response, which is then empty.\<close>

definition LoadShared :: "'w ipsec_env \<Rightarrow> string \<Rightarrow> string \<Rightarrow> 'w \<Rightarrow> go_error option \<times> 'w" where
  "LoadShared env key owner w =
     (case convertToGeneral (shared_key_json key owner) of
        Inl e \<Rightarrow> (Some (Wrapf ''error creating request: %v'' [] e), w)
      | Inr request \<Rightarrow>
          let (r, w') = env_Request env ''load-shared'' request w;
              msg = (case r of Inl _ \<Rightarrow> [] | Inr m \<Rightarrow> m)
          in (if succeeded msg then None else Some (Errorf ''unsuccessful loadSharedKey: %v'' [errmsg msg]), w'))"

definition loadSharedKey :: "'w ipsec_env \<Rightarrow> string \<Rightarrow> Overlay \<Rightarrow> 'w \<Rightarrow> go_error option \<times> Overlay \<times> 'w" where
  "loadSharedKey env ipAddress ov w =
     (let ip = split_head CHR ''/'' ipAddress; key = getPsk ov ip;
          ov1 = ov\<lparr>o_keyAttempt := mput ip True (o_keyAttempt ov)\<rparr>
      in if mgetd [] (o_keys ov) ip = key then (None, ov1, w)
         else case getClient env w of
           (Some e, w1) \<Rightarrow> (Some e, ov1, w1)
         | (None, w1) \<Rightarrow>
             (case LoadShared env key ip w1 of
                (Some e, w2) \<Rightarrow> (Some e, ov1, env_Close env w2)
              | (None, w2) \<Rightarrow> (None, ov1\<lparr>o_keys := mput ip key (o_keys ov1)\<rparr>, env_Close env w2)))"

section \<open>Host connections\<close>

definition addHostConnection ::
  "'w ipsec_env \<Rightarrow> store_view \<Rightarrow> entry \<Rightarrow> Overlay \<Rightarrow> 'w \<Rightarrow> go_error option \<times> Overlay \<times> 'w" where
  "addHostConnection env db e ov w =
     (let host = HostIpAddress e; ov1 = ov\<lparr>o_hostAttempt := mput host True (o_hostAttempt ov)\<rparr>
      in case hostConnectionConfig (o_templates ov) (o_Blacklist ov) (v_LocalHostIp db) (localTunnelAddress ov db)
                host (o_UseHostTunnelSource ov) of
           Inl err \<Rightarrow> (Some err, ov1, w)
         | Inr (ikeConf, fp) \<Rightarrow>
             if mgetd [] (o_hosts ov) host = fp then (None, ov1, w)
             else (case getClient env w of
                (Some err, w1) \<Rightarrow> (Some err, ov1, w1)
              | (None, w1) \<Rightarrow>
                  (case loadHostConnection env host ikeConf fp (o_hosts ov1) (o_staleLocal ov1) w1 of
                     (err, hosts', stale', w2) \<Rightarrow>
                       (err, ov1\<lparr>o_hosts := hosts', o_staleLocal := stale'\<rparr>, env_Close env w2))))"

definition addHost ::
  "'w ipsec_env \<Rightarrow> store_view \<Rightarrow> entry \<Rightarrow> Overlay \<Rightarrow> 'w \<Rightarrow> go_error option \<times> Overlay \<times> 'w" where
  "addHost env db e ov w =
     (case loadSharedKey env (HostIpAddress e) ov w of
        (Some err, ov1, w1) \<Rightarrow> (Some err, ov1, w1)
      | (None, ov1, w1) \<Rightarrow> addHostConnection env db e ov1 w1)"

definition UnloadConn :: "'w ipsec_env \<Rightarrow> string \<Rightarrow> 'w \<Rightarrow> go_error option \<times> 'w" where
  "UnloadConn env name w =
     (let request = (case convertToGeneral (JObj [(''name'', enc_string name)]) of Inl _ \<Rightarrow> [] | Inr m \<Rightarrow> m)
      in case env_Request env ''unload-conn'' request w of
           (Inl e, w') \<Rightarrow> (Some e, w')
         | (Inr msg, w') \<Rightarrow>
             (if succeeded msg then None else Some (Errorf ''[Unload-Connection] %s'' [errmsg msg]), w'))"

definition removeHost :: "'w ipsec_env \<Rightarrow> string \<Rightarrow> 'w \<Rightarrow> go_error option \<times> 'w" where
  "removeHost env host w =
     (case getClient env w of
        (Some e, w1) \<Rightarrow> (Some e, w1)
      | (None, w1) \<Rightarrow>
          let (err, w2) = UnloadConn env (''conn-'' @ split_head CHR ''/'' host) w1 in (err, env_Close env w2))"

definition removeHosts_step ::
  "'w ipsec_env \<Rightarrow> go_error option \<times> Overlay \<times> 'w \<Rightarrow> string \<times> string \<Rightarrow> go_error option \<times> Overlay \<times> 'w" where
  "removeHosts_step env acc kv =
     (let (firstErr, ov, w) = acc; k = fst kv
      in if mtest (o_hostAttempt ov) k then acc
         else case removeHost env k w of
           (Some e, w1) \<Rightarrow> (handleErr firstErr e, ov, w1)
         | (None, w1) \<Rightarrow>
             (firstErr, ov\<lparr>o_hosts := mdel k (o_hosts ov), o_staleLocal := mdel k (o_staleLocal ov)\<rparr>, w1))"

definition removeHosts ::
  "'w ipsec_env \<Rightarrow> map_order \<Rightarrow> Overlay \<Rightarrow> 'w \<Rightarrow> go_error option \<times> Overlay \<times> 'w" where
  "removeHosts env ro ov w = foldl (removeHosts_step env) (None, ov, w) (go_range ro 4 (o_hosts ov))"

section \<open>Host routes\<close>

definition hostRouteProtocol :: int where "hostRouteProtocol = 186"

definition routeDevice :: "'w ipsec_env \<Rightarrow> go_ip \<Rightarrow> Overlay \<Rightarrow> 'w \<Rightarrow> string result \<times> Overlay \<times> 'w" where
  "routeDevice env remoteHostIP ov w =
     (case xfrmHandle env ov w of
        (Some e, ov1, w1) \<Rightarrow> (Inl e, ov1, w1)
      | (None, ov1, w1) \<Rightarrow>
          (case env_RouteGet env remoteHostIP w1 of
             (Inl e, w2) \<Rightarrow> (Inl e, ov1, w2)
           | (Inr routes, w2) \<Rightarrow>
               (case routes of
                  [] \<Rightarrow> (Inl (Errorf ''no route device found for host %s'' [ip_string remoteHostIP]), ov1, w2)
                | r # _ \<Rightarrow>
                    if r_LinkIndex r = 0
                    then (Inl (Errorf ''no route device found for host %s'' [ip_string remoteHostIP]), ov1, w2)
                    else (let (res, w3) = env_LinkByIndex env (r_LinkIndex r) w2 in (res, ov1, w3)))))"

type_synonym 'w route_acc = "go_error option \<times> bool gomap \<times> Overlay \<times> 'w"

definition replace_args :: "string \<Rightarrow> string \<Rightarrow> string \<Rightarrow> string list" where
  "replace_args ip host dev =
     [''route'', ''replace'', ip @ ''/32'', ''via'', host, ''dev'', dev, ''proto'', itoa_int hostRouteProtocol]"

definition sync_step :: "'w ipsec_env \<Rightarrow> 'w route_acc \<Rightarrow> string \<times> entry \<Rightarrow> 'w route_acc" where
  "sync_step env acc ie =
     (let (firstErr, desiredIPs, ov, w) = acc; (ip, e) = ie;
          overlayIP = parseIP ip; remoteHostIP = parseIP (HostIpAddress e)
      in if overlayIP = [] \<or> remoteHostIP = []
         then (handleErr firstErr (Errorf ''invalid route entry ip=%q host=%q'' [ip, HostIpAddress e]), desiredIPs, ov, w)
         else let desired1 = mput ip True desiredIPs
         in case routeDevice env remoteHostIP ov w of
              (Inl err, ov1, w1) \<Rightarrow> (handleErr firstErr err, desired1, ov1, w1)
            | (Inr dev, ov1, w1) \<Rightarrow>
                (case runIP env ov1 (replace_args ip (HostIpAddress e) dev) w1 of
                   (err, w2) \<Rightarrow> (note_err firstErr err, desired1, ov1, w2)))"

definition stale_route :: "bool gomap \<Rightarrow> Route \<Rightarrow> ipnet option" where
  "stale_route desiredIPs r =
     (if r_Protocol r \<noteq> hostRouteProtocol then None
      else case r_Dst r of
        None \<Rightarrow> None
      | Some dst \<Rightarrow> if net_ip dst = [] \<or> mtest desiredIPs (ip_string (net_ip dst)) then None else Some dst)"

definition delete_args :: "ipnet \<Rightarrow> string list" where
  "delete_args dst = [''route'', ''del'', ipnet_string dst, ''proto'', itoa_int hostRouteProtocol]"

definition stale_step ::
  "'w ipsec_env \<Rightarrow> bool gomap \<Rightarrow> Overlay \<Rightarrow> go_error option \<times> 'w \<Rightarrow> Route \<Rightarrow> go_error option \<times> 'w" where
  "stale_step env desiredIPs ov acc r =
     (case stale_route desiredIPs r of
        None \<Rightarrow> acc
      | Some dst \<Rightarrow>
          (case runIP env ov (delete_args dst) (snd acc) of (err, w') \<Rightarrow> (note_err (fst acc) err, w')))"

definition syncHostRoutes ::
  "'w ipsec_env \<Rightarrow> map_order \<Rightarrow> entry gomap \<Rightarrow> Overlay \<Rightarrow> 'w \<Rightarrow> go_error option \<times> Overlay \<times> 'w" where
  "syncHostRoutes env ro desired ov w =
     (if \<not> o_SyncHostRoutes ov then (None, ov, w)
      else case foldl (sync_step env) (None, [], ov, w) (go_range ro 3 desired) of
        (firstErr, desiredIPs, ov1, w1) \<Rightarrow>
          (case xfrmHandle env ov1 w1 of
             (Some e, ov2, w2) \<Rightarrow> (handleErr firstErr e, ov2, w2)
           | (None, ov2, w2) \<Rightarrow>
               (case env_RouteList env w2 of
                  (Inl e, w3) \<Rightarrow> (handleErr firstErr e, ov2, w3)
                | (Inr routes, w3) \<Rightarrow>
                    (case foldl (stale_step env desiredIPs ov2) (firstErr, w3) routes of
                       (err, w4) \<Rightarrow> (err, ov2, w4)))))"

section \<open>Recovery from stale peer identities\<close>

definition pidFile :: string where "pidFile = ''/var/run/charon.pid''"

definition killCharon :: "'w ipsec_env \<Rightarrow> string \<Rightarrow> 'w \<Rightarrow> 'w" where
  "killCharon env pid w =
     (case atoi pid of None \<Rightarrow> w | Some n \<Rightarrow> snd (env_Kill env n w))"

definition restartCharonForRecovery :: "'w ipsec_env \<Rightarrow> string \<Rightarrow> 'w \<Rightarrow> 'w" where
  "restartCharonForRecovery env host w =
     (case env_ReadFile env pidFile w of
        (Inl _, w1) \<Rightarrow> w1
      | (Inr bytes, w1) \<Rightarrow> killCharon env (trimSpace bytes) w1)"

text \<open>The host of the first installed CHILD_SA with a stale peer identity, in the order of the listing.\<close>

definition first_stale :: "sa_list \<Rightarrow> bool gomap gomap \<Rightarrow> string option" where
  "first_stale sas expected =
     map_option (\<lambda>(childName, remoteID). fst (stalePeerIdentity childName remoteID expected))
       (find (\<lambda>(childName, remoteID). snd (stalePeerIdentity childName remoteID expected))
         (concat (map (\<lambda>(_, sa). map (\<lambda>(childName, _). (childName, sa_Remote_id sa))
            (filter (\<lambda>(_, c). cs_State c = ''INSTALLED'') (sa_Child_sas sa))) (concat sas))))"

definition restartForStalePeerIdentities ::
  "'w ipsec_env \<Rightarrow> store_view \<Rightarrow> 'w \<Rightarrow> go_error option \<times> 'w" where
  "restartForStalePeerIdentities env db w =
     (let expected = expectedPeerIdentitiesByHost db
      in if expected = [] then (None, w)
         else case getClient env w of
           (Some e, w1) \<Rightarrow> (Some e, w1)
         | (None, w1) \<Rightarrow>
             (case env_ListSas env w1 of
                (Inl e, w2) \<Rightarrow> (Some e, env_Close env w2)
              | (Inr sas, w2) \<Rightarrow>
                  (case first_stale sas expected of
                     None \<Rightarrow> (None, env_Close env w2)
                   | Some host \<Rightarrow>
                       (Some (Errorf ''stale IPsec peer identity for host %s'' [host]),
                        env_Close env (restartCharonForRecovery env host w2)))))"

section \<open>Scheduling initiations\<close>

text \<open>
  Marks the hosts that are not being initiated yet and returns them in order; a non-empty result is
  handed to a new goroutine.
\<close>

definition scheduleInitiatesLocked :: "map_order \<Rightarrow> bool gomap \<Rightarrow> Overlay \<Rightarrow> string list \<times> Overlay" where
  "scheduleInitiatesLocked ro hosts ov =
     (let targets = filter (\<lambda>h. h \<noteq> [] \<and> \<not> mtest (o_initiating ov) h) (map fst (go_range ro 5 hosts))
      in (sort targets, ov\<lparr>o_initiating := foldl (\<lambda>m h. mput h True m) (o_initiating ov) targets\<rparr>))"

section \<open>Configuration\<close>

record 'w configuring =
  cf_firstErr :: "go_error option"
  cf_hosts :: "bool gomap"
  cf_hostRoutes :: "entry gomap"
  cf_policies :: "policies \<times> policies"
  cf_overlay :: Overlay
  cf_world :: 'w

definition conf_call ::
  "(Overlay \<Rightarrow> 'w \<Rightarrow> go_error option \<times> Overlay \<times> 'w) \<Rightarrow> 'w configuring \<Rightarrow> go_error option \<times> 'w configuring" where
  "conf_call f c =
     (case f (cf_overlay c) (cf_world c) of
        (err, ov, w) \<Rightarrow>
          (err, c\<lparr>cf_firstErr := note_err (cf_firstErr c) err, cf_overlay := ov, cf_world := w\<rparr>))"

definition configure_entry :: "'w ipsec_env \<Rightarrow> store_view \<Rightarrow> 'w configuring \<Rightarrow> entry \<Rightarrow> 'w configuring" where
  "configure_entry env db c e =
     (let c1 = (if Peer e then snd (conf_call (loadSharedKey env (IpAddress e)) c) else c)
      in if v_LocalHostIp db = HostIpAddress e then c1
         else let c2 = c1\<lparr>cf_hostRoutes := mput (ipNoCidr e) e (cf_hostRoutes c1)\<rparr>;
                  c3 = (if mtest (cf_hosts c2) (HostIpAddress e) then c2
                        else let (err, c') = conf_call (addHost env db e) c2
                             in if err = None then c'\<lparr>cf_hosts := mput (HostIpAddress e) True (cf_hosts c')\<rparr> else c')
         in case addRules (localTunnelAddress (cf_overlay c3) db) e (cf_policies c3) of
              (err, ps) \<Rightarrow> c3\<lparr>cf_firstErr := note_err (cf_firstErr c3) err, cf_policies := ps\<rparr>)"

text \<open>A phase that runs only while no error has occurred.\<close>

definition phase ::
  "(Overlay \<Rightarrow> 'w \<Rightarrow> go_error option \<times> Overlay \<times> 'w) \<Rightarrow> go_error option \<times> Overlay \<times> 'w \<Rightarrow>
   go_error option \<times> Overlay \<times> 'w" where
  "phase f s = (case s of (None, ov, w) \<Rightarrow> f ov w | (Some e, ov, w) \<Rightarrow> (Some e, ov, w))"

definition reap_phase ::
  "'w ipsec_env \<Rightarrow> store_view \<Rightarrow> bool gomap \<Rightarrow> Overlay \<Rightarrow> 'w \<Rightarrow> go_error option \<times> Overlay \<times> 'w" where
  "reap_phase env db hosts ov w =
     (if \<not> o_UseHostTunnelSource ov \<or> o_staleLocal ov = [] then (None, ov, w)
      else case getClient env w of
        (Some e, w1) \<Rightarrow> (Some e, ov, w1)
      | (None, w1) \<Rightarrow>
          (case reapStaleLocalSAs env (v_LocalHostIp db) hosts (o_staleLocal ov) w1 of
             (err, stale', w2) \<Rightarrow> (err, ov\<lparr>o_staleLocal := stale'\<rparr>, env_Close env w2)))"

definition configure_start :: "'w ipsec_env \<Rightarrow> Overlay \<Rightarrow> 'w \<Rightarrow> 'w configuring" where
  "configure_start env ov w =
     (let (rules, ov1, w1) = getRules env ov w;
          existing = (case rules of Inl _ \<Rightarrow> [] | Inr m \<Rightarrow> m);
          err1 = (case rules of Inl e \<Rightarrow> handleErr None e | Inr _ \<Rightarrow> None);
          c = \<lparr>cf_firstErr = err1, cf_hosts = [], cf_hostRoutes = [], cf_policies = (existing, []),
               cf_overlay = ov1, cf_world = w1\<rparr>
      in snd (conf_call (loadSharedKey env []) c))"

text \<open>Everything after the templates have been reloaded.\<close>

definition configure_loaded ::
  "'w ipsec_env \<Rightarrow> map_order \<Rightarrow> store_view \<Rightarrow> Overlay \<Rightarrow> 'w \<Rightarrow> go_error option \<times> string list \<times> Overlay \<times> 'w" where
  "configure_loaded env ro db ov w =
     (let c = foldl (configure_entry env db)
                (configure_start env (ov\<lparr>o_keyAttempt := [], o_hostAttempt := []\<rparr>) w) (v_Entries db);
          (existing, toAdd) = cf_policies c;
          s0 = (cf_firstErr c, cf_overlay c, cf_world c);
          s1 = phase (deletePolicies env ro existing) s0;
          s2 = phase (addPolicies env ro toAdd) s1;
          s3 = phase (syncHostRoutes env ro (cf_hostRoutes c)) s2;
          s4 = phase (reap_phase env db (cf_hosts c)) s3;
          s5 = phase (\<lambda>ov w. let (err, w') = restartForStalePeerIdentities env db w in (err, ov, w')) s4;
          s6 = phase (removeHosts env ro) s5
      in case s6 of
           (Some e, ov', w') \<Rightarrow> (Some e, [], ov', w')
         | (None, ov', w') \<Rightarrow>
             let (targets, ov'') = scheduleInitiatesLocked ro (cf_hosts c) ov' in (None, targets, ov'', w'))"

definition configure ::
  "'w ipsec_env \<Rightarrow> map_order \<Rightarrow> store_view \<Rightarrow> Overlay \<Rightarrow> 'w \<Rightarrow> go_error option \<times> string list \<times> Overlay \<times> 'w" where
  "configure env ro db ov w =
     (case Templates_Reload env (o_templates ov) w of
        (Some e, t, w1) \<Rightarrow> (Some e, [], ov\<lparr>o_templates := t\<rparr>, w1)
      | (None, t, w1) \<Rightarrow> configure_loaded env ro db (ov\<lparr>o_templates := t\<rparr>) w1)"

definition pskFile :: string where "pskFile = ''psk.txt''"

text \<open>\<^verbatim>\<open>Reload\<close>: the store behind the overlay, its reload and what it shows are arguments.\<close>

definition Overlay_Reload ::
  "'w ipsec_env \<Rightarrow> map_order \<Rightarrow> ('d \<Rightarrow> go_error option \<times> 'd) \<Rightarrow> ('d \<Rightarrow> store_view) \<Rightarrow> 'd \<Rightarrow> Overlay \<Rightarrow> 'w \<Rightarrow>
   go_error option \<times> string list \<times> 'd \<times> Overlay \<times> 'w" where
  "Overlay_Reload env ro reload view d ov w =
     (case reload d of
        (Some e, d1) \<Rightarrow> (Some e, [], d1, ov, w)
      | (None, d1) \<Rightarrow>
          (case env_ReadFile env (path_join (tm_ConfigDir (o_templates ov)) pskFile) w of
             (Inl e, w1) \<Rightarrow> (Some e, [], d1, ov, w1)
           | (Inr content, w1) \<Rightarrow>
               (case configure env ro (view d1) (ov\<lparr>o_psk := trimSpace content\<rparr>) w1 of
                  (err, targets, ov', w2) \<Rightarrow> (err, targets, d1, ov', w2))))"

end
