(* ===== verification/Ipsec_Configure.thy ===== *)
theory Ipsec_Configure
  imports Ipsec_Overlay
begin

text \<open>
  What \<^verbatim>\<open>configure\<close> of the IPsec backend guarantees: what a successful run leaves in the overlay
  object and in the kernel's policy table, and that a run with an error stops before any destructive
  phase.
\<close>

section \<open>What the single operations change\<close>

lemma note_err_None: "note_err f e = None \<longleftrightarrow> f = None \<and> e = None"
  by (simp add: note_err_def handleErr_def split: option.split)

lemma note_err_Some: "f \<noteq> None \<Longrightarrow> note_err f e = f"
  by (auto simp: note_err_def handleErr_def split: option.split)

lemma loadSharedKey_frame:
  assumes "loadSharedKey env a ov w = (err, ov', w')"
  shows "ov' = ov\<lparr>o_keyAttempt := o_keyAttempt ov', o_keys := o_keys ov'\<rparr>"
  using assms unfolding loadSharedKey_def Let_def
  by (auto split: if_splits prod.splits option.splits intro!: Overlay.equality)

text \<open>A key that was loaded is on record; keys of other owners are untouched.\<close>

lemma loadSharedKey_keys:
  assumes "loadSharedKey env a ov w = (err, ov', w')"
  shows "err = None \<Longrightarrow> mgetd [] (o_keys ov') (split_head CHR ''/'' a) = o_psk ov"
    "b \<noteq> split_head CHR ''/'' a \<Longrightarrow> mgetd [] (o_keys ov') b = mgetd [] (o_keys ov) b"
    "mgetd [] (o_keys ov) b = o_psk ov \<Longrightarrow> mgetd [] (o_keys ov') b = o_psk ov"
  using assms unfolding loadSharedKey_def Let_def getPsk_def
  by (auto split: if_splits prod.splits option.splits)

definition wanted_fp :: "store_view \<Rightarrow> Overlay \<Rightarrow> string \<Rightarrow> string" where
  "wanted_fp db ov host =
     fingerprint (host_identity (o_templates ov) (o_Blacklist ov) (v_LocalHostIp db) (localTunnelAddress ov db)
       host (o_UseHostTunnelSource ov))"

lemma loadHostConnection_hosts:
  assumes "loadHostConnection env host conf fp hosts stale w = (err, hosts', stale', w')"
  shows "err = None \<Longrightarrow> mgetd [] hosts' host = fp" "g \<noteq> host \<Longrightarrow> map_of hosts' g = map_of hosts g"
    "gomap_ok hosts \<Longrightarrow> gomap_ok hosts'"
  using assms unfolding loadHostConnection_def
  by (auto split: if_splits prod.splits option.splits)

lemma addHostConnection_effect:
  assumes "addHostConnection env db e ov w = (err, ov', w')"
  shows "\<exists>hs st. ov' = ov\<lparr>o_hostAttempt := mput (HostIpAddress e) True (o_hostAttempt ov), o_hosts := hs, o_staleLocal := st\<rparr> \<and>
    (err = None \<longrightarrow> mgetd [] hs (HostIpAddress e) = wanted_fp db ov (HostIpAddress e)) \<and>
    (\<forall>g. g \<noteq> HostIpAddress e \<longrightarrow> map_of hs g = map_of (o_hosts ov) g) \<and> (gomap_ok (o_hosts ov) \<longrightarrow> gomap_ok hs)"
proof -
  let ?h = "HostIpAddress e"
  let ?i = "host_identity (o_templates ov) (o_Blacklist ov) (v_LocalHostIp db) (localTunnelAddress ov db) ?h
    (o_UseHostTunnelSource ov)"
  let ?ov1 = "ov\<lparr>o_hostAttempt := mput ?h True (o_hostAttempt ov)\<rparr>"
  have conf: "hostConnectionConfig (o_templates ov) (o_Blacklist ov) (v_LocalHostIp db) (localTunnelAddress ov db) ?h
      (o_UseHostTunnelSource ov) = Inr (Connection ?i, wanted_fp db ov ?h)"
    by (simp add: hostConnectionConfig_def wanted_fp_def Let_def)
  show ?thesis
  proof (cases "mgetd [] (o_hosts ov) ?h = wanted_fp db ov ?h")
    case True
    then have "ov' = ?ov1"
      using assms by (simp add: addHostConnection_def conf)
    with True show ?thesis by (intro exI[of _ "o_hosts ov"] exI[of _ "o_staleLocal ov"]) simp
  next
    case False
    show ?thesis
    proof (cases "getClient env w")
      case (Pair ge w1)
      show ?thesis
      proof (cases ge)
        case (Some x)
        then have "ov' = ?ov1" "err = Some x"
          using assms False Pair by (simp_all add: addHostConnection_def conf)
        then show ?thesis by (intro exI[of _ "o_hosts ov"] exI[of _ "o_staleLocal ov"]) simp
      next
        case None
        obtain er hs st w2 where l: "loadHostConnection env ?h (Connection ?i) (wanted_fp db ov ?h)
            (o_hosts ov) (o_staleLocal ov) w1 = (er, hs, st, w2)"
          by (metis prod_cases4)
        then have "ov' = ?ov1\<lparr>o_hosts := hs, o_staleLocal := st\<rparr>" "err = er"
          using assms False Pair None by (simp_all add: addHostConnection_def conf)
        then show ?thesis
          using loadHostConnection_hosts[OF l] by (intro exI[of _ hs] exI[of _ st]) auto
      qed
    qed
  qed
qed

text \<open>The settings of the overlay, which no operation changes.\<close>

definition settings :: "Overlay \<Rightarrow> Templates \<times> string \<times> string list \<times> string \<times> bool \<times> bool" where
  "settings ov = (o_templates ov, o_psk ov, o_Blacklist ov, o_NetnsPath ov, o_UseHostTunnelSource ov, o_SyncHostRoutes ov)"

lemma wanted_fp_settings: "settings ov = settings ov' \<Longrightarrow> wanted_fp db ov = wanted_fp db ov'"
  by (simp add: fun_eq_iff settings_def wanted_fp_def localTunnelAddress_def)

lemma addHost_effect:
  assumes "addHost env db e ov w = (err, ov', w')"
  shows "settings ov' = settings ov"
    "err = None \<Longrightarrow> mgetd [] (o_hosts ov') (HostIpAddress e) = wanted_fp db ov (HostIpAddress e)"
    "g \<noteq> HostIpAddress e \<Longrightarrow> map_of (o_hosts ov') g = map_of (o_hosts ov) g"
    "err = None \<Longrightarrow> o_hostAttempt ov' = mput (HostIpAddress e) True (o_hostAttempt ov)"
    "gomap_ok (o_hosts ov) \<Longrightarrow> gomap_ok (o_hosts ov')"
    "err = None \<Longrightarrow> mgetd [] (o_keys ov') (split_head CHR ''/'' (HostIpAddress e)) = o_psk ov"
    "mgetd [] (o_keys ov) b = o_psk ov \<Longrightarrow> mgetd [] (o_keys ov') b = o_psk ov"
    "o_initiating ov' = o_initiating ov"
proof -
  obtain kerr ov1 w1 where k: "loadSharedKey env (HostIpAddress e) ov w = (kerr, ov1, w1)"
    by (metis prod_cases3)
  obtain ka ks where ov1: "ov1 = ov\<lparr>o_keyAttempt := ka, o_keys := ks\<rparr>"
    using loadSharedKey_frame[OF k] by blast
  note keys = loadSharedKey_keys[OF k, unfolded ov1]
  have "settings ov1 = settings ov" by (simp add: ov1 settings_def)
  note fp = wanted_fp_settings[OF this]
  have "settings ov' = settings ov \<and>
    (err = None \<longrightarrow> mgetd [] (o_hosts ov') (HostIpAddress e) = wanted_fp db ov (HostIpAddress e)) \<and>
    (\<forall>g. g \<noteq> HostIpAddress e \<longrightarrow> map_of (o_hosts ov') g = map_of (o_hosts ov) g) \<and>
    (err = None \<longrightarrow> o_hostAttempt ov' = mput (HostIpAddress e) True (o_hostAttempt ov)) \<and>
    (gomap_ok (o_hosts ov) \<longrightarrow> gomap_ok (o_hosts ov')) \<and>
    (err = None \<longrightarrow> mgetd [] (o_keys ov') (split_head CHR ''/'' (HostIpAddress e)) = o_psk ov) \<and>
    (\<forall>b. mgetd [] (o_keys ov) b = o_psk ov \<longrightarrow> mgetd [] (o_keys ov') b = o_psk ov) \<and>
    o_initiating ov' = o_initiating ov"
  proof (cases kerr)
    case (Some x)
    then have "err = Some x" "ov' = ov1" using assms k by (simp_all add: addHost_def)
    then show ?thesis using keys(3) by (simp add: ov1 settings_def)
  next
    case None
    then have "addHostConnection env db e ov1 w1 = (err, ov', w')" using assms k by (simp add: addHost_def)
    from addHostConnection_effect[OF this] show ?thesis
      using keys(1)[OF None] keys(3) fp by (auto simp: ov1 settings_def)
  qed
  then show "settings ov' = settings ov"
    "err = None \<Longrightarrow> mgetd [] (o_hosts ov') (HostIpAddress e) = wanted_fp db ov (HostIpAddress e)"
    "g \<noteq> HostIpAddress e \<Longrightarrow> map_of (o_hosts ov') g = map_of (o_hosts ov) g"
    "err = None \<Longrightarrow> o_hostAttempt ov' = mput (HostIpAddress e) True (o_hostAttempt ov)"
    "gomap_ok (o_hosts ov) \<Longrightarrow> gomap_ok (o_hosts ov')"
    "err = None \<Longrightarrow> mgetd [] (o_keys ov') (split_head CHR ''/'' (HostIpAddress e)) = o_psk ov"
    "mgetd [] (o_keys ov) b = o_psk ov \<Longrightarrow> mgetd [] (o_keys ov') b = o_psk ov"
    "o_initiating ov' = o_initiating ov"
    by blast+
qed

section \<open>The loop over the entries\<close>

text \<open>Entries on other hosts, their hosts, and the addresses for which a key is loaded.\<close>

definition remote_entries :: "store_view \<Rightarrow> entry list \<Rightarrow> entry list" where
  "remote_entries db es = filter (\<lambda>e. HostIpAddress e \<noteq> v_LocalHostIp db) es"

definition remote_hosts :: "store_view \<Rightarrow> entry list \<Rightarrow> string set" where
  "remote_hosts db es = HostIpAddress ` set (remote_entries db es)"

definition key_owners :: "store_view \<Rightarrow> entry list \<Rightarrow> string set" where
  "key_owners db es = insert [] (split_head CHR ''/'' ` (IpAddress ` {e \<in> set es. Peer e} \<union> remote_hosts db es))"

definition rules_list :: "string \<Rightarrow> entry list \<Rightarrow> XfrmPolicy list" where
  "rules_list localAddr es = concat (map (\<lambda>e. case entry_policies localAddr e of Inl _ \<Rightarrow> [] | Inr ps \<Rightarrow> ps) es)"

text \<open>
  What holds after the loop has processed \<open>es\<close> without an error: all hosts seen are attempted and
  loaded with the wanted fingerprint, all keys are loaded, the policy maps are the result of wanting
  the policies of the remote entries.
\<close>

definition conf_inv :: "store_view \<Rightarrow> Overlay \<Rightarrow> policies \<Rightarrow> entry list \<Rightarrow> 'w configuring \<Rightarrow> bool" where
  "conf_inv db ov0 E0 es c \<longleftrightarrow>
     (let ov = cf_overlay c; la = localTunnelAddress ov0 db
      in settings ov = settings ov0 \<and> (gomap_ok (o_hosts ov0) \<longrightarrow> gomap_ok (o_hosts ov)) \<and>
         o_initiating ov = o_initiating ov0 \<and>
         {h. mtest (cf_hosts c) h} = remote_hosts db es \<and> gomap_ok (cf_hosts c) \<and> keys (cf_hosts c) = remote_hosts db es \<and>
         {h. mtest (o_hostAttempt ov) h} = remote_hosts db es \<and>
         (\<forall>h \<in> remote_hosts db es. mgetd [] (o_hosts ov) h = wanted_fp db ov0 h) \<and>
         (\<forall>a \<in> key_owners db es. mgetd [] (o_keys ov) a = o_psk ov0) \<and>
         (\<forall>e \<in> set (remote_entries db es). \<exists>ps. entry_policies la e = Inr ps) \<and>
         cf_policies c = foldl want_policy (E0, []) (rules_list la (remote_entries db es)))"

lemma localTunnelAddress_settings: "settings ov = settings ov' \<Longrightarrow> localTunnelAddress ov = localTunnelAddress ov'"
  by (simp add: fun_eq_iff settings_def localTunnelAddress_def)

definition with_key :: "'w ipsec_env \<Rightarrow> entry \<Rightarrow> 'w configuring \<Rightarrow> 'w configuring" where
  "with_key env e c = (if Peer e then snd (conf_call (loadSharedKey env (IpAddress e)) c) else c)"

definition with_host :: "'w ipsec_env \<Rightarrow> store_view \<Rightarrow> entry \<Rightarrow> 'w configuring \<Rightarrow> 'w configuring" where
  "with_host env db e c =
     (if mtest (cf_hosts c) (HostIpAddress e) then c
      else let (err, c') = conf_call (addHost env db e) c
           in if err = None then c'\<lparr>cf_hosts := mput (HostIpAddress e) True (cf_hosts c')\<rparr> else c')"

definition with_rules :: "store_view \<Rightarrow> entry \<Rightarrow> 'w configuring \<Rightarrow> 'w configuring" where
  "with_rules db e c =
     (case addRules (localTunnelAddress (cf_overlay c) db) e (cf_policies c) of
        (err, ps) \<Rightarrow> c\<lparr>cf_firstErr := note_err (cf_firstErr c) err, cf_policies := ps\<rparr>)"

lemma configure_entry_eq:
  "configure_entry env db c e =
   (let c1 = with_key env e c
    in if v_LocalHostIp db = HostIpAddress e then c1
       else with_rules db e (with_host env db e (c1\<lparr>cf_hostRoutes := mput (ipNoCidr e) e (cf_hostRoutes c1)\<rparr>)))"
  by (simp add: configure_entry_def with_key_def with_host_def with_rules_def Let_def)

lemma conf_call_None:
  "cf_firstErr (snd (conf_call f c)) = None \<Longrightarrow> cf_firstErr c = None \<and> fst (conf_call f c) = None"
  by (simp add: conf_call_def note_err_None split: prod.splits)

lemma with_key_None: "cf_firstErr (with_key env e c) = None \<Longrightarrow> cf_firstErr c = None"
  using conf_call_None[of "loadSharedKey env (IpAddress e)" c] by (simp add: with_key_def split: if_splits)

lemma with_host_None: "cf_firstErr (with_host env db e c) = None \<Longrightarrow> cf_firstErr c = None"
  using conf_call_None[of "addHost env db e" c] by (auto simp: with_host_def Let_def split: prod.splits if_splits)

lemma with_rules_None: "cf_firstErr (with_rules db e c) = None \<Longrightarrow> cf_firstErr c = None"
  by (auto simp: with_rules_def note_err_None split: prod.splits)

lemma configure_entry_None:
  assumes "cf_firstErr (configure_entry env db c e) = None"
  shows "cf_firstErr c = None"
proof (cases "v_LocalHostIp db = HostIpAddress e")
  case True
  then show ?thesis using assms with_key_None[of env e c] by (simp add: configure_entry_eq)
next
  case False
  let ?c1 = "with_key env e c"
  let ?c2 = "?c1\<lparr>cf_hostRoutes := mput (ipNoCidr e) e (cf_hostRoutes ?c1)\<rparr>"
  have "cf_firstErr (with_rules db e (with_host env db e ?c2)) = None"
    using assms False by (simp add: configure_entry_eq Let_def)
  then have "cf_firstErr ?c2 = None" by (rule with_host_None[OF with_rules_None])
  then show ?thesis using with_key_None[of env e c] by simp
qed

lemma configure_fold_None:
  "cf_firstErr (foldl (configure_entry env db) c es) = None \<Longrightarrow> cf_firstErr c = None"
proof (induction es arbitrary: c)
  case (Cons e es)
  then show ?case using configure_entry_None[of env db c e] by simp
qed simp

text \<open>One entry: the three parts of the loop body keep the invariant while no error occurs.\<close>

lemma mtest_mput_True: "{h. mtest (mput k True m) h} = insert k {h. mtest m h}"
  by auto

lemma with_key_inv:
  assumes "conf_inv db ov0 E0 es c" "cf_firstErr (with_key env e c) = None"
  shows "conf_inv db ov0 E0 es (with_key env e c) \<and>
    (Peer e \<longrightarrow> mgetd [] (o_keys (cf_overlay (with_key env e c))) (split_head CHR ''/'' (IpAddress e)) = o_psk ov0)"
proof (cases "Peer e")
  case True
  obtain err ov w where k: "loadSharedKey env (IpAddress e) (cf_overlay c) (cf_world c) = (err, ov, w)"
    by (metis prod_cases3)
  have err: "err = None" using assms(2) True by (simp add: with_key_def conf_call_def k note_err_None)
  have psk: "o_psk (cf_overlay c) = o_psk ov0" using assms(1) by (simp add: conf_inv_def Let_def settings_def)
  have ov: "o_hosts ov = o_hosts (cf_overlay c)" "o_hostAttempt ov = o_hostAttempt (cf_overlay c)"
      "settings ov = settings (cf_overlay c)" "o_initiating ov = o_initiating (cf_overlay c)"
    by (subst loadSharedKey_frame[OF k], simp add: settings_def)+
  have c': "with_key env e c = c\<lparr>cf_firstErr := cf_firstErr c, cf_overlay := ov, cf_world := w\<rparr>"
    using True err by (simp add: with_key_def conf_call_def k note_err_def)
  show ?thesis
    using assms(1) loadSharedKey_keys(1,3)[OF k] err psk
    unfolding conf_inv_def Let_def c' by (simp add: ov)
qed (use assms in \<open>simp add: with_key_def\<close>)

lemma with_host_inv:
  assumes "conf_inv db ov0 E0 es c" "cf_firstErr (with_host env db e c) = None" "HostIpAddress e \<noteq> v_LocalHostIp db"
    and "Peer e \<longrightarrow> mgetd [] (o_keys (cf_overlay c)) (split_head CHR ''/'' (IpAddress e)) = o_psk ov0"
  shows "let c' = with_host env db e c; ov = cf_overlay c' in
    settings ov = settings ov0 \<and> (gomap_ok (o_hosts ov0) \<longrightarrow> gomap_ok (o_hosts ov)) \<and> o_initiating ov = o_initiating ov0 \<and>
    {h. mtest (cf_hosts c') h} = remote_hosts db (es @ [e]) \<and> gomap_ok (cf_hosts c') \<and>
    keys (cf_hosts c') = remote_hosts db (es @ [e]) \<and>
    {h. mtest (o_hostAttempt ov) h} = remote_hosts db (es @ [e]) \<and>
    (\<forall>h \<in> remote_hosts db (es @ [e]). mgetd [] (o_hosts ov) h = wanted_fp db ov0 h) \<and>
    (\<forall>a \<in> key_owners db (es @ [e]). mgetd [] (o_keys ov) a = o_psk ov0) \<and> cf_policies c' = cf_policies c"
proof -
  let ?h = "HostIpAddress e"
  have rh: "remote_hosts db (es @ [e]) = insert ?h (remote_hosts db es)"
    using assms(3) by (auto simp: remote_hosts_def remote_entries_def)
  have ko: "key_owners db (es @ [e]) = key_owners db es \<union> (if Peer e then {split_head CHR ''/'' (IpAddress e)} else {}) \<union>
      {split_head CHR ''/'' ?h}"
    using rh by (auto simp: key_owners_def)
  note inv = assms(1)[unfolded conf_inv_def Let_def]
  show ?thesis
  proof (cases "mtest (cf_hosts c) ?h")
    case True
    then have "?h \<in> remote_hosts db es" using inv by blast
    then have "insert ?h (remote_hosts db es) = remote_hosts db es"
      "key_owners db (es @ [e]) = key_owners db es \<union> (if Peer e then {split_head CHR ''/'' (IpAddress e)} else {})"
      unfolding ko by (auto simp: key_owners_def)
    then show ?thesis using True inv assms(4) by (auto simp: with_host_def rh Let_def)
  next
    case False
    obtain err ov w where a: "addHost env db e (cf_overlay c) (cf_world c) = (err, ov, w)" by (metis prod_cases3)
    have err: "err = None"
      using assms(2) False by (cases err) (auto simp: with_host_def conf_call_def a note_err_None)
    note eff = addHost_effect[OF a]
    have c': "with_host env db e c =
        c\<lparr>cf_firstErr := cf_firstErr c, cf_overlay := ov, cf_world := w, cf_hosts := mput ?h True (cf_hosts c)\<rparr>"
      using False err by (simp add: with_host_def conf_call_def a note_err_def)
    have st: "settings (cf_overlay c) = settings ov0" using inv by blast
    then have psk: "o_psk (cf_overlay c) = o_psk ov0" by (simp add: settings_def)
    have fp: "wanted_fp db (cf_overlay c) = wanted_fp db ov0" by (rule wanted_fp_settings[OF st])
    have hosts: "mgetd [] (o_hosts ov) h = wanted_fp db ov0 h" if "h \<in> insert ?h (remote_hosts db es)" for h
      using that eff(2)[OF err] eff(3)[of h] inv by (cases "h = ?h") (auto simp: fp mgetd_def)
    have ks: "mgetd [] (o_keys ov) a = o_psk ov0" if "a \<in> key_owners db (es @ [e])" for a
      using that eff(6)[OF err] eff(7)[of a] inv assms(4) unfolding ko psk by (auto split: if_splits)
    show ?thesis
      unfolding Let_def c' rh
      using inv eff(1,8) st eff(5) hosts ks eff(4)[OF err] by (auto simp: mtest_mput_True rh)
  qed
qed

lemma with_rules_inv:
  assumes "cf_firstErr (with_rules db e c) = None" "settings (cf_overlay c) = settings ov0"
  shows "\<exists>ps. entry_policies (localTunnelAddress ov0 db) e = Inr ps \<and>
    with_rules db e c = c\<lparr>cf_policies := foldl want_policy (cf_policies c) ps\<rparr>"
proof -
  have la: "localTunnelAddress (cf_overlay c) db = localTunnelAddress ov0 db"
    using localTunnelAddress_settings[OF assms(2)] by simp
  show ?thesis
  proof (cases "entry_policies (localTunnelAddress ov0 db) e")
    case (Inl err)
    then show ?thesis using assms(1) by (simp add: with_rules_def addRules_def la note_err_None)
  next
    case (Inr ps)
    then show ?thesis by (simp add: with_rules_def addRules_def la note_err_def)
  qed
qed

lemma configure_entry_inv:
  assumes "conf_inv db ov0 E0 es c" "cf_firstErr (configure_entry env db c e) = None"
  shows "conf_inv db ov0 E0 (es @ [e]) (configure_entry env db c e)"
proof (cases "v_LocalHostIp db = HostIpAddress e")
  case True
  then have eq: "configure_entry env db c e = with_key env e c" by (simp add: configure_entry_eq)
  have "remote_entries db (es @ [e]) = remote_entries db es" using True by (simp add: remote_entries_def)
  moreover from this have "remote_hosts db (es @ [e]) = remote_hosts db es" by (simp add: remote_hosts_def)
  moreover have "key_owners db (es @ [e]) =
      key_owners db es \<union> (if Peer e then {split_head CHR ''/'' (IpAddress e)} else {})"
    by (auto simp: key_owners_def calculation(2))
  ultimately show ?thesis
    using with_key_inv[OF assms(1), of env e] assms(2) unfolding eq conf_inv_def Let_def by auto
next
  case False
  let ?c1 = "with_key env e c"
  let ?c2 = "?c1\<lparr>cf_hostRoutes := mput (ipNoCidr e) e (cf_hostRoutes ?c1)\<rparr>"
  let ?c3 = "with_host env db e ?c2"
  have eq: "configure_entry env db c e = with_rules db e ?c3" using False by (simp add: configure_entry_eq Let_def)
  have n3: "cf_firstErr ?c3 = None" using assms(2) unfolding eq by (rule with_rules_None)
  then have n1: "cf_firstErr ?c1 = None" using with_host_None[OF n3] by simp
  have i1: "conf_inv db ov0 E0 es ?c2"
    "Peer e \<longrightarrow> mgetd [] (o_keys (cf_overlay ?c2)) (split_head CHR ''/'' (IpAddress e)) = o_psk ov0"
    using with_key_inv[OF assms(1) n1] by (simp_all add: conf_inv_def Let_def)
  note h = with_host_inv[OF i1(1) n3 False[symmetric] i1(2), unfolded Let_def]
  then have st: "settings (cf_overlay ?c3) = settings ov0" by blast
  obtain ps where ps: "entry_policies (localTunnelAddress ov0 db) e = Inr ps"
      "with_rules db e ?c3 = ?c3\<lparr>cf_policies := foldl want_policy (cf_policies ?c3) ps\<rparr>"
    using with_rules_inv[OF _ st, of db e] assms(2) unfolding eq by blast
  have re: "remote_entries db (es @ [e]) = remote_entries db es @ [e]"
    using False by (simp add: remote_entries_def)
  have rl: "rules_list (localTunnelAddress ov0 db) (remote_entries db es @ [e]) =
      rules_list (localTunnelAddress ov0 db) (remote_entries db es) @ ps"
    by (simp add: rules_list_def ps)
  have pol: "cf_policies ?c3 = foldl want_policy (E0, []) (rules_list (localTunnelAddress ov0 db) (remote_entries db es))"
    using h i1(1) by (simp add: conf_inv_def Let_def)
  have ok: "\<forall>e' \<in> set (remote_entries db es). \<exists>ps. entry_policies (localTunnelAddress ov0 db) e' = Inr ps"
    using i1(1) by (simp add: conf_inv_def Let_def)
  show ?thesis
    unfolding eq ps(2) conf_inv_def Let_def
    using h pol ok ps(1) by (simp add: re rl)
qed

lemma configure_fold_inv:
  assumes "conf_inv db ov0 E0 [] c" "cf_firstErr (foldl (configure_entry env db) c es) = None"
  shows "conf_inv db ov0 E0 es (foldl (configure_entry env db) c es)"
  using assms(2)
proof (induction es rule: rev_induct)
  case (snoc e es)
  then have n: "cf_firstErr (configure_entry env db (foldl (configure_entry env db) c es) e) = None" by simp
  show ?case using configure_entry_inv[OF snoc.IH[OF configure_entry_None[OF n]] n] by simp
qed (simp add: assms(1))

section \<open>The phases after the loop\<close>

lemma xfrmHandle_frame: "xfrmHandle env ov w = (err, ov', w') \<Longrightarrow> ov' = ov\<lparr>o_netlinkHandle := o_netlinkHandle ov'\<rparr>"
  unfolding xfrmHandle_def by (auto split: if_splits prod.splits option.splits intro!: Overlay.equality)

text \<open>Everything that the policy and route phases leave alone in the overlay object.\<close>

definition same_but_handle :: "Overlay \<Rightarrow> Overlay \<Rightarrow> bool" where
  "same_but_handle ov ov' \<longleftrightarrow> ov' = ov\<lparr>o_netlinkHandle := o_netlinkHandle ov'\<rparr>"

lemma same_but_handle_refl [simp]: "same_but_handle ov ov"
  by (simp add: same_but_handle_def)

lemma same_but_handle_trans: "same_but_handle a b \<Longrightarrow> same_but_handle b c \<Longrightarrow> same_but_handle a c"
  unfolding same_but_handle_def by (cases a; cases b; cases c) simp

lemma xfrmHandle_same: "xfrmHandle env ov w = (err, ov', w') \<Longrightarrow> same_but_handle ov ov'"
  using xfrmHandle_frame unfolding same_but_handle_def .

lemma getRules_same: "getRules env ov w = (r, ov', w') \<Longrightarrow> same_but_handle ov ov'"
  unfolding getRules_def
  by (auto split: prod.splits option.splits sum.splits dest: xfrmHandle_same)

lemma deletePolicies_same: "deletePolicies env ro E ov w = (err, ov', w') \<Longrightarrow> same_but_handle ov ov'"
  unfolding deletePolicies_def by (auto split: prod.splits option.splits dest: xfrmHandle_same)

lemma addPolicies_same: "addPolicies env ro A ov w = (err, ov', w') \<Longrightarrow> same_but_handle ov ov'"
  unfolding addPolicies_def by (auto split: prod.splits option.splits dest: xfrmHandle_same)

lemma routeDevice_same: "routeDevice env ip ov w = (r, ov', w') \<Longrightarrow> same_but_handle ov ov'"
  unfolding routeDevice_def Let_def
  by (auto split: prod.splits option.splits sum.splits list.splits if_splits dest: xfrmHandle_same)

lemma sync_step_same:
  assumes "sync_step env (f, d, ov, w) ie = (f', d', ov', w')"
  shows "same_but_handle ov ov'"
  using assms unfolding sync_step_def Let_def
  by (cases ie) (auto split: prod.splits sum.splits if_splits dest: routeDevice_same)

lemma sync_fold_same:
  "foldl (sync_step env) (f, d, ov, w) xs = (f', d', ov', w') \<Longrightarrow> same_but_handle ov ov'"
proof (induction xs arbitrary: f d ov w)
  case (Cons x xs)
  obtain f1 d1 ov1 w1 where s: "sync_step env (f, d, ov, w) x = (f1, d1, ov1, w1)" by (metis prod_cases4)
  show ?case
    using Cons sync_step_same[OF s] same_but_handle_trans by (fastforce simp: s)
qed simp

lemma syncHostRoutes_same: "syncHostRoutes env ro hr ov w = (err, ov', w') \<Longrightarrow> same_but_handle ov ov'"
  unfolding syncHostRoutes_def
  by (auto split: prod.splits option.splits sum.splits if_splits
      dest!: xfrmHandle_same sync_fold_same intro: same_but_handle_trans)

lemma reap_phase_frame:
  "reap_phase env db hosts ov w = (err, ov', w') \<Longrightarrow> ov' = ov\<lparr>o_staleLocal := o_staleLocal ov'\<rparr>"
  unfolding reap_phase_def
  by (auto split: prod.splits option.splits if_splits intro!: Overlay.equality)

lemma removeHosts_step_frame:
  "removeHosts_step env (f, ov, w) kv = (f', ov', w') \<Longrightarrow>
   ov' = ov\<lparr>o_hosts := o_hosts ov', o_staleLocal := o_staleLocal ov'\<rparr>"
  unfolding removeHosts_step_def Let_def
  by (auto split: prod.splits option.splits if_splits intro!: Overlay.equality)

lemma removeHosts_step_None:
  assumes "removeHosts_step env (f, ov, w) (k, v) = (None, ov', w')"
  shows "f = None"
    "map_of (o_hosts ov') = (if mtest (o_hostAttempt ov) k then map_of (o_hosts ov) else (map_of (o_hosts ov))(k := None))"
    "o_hostAttempt ov' = o_hostAttempt ov" "settings ov' = settings ov" "o_initiating ov' = o_initiating ov"
    "o_keys ov' = o_keys ov"
  using assms unfolding removeHosts_step_def Let_def
  by (auto simp: handleErr_def settings_def split: prod.splits option.splits if_splits)

lemma removeHosts_fold:
  assumes "foldl (removeHosts_step env) (f, ov, w) xs = (None, ov', w')"
  shows "f = None \<and>
    (\<forall>h. map_of (o_hosts ov') h =
       (if h \<in> fst ` set xs \<and> \<not> mtest (o_hostAttempt ov) h then None else map_of (o_hosts ov) h)) \<and>
    settings ov' = settings ov \<and> o_initiating ov' = o_initiating ov \<and> o_keys ov' = o_keys ov"
  using assms
proof (induction xs arbitrary: f ov w)
  case (Cons kv xs)
  obtain k v where kv: "kv = (k, v)" by (cases kv)
  obtain f1 ov1 w1 where s: "removeHosts_step env (f, ov, w) (k, v) = (f1, ov1, w1)" by (metis prod_cases3)
  have "foldl (removeHosts_step env) (f1, ov1, w1) xs = (None, ov', w')" using Cons.prems by (simp add: kv s)
  note ih = Cons.IH[OF this]
  then have f1: "f1 = None" by blast
  note st = removeHosts_step_None[OF s[unfolded f1]]
  show ?case using ih st by (auto simp: kv)
qed simp

lemma removeHosts_None:
  assumes "valid_order ro" "removeHosts env ro ov w = (None, ov', w')"
  shows "map_of (o_hosts ov') h = (if mtest (o_hostAttempt ov) h then map_of (o_hosts ov) h else None)"
    "settings ov' = settings ov" "o_initiating ov' = o_initiating ov" "o_keys ov' = o_keys ov"
proof -
  have k: "h \<in> fst ` set (go_range ro 4 (o_hosts ov)) \<longleftrightarrow> map_of (o_hosts ov) h \<noteq> None"
    using set_go_range[OF assms(1), where m = "o_hosts ov" and i = 4] by (force simp: image_iff)
  note r = removeHosts_fold[OF assms(2)[unfolded removeHosts_def]]
  show "map_of (o_hosts ov') h = (if mtest (o_hostAttempt ov) h then map_of (o_hosts ov) h else None)"
    using r k by (cases "map_of (o_hosts ov) h") auto
  show "settings ov' = settings ov" "o_initiating ov' = o_initiating ov" "o_keys ov' = o_keys ov"
    using r by blast+
qed

lemma phase_None:
  assumes "phase f s = (None, ov', w')"
  obtains ov w where "s = (None, ov, w)" "f ov w = (None, ov', w')"
  using assms unfolding phase_def by (auto split: prod.splits option.splits)

text \<open>The stages of a successful configuration.\<close>

lemma configure_None:
  assumes "configure env ro db ov w = (None, targets, ov', w')"
  obtains t w0 c E A ov1 w1 ov2 w2 ov3 w3 ov4 w4 w5 ov6 where
    "Templates_Reload env (o_templates ov) w = (None, t, w0)"
    "c = foldl (configure_entry env db)
       (configure_start env (ov\<lparr>o_templates := t, o_keyAttempt := [], o_hostAttempt := []\<rparr>) w0) (v_Entries db)"
    "cf_firstErr c = None" "cf_policies c = (E, A)"
    "deletePolicies env ro E (cf_overlay c) (cf_world c) = (None, ov1, w1)"
    "addPolicies env ro A ov1 w1 = (None, ov2, w2)"
    "syncHostRoutes env ro (cf_hostRoutes c) ov2 w2 = (None, ov3, w3)"
    "reap_phase env db (cf_hosts c) ov3 w3 = (None, ov4, w4)"
    "restartForStalePeerIdentities env db w4 = (None, w5)"
    "removeHosts env ro ov4 w5 = (None, ov6, w')"
    "scheduleInitiatesLocked ro (cf_hosts c) ov6 = (targets, ov')"
proof -
  obtain t w0 where t: "Templates_Reload env (o_templates ov) w = (None, t, w0)"
    using assms by (auto simp: configure_def split: prod.splits option.splits)
  define c where "c = foldl (configure_entry env db)
       (configure_start env (ov\<lparr>o_templates := t, o_keyAttempt := [], o_hostAttempt := []\<rparr>) w0) (v_Entries db)"
  obtain E A where EA: "cf_policies c = (E, A)" by (cases "cf_policies c")
  define s4 where "s4 = phase (reap_phase env db (cf_hosts c)) (phase (syncHostRoutes env ro (cf_hostRoutes c))
     (phase (addPolicies env ro A) (phase (deletePolicies env ro E) (cf_firstErr c, cf_overlay c, cf_world c))))"
  define s6 where "s6 = phase (removeHosts env ro)
     (phase (\<lambda>ov w. let (err, w') = restartForStalePeerIdentities env db w in (err, ov, w')) s4)"
  have conf: "configure env ro db ov w =
     (case s6 of (Some e, ov', w') \<Rightarrow> (Some e, [], ov', w')
      | (None, ov', w') \<Rightarrow> let (targets, ov'') = scheduleInitiatesLocked ro (cf_hosts c) ov' in (None, targets, ov'', w'))"
    unfolding configure_def configure_loaded_def t Let_def prod.case option.case Overlay.update_convs Overlay.select_convs
      c_def[symmetric] EA s4_def s6_def by (rule refl)
  obtain ov6 where s6: "s6 = (None, ov6, w')" "scheduleInitiatesLocked ro (cf_hosts c) ov6 = (targets, ov')"
    using assms unfolding conf by (auto split: prod.splits option.splits)
  obtain ov5 w5 where p6: "phase (\<lambda>ov w. let (err, w') = restartForStalePeerIdentities env db w in (err, ov, w')) s4 =
      (None, ov5, w5)" "removeHosts env ro ov5 w5 = (None, ov6, w')"
    using s6(1) unfolding s6_def by (rule phase_None)
  obtain ov4 w4 where s4: "s4 = (None, ov4, w4)"
      "(let (err, w') = restartForStalePeerIdentities env db w4 in (err, ov4, w')) = (None, ov5, w5)"
    using p6(1) by (rule phase_None)
  then have p5: "restartForStalePeerIdentities env db w4 = (None, w5)" "ov5 = ov4"
    by (auto split: prod.splits)
  obtain ov3 w3 where s3: "phase (syncHostRoutes env ro (cf_hostRoutes c)) (phase (addPolicies env ro A)
      (phase (deletePolicies env ro E) (cf_firstErr c, cf_overlay c, cf_world c))) = (None, ov3, w3)"
      and p4: "reap_phase env db (cf_hosts c) ov3 w3 = (None, ov4, w4)"
    using s4(1) unfolding s4_def by (rule phase_None)
  obtain ov2 w2 where s2: "phase (addPolicies env ro A)
      (phase (deletePolicies env ro E) (cf_firstErr c, cf_overlay c, cf_world c)) = (None, ov2, w2)"
      and p3: "syncHostRoutes env ro (cf_hostRoutes c) ov2 w2 = (None, ov3, w3)"
    using s3 by (rule phase_None)
  obtain ov1 w1 where s1: "phase (deletePolicies env ro E) (cf_firstErr c, cf_overlay c, cf_world c) = (None, ov1, w1)"
      and p2: "addPolicies env ro A ov1 w1 = (None, ov2, w2)"
    using s2 by (rule phase_None)
  obtain ov0 wc where s0: "(cf_firstErr c, cf_overlay c, cf_world c) = (None, ov0, wc)"
      and p1: "deletePolicies env ro E ov0 wc = (None, ov1, w1)"
    using s1 by (rule phase_None)
  show thesis
    using s0 p6(2) by (intro that[OF t c_def _ EA _ p2 p3 p4 p5(1) _ s6(2)]) (simp_all add: p1 p5(2))
qed

lemma configure_start_inv:
  assumes "c = configure_start env ov0 w" "cf_firstErr c = None" "o_hostAttempt ov0 = []"
  obtains ps ov1 w1 w2 where "xfrmHandle env ov0 w = (None, ov1, w1)" "env_PolicyList env w1 = (Inr ps, w2)"
    "conf_inv db ov0 (rules_of ps) [] c" "cf_world c = snd (snd (loadSharedKey env [] ov1 w2))"
proof -
  obtain r ov1 w2 where g: "getRules env ov0 w = (r, ov1, w2)" by (metis prod_cases3)
  obtain err ov2 w3 where k: "loadSharedKey env [] ov1 w2 = (err, ov2, w3)" by (metis prod_cases3)
  have e: "err = None" "\<exists>m. r = Inr m"
    using assms(1,2) by (auto simp: configure_start_def g conf_call_def k note_err_None handleErr_def split: sum.splits)
  then obtain m where m: "r = Inr m" by blast
  obtain w1 ps where p: "xfrmHandle env ov0 w = (None, ov1, w1)" "env_PolicyList env w1 = (Inr ps, w2)" "m = rules_of ps"
    using g m by (auto simp: getRules_def split: prod.splits option.splits sum.splits)
  note ov1 = xfrmHandle_frame[OF p(1)]
  have s1: "settings ov1 = settings ov0" "o_hosts ov1 = o_hosts ov0" "o_hostAttempt ov1 = o_hostAttempt ov0"
      "o_initiating ov1 = o_initiating ov0" "o_psk ov1 = o_psk ov0"
    by (subst ov1, simp add: settings_def)+
  have s2: "settings ov2 = settings ov1" "o_hosts ov2 = o_hosts ov1" "o_hostAttempt ov2 = o_hostAttempt ov1"
      "o_initiating ov2 = o_initiating ov1"
    by (subst loadSharedKey_frame[OF k], simp add: settings_def)+
  have key: "mgetd [] (o_keys ov2) [] = o_psk ov0"
    using loadSharedKey_keys(1)[OF k e(1)] s1(5) by (simp add: split_head_def)
  have c: "cf_hosts c = []" "cf_policies c = (rules_of ps, [])" "cf_overlay c = ov2" "cf_world c = w3"
    using assms(1) by (simp_all add: configure_start_def g m conf_call_def k p(3))
  have "conf_inv db ov0 (rules_of ps) [] c"
    using s1 s2 key assms(3)
    by (simp add: conf_inv_def c remote_hosts_def remote_entries_def key_owners_def rules_list_def)
  then show thesis using that[OF p(1,2)] c(4) k by simp
qed

section \<open>A successful configuration\<close>

lemma fingerprint_not_Nil [simp]: "fingerprint i \<noteq> []"
  by (simp add: fingerprint_def enc_identity_def)

lemma wanted_fp_not_Nil: "wanted_fp db ov h \<noteq> []"
  by (simp add: wanted_fp_def)

lemma schedule_targets:
  assumes "scheduleInitiatesLocked ro hosts ov = (targets, ov')" "valid_order ro" "gomap_ok hosts"
  shows "targets = sorted_list_of_set {h \<in> keys hosts. h \<noteq> [] \<and> \<not> mtest (o_initiating ov) h}"
    "{h. mtest (o_initiating ov') h} = {h. mtest (o_initiating ov) h} \<union> set targets"
    "settings ov' = settings ov" "o_hosts ov' = o_hosts ov" "o_keys ov' = o_keys ov"
proof -
  let ?ts = "filter (\<lambda>h. h \<noteq> [] \<and> \<not> mtest (o_initiating ov) h) (map fst (go_range ro 5 hosts))"
  have t: "targets = sort ?ts" "ov' = ov\<lparr>o_initiating := foldl (\<lambda>m h. mput h True m) (o_initiating ov) ?ts\<rparr>"
    using assms(1) by (simp_all add: scheduleInitiatesLocked_def Let_def)
  have "distinct ?ts" using distinct_go_range[OF assms(2,3)] by simp
  then have "sort ?ts = sorted_list_of_set (set ?ts)" by (simp only: sorted_list_of_set_sort_remdups distinct_remdups_id)
  moreover have "set ?ts = {h \<in> keys hosts. h \<noteq> [] \<and> \<not> mtest (o_initiating ov) h}"
    using set_go_range[OF assms(2), where m = hosts and i = 5] by (force simp: image_iff)
  ultimately show "targets = sorted_list_of_set {h \<in> keys hosts. h \<noteq> [] \<and> \<not> mtest (o_initiating ov) h}"
    using t(1) by simp
  have "{h. mtest (foldl (\<lambda>m h. mput h True m) m ts) h} = {h. mtest m h} \<union> set ts" for m ts
    by (induction ts arbitrary: m) auto
  then show "{h. mtest (o_initiating ov') h} = {h. mtest (o_initiating ov) h} \<union> set targets"
    using t by simp
  show "settings ov' = settings ov" "o_hosts ov' = o_hosts ov" "o_keys ov' = o_keys ov"
    using t(2) by (simp_all add: settings_def)
qed

lemma entries_loop_inv:
  assumes "c = foldl (configure_entry env db) (configure_start env ov0 w0) es" "cf_firstErr c = None" "o_hostAttempt ov0 = []"
  obtains ps where "conf_inv db ov0 (rules_of ps) es c"
proof -
  have n0: "cf_firstErr (configure_start env ov0 w0) = None" using assms configure_fold_None by blast
  obtain ps where "conf_inv db ov0 (rules_of ps) [] (configure_start env ov0 w0)"
    by (rule configure_start_inv[OF refl n0]) (use assms(3) in auto)
  from configure_fold_inv[OF this, of env es] assms that show thesis by simp
qed

text \<open>The phases between the entries and the removal of hosts keep what the entries have loaded.\<close>

lemma policy_phases_frame:
  assumes "deletePolicies env ro E ov w = (None, ov1, w1)" "addPolicies env ro A ov1 w1 = (None, ov2, w2)"
    "syncHostRoutes env ro hr ov2 w2 = (None, ov3, w3)" "reap_phase env db hosts ov3 w3 = (None, ov4, w4)"
  shows "settings ov4 = settings ov" "o_hosts ov4 = o_hosts ov" "o_hostAttempt ov4 = o_hostAttempt ov"
    "o_keys ov4 = o_keys ov" "o_initiating ov4 = o_initiating ov"
proof -
  have "same_but_handle ov ov3"
    using deletePolicies_same[OF assms(1)] addPolicies_same[OF assms(2)] syncHostRoutes_same[OF assms(3)]
    by (blast intro: same_but_handle_trans)
  then have s3: "ov3 = ov\<lparr>o_netlinkHandle := o_netlinkHandle ov3\<rparr>" by (simp add: same_but_handle_def)
  show "settings ov4 = settings ov" "o_hosts ov4 = o_hosts ov" "o_hostAttempt ov4 = o_hostAttempt ov"
    "o_keys ov4 = o_keys ov" "o_initiating ov4 = o_initiating ov"
    by (subst reap_phase_frame[OF assms(4)], subst s3, simp add: settings_def)+
qed

lemma recorded_fp:
  assumes "conf_inv db ov0 R es c" "h \<in> remote_hosts db es"
  shows "map_of (o_hosts (cf_overlay c)) h = Some (wanted_fp db ov0 h)"
proof -
  have "mgetd [] (o_hosts (cf_overlay c)) h = wanted_fp db ov0 h" using assms by (simp add: conf_inv_def Let_def)
  then show ?thesis
    using wanted_fp_not_Nil[of db ov0 h] by (cases "map_of (o_hosts (cf_overlay c)) h") (auto simp: mgetd_def)
qed

lemma configured_hosts:
  assumes "valid_order ro" "configure env ro db ov w = (None, targets, ov', w')"
  shows "map_of (o_hosts ov') =
      (\<lambda>h. if h \<in> remote_hosts db (v_Entries db) then Some (wanted_fp db ov' h) else None) \<and>
    (\<forall>a \<in> key_owners db (v_Entries db). mgetd [] (o_keys ov') a = o_psk ov) \<and>
    targets = sorted_list_of_set {h \<in> remote_hosts db (v_Entries db). h \<noteq> [] \<and> \<not> mtest (o_initiating ov) h} \<and>
    {h. mtest (o_initiating ov') h} = {h. mtest (o_initiating ov) h} \<union> set targets"
proof -
  obtain t w0 c E A ov1 w1 ov2 w2 ov3 w3 ov4 w4 w5 ov6 where st:
    "c = foldl (configure_entry env db)
       (configure_start env (ov\<lparr>o_templates := t, o_keyAttempt := [], o_hostAttempt := []\<rparr>) w0) (v_Entries db)"
    "cf_firstErr c = None"
    "deletePolicies env ro E (cf_overlay c) (cf_world c) = (None, ov1, w1)"
    "addPolicies env ro A ov1 w1 = (None, ov2, w2)"
    "syncHostRoutes env ro (cf_hostRoutes c) ov2 w2 = (None, ov3, w3)"
    "reap_phase env db (cf_hosts c) ov3 w3 = (None, ov4, w4)"
    "removeHosts env ro ov4 w5 = (None, ov6, w')"
    "scheduleInitiatesLocked ro (cf_hosts c) ov6 = (targets, ov')"
    by (rule configure_None[OF assms(2)]) blast
  let ?ov0 = "ov\<lparr>o_templates := t, o_keyAttempt := [], o_hostAttempt := []\<rparr>"
  obtain ps where inv: "conf_inv db ?ov0 (rules_of ps) (v_Entries db) c" by (rule entries_loop_inv[OF st(1,2)]) simp_all
  note fr = policy_phases_frame[OF st(3-6)]
  have s4: "settings ov4 = settings ?ov0" "o_hosts ov4 = o_hosts (cf_overlay c)"
    "{h. mtest (o_hostAttempt ov4) h} = remote_hosts db (v_Entries db)"
    "o_keys ov4 = o_keys (cf_overlay c)" "o_initiating ov4 = o_initiating ov"
    using inv fr by (simp_all add: conf_inv_def Let_def)
  note rm = removeHosts_None[OF assms(1) st(7)]
  have ok: "gomap_ok (cf_hosts c)" "keys (cf_hosts c) = remote_hosts db (v_Entries db)"
    using inv by (simp_all add: conf_inv_def Let_def)
  note sc = schedule_targets[OF st(8) assms(1) ok(1)]
  have fp: "wanted_fp db ov' = wanted_fp db ?ov0"
    using sc(3) rm(2) s4(1) by (intro wanted_fp_settings) simp
  have "map_of (o_hosts ov') h = (if h \<in> remote_hosts db (v_Entries db) then Some (wanted_fp db ov' h) else None)" for h
  proof (cases "h \<in> remote_hosts db (v_Entries db)")
    case True
    then have "mtest (o_hostAttempt ov4) h" using s4(3) by blast
    then show ?thesis using True rm(1)[of h] sc(4) s4(2) recorded_fp[OF inv True] unfolding fp by simp
  next
    case False
    then have "\<not> mtest (o_hostAttempt ov4) h" using s4(3) by blast
    then show ?thesis using False rm(1)[of h] sc(4) by simp
  qed
  moreover have "\<forall>a \<in> key_owners db (v_Entries db). mgetd [] (o_keys ov') a = o_psk ov"
    using inv sc(5) rm(4) s4(4) by (simp add: conf_inv_def Let_def)
  ultimately show ?thesis
    using sc(1,2) rm(3) s4(5) ok(2) by (simp add: fun_eq_iff)
qed

lemma configured_entries:
  assumes "configure env ro db ov w = (None, targets, ov', w')" "e \<in> set (remote_entries db (v_Entries db))"
  shows "\<exists>ps. entry_policies (localTunnelAddress ov db) e = Inr ps"
proof -
  obtain t w0 c E A ov1 w1 ov2 w2 ov3 w3 ov4 w4 w5 ov6 where st:
    "c = foldl (configure_entry env db)
       (configure_start env (ov\<lparr>o_templates := t, o_keyAttempt := [], o_hostAttempt := []\<rparr>) w0) (v_Entries db)"
    "cf_firstErr c = None"
    by (rule configure_None[OF assms(1)]) blast
  let ?ov0 = "ov\<lparr>o_templates := t, o_keyAttempt := [], o_hostAttempt := []\<rparr>"
  obtain ps where "conf_inv db ?ov0 (rules_of ps) (v_Entries db) c" by (rule entries_loop_inv[OF st(1,2)]) simp_all
  moreover have "localTunnelAddress ?ov0 db = localTunnelAddress ov db" by (simp add: localTunnelAddress_def)
  ultimately show ?thesis using assms(2) by (simp add: conf_inv_def Let_def)
qed

text \<open>
  C3. After a configuration without an error the overlay knows exactly the hosts of the entries on
  other hosts, each under the fingerprint of the connection it should have now; the shared key is
  recorded for every owner (everyone, the peers' addresses, the remote hosts); and the hosts whose
  initiation it starts are the remote hosts that are not being initiated yet, in order.
\<close>

theorem configure_hosts:
  assumes "valid_order ro" "configure env ro db ov w = (None, targets, ov', w')"
  shows "map_of (o_hosts ov') =
      (\<lambda>h. if h \<in> remote_hosts db (v_Entries db) then Some (wanted_fp db ov' h) else None) \<and>
    (\<forall>a \<in> key_owners db (v_Entries db). mgetd [] (o_keys ov') a = o_psk ov) \<and>
    targets = sorted_list_of_set {h \<in> remote_hosts db (v_Entries db). h \<noteq> [] \<and> \<not> mtest (o_initiating ov) h} \<and>
    {h. mtest (o_initiating ov') h} = {h. mtest (o_initiating ov) h} \<union> set targets"
  using configured_hosts[OF assms] .


end
