(* ===== verification/Ipsec_Reconciled.thy ===== *)
theory Ipsec_Reconciled
  imports Ipsec_Configure
begin

text \<open>
  The kernel's policy table after a configuration of the IPsec backend, and a concrete environment
  (a policy table that obeys the kernel hypothesis, a charon that accepts every request, empty
  templates) on which the theorems about \<^verbatim>\<open>configure\<close> are applied.
\<close>

section \<open>What leaves the policy table alone\<close>

text \<open>Everything outside the kernel's policy interface.\<close>

definition policy_frame :: "'w ipsec_env \<Rightarrow> ('w \<Rightarrow> 't) \<Rightarrow> bool" where
  "policy_frame env table \<longleftrightarrow>
     keeps table (env_Dial env) \<and> (\<forall>w. table (env_Close env w) = table w) \<and>
     (\<forall>cmd m. keeps table (env_Request env cmd m)) \<and> keeps table (env_ListSas env) \<and>
     (\<forall>ip. keeps table (env_RouteGet env ip)) \<and> (\<forall>i. keeps table (env_LinkByIndex env i)) \<and>
     keeps table (env_RouteList env) \<and> (\<forall>c args. keeps table (env_Exec env c args)) \<and>
     (\<forall>f. keeps table (env_ReadFile env f)) \<and> (\<forall>p. keeps table (env_Kill env p))"

lemma policy_frameD:
  assumes "policy_frame env table"
  shows "env_Dial env w = (e, w') \<Longrightarrow> table w' = table w" "table (env_Close env w) = table w"
    "env_Request env cmd m w = (r, w') \<Longrightarrow> table w' = table w"
    "env_ListSas env w = (ls, w') \<Longrightarrow> table w' = table w"
    "env_RouteGet env ip w = (rs, w') \<Longrightarrow> table w' = table w"
    "env_LinkByIndex env i w = (l, w') \<Longrightarrow> table w' = table w"
    "env_RouteList env w = (rs, w') \<Longrightarrow> table w' = table w"
    "env_Exec env c args w = (o', w') \<Longrightarrow> table w' = table w"
    "env_ReadFile env f w = (b, w') \<Longrightarrow> table w' = table w"
    "env_Kill env p w = (k, w') \<Longrightarrow> table w' = table w"
proof -
  have k: "keeps table (env_Dial env)" "keeps table (env_Request env cmd m)" "keeps table (env_ListSas env)"
    "keeps table (env_RouteGet env ip)" "keeps table (env_LinkByIndex env i)" "keeps table (env_RouteList env)"
    "keeps table (env_Exec env c args)" "keeps table (env_ReadFile env f)" "keeps table (env_Kill env p)"
    using assms by (simp_all add: policy_frame_def)
  show "table (env_Close env w) = table w" using assms by (simp add: policy_frame_def)
  show "env_Dial env w = (e, w') \<Longrightarrow> table w' = table w" by (rule keepsD[OF k(1)])
  show "env_Request env cmd m w = (r, w') \<Longrightarrow> table w' = table w" by (rule keepsD[OF k(2)])
  show "env_ListSas env w = (ls, w') \<Longrightarrow> table w' = table w" by (rule keepsD[OF k(3)])
  show "env_RouteGet env ip w = (rs, w') \<Longrightarrow> table w' = table w" by (rule keepsD[OF k(4)])
  show "env_LinkByIndex env i w = (l, w') \<Longrightarrow> table w' = table w" by (rule keepsD[OF k(5)])
  show "env_RouteList env w = (rs, w') \<Longrightarrow> table w' = table w" by (rule keepsD[OF k(6)])
  show "env_Exec env c args w = (o', w') \<Longrightarrow> table w' = table w" by (rule keepsD[OF k(7)])
  show "env_ReadFile env f w = (b, w') \<Longrightarrow> table w' = table w" by (rule keepsD[OF k(8)])
  show "env_Kill env p w = (k, w') \<Longrightarrow> table w' = table w" by (rule keepsD[OF k(9)])
qed

lemma getClient_table:
  assumes "policy_frame env table" "getClient env w = (e, w')"
  shows "table w' = table w"
proof -
  have "getClient_loop env n err w = (e, w') \<Longrightarrow> table w' = table w" for n err w
  proof (induction n arbitrary: err w)
    case (Suc n)
    obtain d w1 where d: "env_Dial env w = (d, w1)" by (cases "env_Dial env w")
    show ?case using Suc policy_frameD(1)[OF assms(1) d] by (cases d) (auto simp: d)
  qed simp
  then show ?thesis using assms(2) by (simp add: getClient_def)
qed

lemma LoadShared_table:
  assumes "policy_frame env table" "LoadShared env key ip w = (e, w')"
  shows "table w' = table w"
  using assms(2) unfolding LoadShared_def Let_def
  by (auto split: sum.splits prod.splits dest: policy_frameD(3)[OF assms(1)])

lemma loadSharedKey_table:
  assumes "policy_frame env table" "loadSharedKey env a ov w = (e, ov', w')"
  shows "table w' = table w"
  using assms(2) unfolding loadSharedKey_def Let_def
  by (auto simp: policy_frameD(2)[OF assms(1)] split: if_splits prod.splits option.splits
      dest!: getClient_table[OF assms(1)] LoadShared_table[OF assms(1)])

lemma loadIKEConnection_table:
  assumes "policy_frame env table" "loadIKEConnection env n conf w = (e, w')"
  shows "table w' = table w"
  using assms(2) unfolding loadIKEConnection_def
  by (auto split: sum.splits prod.splits dest: policy_frameD(3)[OF assms(1)])

lemma load_attempts_table:
  assumes "policy_frame env table"
  shows "load_attempts env k n conf err w = (e, w') \<Longrightarrow> table w' = table w"
proof (induction k arbitrary: err w)
  case (Suc k)
  obtain d w1 where d: "loadIKEConnection env n conf w = (d, w1)" by (cases "loadIKEConnection env n conf w")
  show ?case using Suc loadIKEConnection_table[OF assms d] by (cases d) (auto simp: d)
qed simp

lemma loadHostConnection_table:
  assumes "policy_frame env table" "loadHostConnection env h conf fp hs st w = (e, hs', st', w')"
  shows "table w' = table w"
  using assms(2) unfolding loadHostConnection_def
  by (auto split: if_splits prod.splits option.splits dest: load_attempts_table[OF assms(1)])

lemma addHostConnection_table:
  assumes "policy_frame env table" "addHostConnection env db en ov w = (e, ov', w')"
  shows "table w' = table w"
  using assms(2) unfolding addHostConnection_def Let_def
  by (auto simp: policy_frameD(2)[OF assms(1)] split: if_splits prod.splits option.splits sum.splits
      dest!: getClient_table[OF assms(1)] loadHostConnection_table[OF assms(1)])

lemma addHost_table:
  assumes "policy_frame env table" "addHost env db en ov w = (e, ov', w')"
  shows "table w' = table w"
  using assms(2) unfolding addHost_def
  by (auto split: prod.splits option.splits
      dest!: loadSharedKey_table[OF assms(1)] addHostConnection_table[OF assms(1)])

lemma conf_call_table:
  assumes "\<And>e ov' w'. f (cf_overlay c) (cf_world c) = (e, ov', w') \<Longrightarrow> table w' = table (cf_world c)"
  shows "table (cf_world (snd (conf_call f c))) = table (cf_world c)"
  using assms by (auto simp: conf_call_def split: prod.split)

lemma configure_entry_table:
  assumes "policy_frame env table"
  shows "table (cf_world (configure_entry env db c e)) = table (cf_world c)"
proof -
  have k: "table (cf_world (with_key env e c)) = table (cf_world c)"
    using conf_call_table[of "loadSharedKey env (IpAddress e)" c table] loadSharedKey_table[OF assms]
    by (auto simp: with_key_def)
  have h: "table (cf_world (with_host env db e c)) = table (cf_world c)" for c
    using conf_call_table[of "addHost env db e" c table] addHost_table[OF assms]
    by (auto simp: with_host_def Let_def split: prod.splits)
  have r: "cf_world (with_rules db e c) = cf_world c" for c
    by (simp add: with_rules_def split: prod.split)
  show ?thesis by (simp add: configure_entry_eq Let_def k h r)
qed

lemma configure_fold_table:
  assumes "policy_frame env table"
  shows "table (cf_world (foldl (configure_entry env db) c es)) = table (cf_world c)"
  by (induction es arbitrary: c) (simp_all add: configure_entry_table[OF assms])

lemma Templates_Reload_table:
  assumes "policy_frame env table" "Templates_Reload env t w = (e, t', w')"
  shows "table w' = table w"
  using assms(2) unfolding Templates_Reload_def loadBytes_def Let_def
  by (auto split: prod.splits option.splits sum.splits if_splits dest!: policy_frameD(9)[OF assms(1)])

text \<open>The handle and the route phase; these use the kernel's netlink socket as well.\<close>

lemma runIP_table:
  assumes "policy_frame env table" "runIP env ov args w = (e, w')"
  shows "table w' = table w"
  using assms(2) unfolding runIP_def runCommand_def execInNetns_def
  by (auto split: prod.splits option.splits dest!: policy_frameD(8)[OF assms(1)])

lemma routeDevice_table:
  assumes "policy_frame env table" "xfrm_kernel env table" "routeDevice env ip ov w = (r, ov', w')"
  shows "table w' = table w"
  using assms(3) unfolding routeDevice_def Let_def
  by (auto split: prod.splits option.splits sum.splits list.splits if_splits
      dest!: policy_frameD(5,6)[OF assms(1)] xfrm_kernel_handle[OF assms(2)])

lemma sync_step_table:
  assumes "policy_frame env table" "xfrm_kernel env table" "sync_step env (f, d, ov, w) ie = (f', d', ov', w')"
  shows "table w' = table w"
  using assms(3) unfolding sync_step_def Let_def
  by (cases ie) (auto split: prod.splits sum.splits if_splits
      dest!: routeDevice_table[OF assms(1,2)] runIP_table[OF assms(1)])

lemma sync_fold_table:
  assumes "policy_frame env table" "xfrm_kernel env table"
  shows "foldl (sync_step env) (f, d, ov, w) xs = (f', d', ov', w') \<Longrightarrow> table w' = table w"
proof (induction xs arbitrary: f d ov w)
  case (Cons x xs)
  obtain f1 d1 ov1 w1 where s: "sync_step env (f, d, ov, w) x = (f1, d1, ov1, w1)" by (metis prod_cases4)
  show ?case using Cons sync_step_table[OF assms s] by (simp add: s)
qed simp

lemma stale_fold_table:
  assumes "policy_frame env table"
  shows "table (snd (foldl (stale_step env ips ov) (f, w) rs)) = table w"
proof (induction rs arbitrary: f w)
  case (Cons r rs)
  obtain f1 w1 where s: "stale_step env ips ov (f, w) r = (f1, w1)" by (cases "stale_step env ips ov (f, w) r")
  then have "table w1 = table w"
    unfolding stale_step_def
    by (auto split: option.splits prod.splits dest: runIP_table[OF assms])
  with Cons s show ?case by simp
qed simp

lemma syncHostRoutes_table:
  assumes "policy_frame env table" "xfrm_kernel env table" "syncHostRoutes env ro hr ov w = (e, ov', w')"
  shows "table w' = table w"
proof (cases "o_SyncHostRoutes ov")
  case True
  obtain f1 ips ov1 w1 where s: "foldl (sync_step env) (None, [], ov, w) (go_range ro 3 hr) = (f1, ips, ov1, w1)"
    by (metis prod_cases4)
  obtain he ov2 w2 where h: "xfrmHandle env ov1 w1 = (he, ov2, w2)" by (metis prod_cases3)
  obtain rl w3 where l: "env_RouteList env w2 = (rl, w3)" by (cases "env_RouteList env w2")
  have t: "table w1 = table w" "table w2 = table w1" "table w3 = table w2"
    using sync_fold_table[OF assms(1,2) s] xfrm_kernel_handle[OF assms(2) h] policy_frameD(7)[OF assms(1) l] by auto
  show ?thesis
  proof (cases he)
    case None
    show ?thesis
    proof (cases rl)
      case (Inr rs)
      then show ?thesis
        using assms(3) True s h l None t stale_fold_table[OF assms(1), of ips ov2 f1 w3 rs]
        by (auto simp: syncHostRoutes_def split: prod.splits)
    qed (use assms(3) True s h l None t in \<open>simp add: syncHostRoutes_def\<close>)
  qed (use assms(3) True s h t in \<open>simp add: syncHostRoutes_def\<close>)
qed (use assms(3) in \<open>simp add: syncHostRoutes_def\<close>)

lemma terminate_all_table:
  assumes "policy_frame env table"
  shows "terminate_all env ids w = (e, w') \<Longrightarrow> table w' = table w"
proof (induction ids arbitrary: w)
  case (Cons i ids)
  obtain te w1 where t: "terminateIKEID env i w = (te, w1)" by (cases "terminateIKEID env i w")
  then have "table w1 = table w"
    unfolding terminateIKEID_def by (auto split: prod.splits sum.splits dest: policy_frameD(3)[OF assms])
  with Cons t show ?case by (cases te) auto
qed simp

lemma reap_phase_table:
  assumes "policy_frame env table" "reap_phase env db hosts ov w = (e, ov', w')"
  shows "table w' = table w"
  using assms(2) unfolding reap_phase_def reapStaleLocalSAs_def
  by (auto simp: policy_frameD(2)[OF assms(1)] split: if_splits prod.splits option.splits sum.splits
      dest!: getClient_table[OF assms(1)] policy_frameD(4)[OF assms(1)] terminate_all_table[OF assms(1)])

lemma restartCharon_table:
  assumes "policy_frame env table"
  shows "table (restartCharonForRecovery env h w) = table w"
proof -
  have k: "table (snd (env_Kill env n w)) = table w" for n w
    using policy_frameD(10)[OF assms, of n w] by (cases "env_Kill env n w") simp
  show ?thesis
    using policy_frameD(9)[OF assms]
    by (auto simp: restartCharonForRecovery_def killCharon_def k split: prod.split sum.split option.split)
qed

lemma restartForStale_table:
  assumes "policy_frame env table" "restartForStalePeerIdentities env db w = (e, w')"
  shows "table w' = table w"
  using assms(2) unfolding restartForStalePeerIdentities_def Let_def
  by (auto simp: policy_frameD(2)[OF assms(1)] restartCharon_table[OF assms(1)]
      split: if_splits prod.splits option.splits sum.splits
      dest!: getClient_table[OF assms(1)] policy_frameD(4)[OF assms(1)])

lemma removeHost_table:
  assumes "policy_frame env table" "removeHost env h w = (e, w')"
  shows "table w' = table w"
  using assms(2) unfolding removeHost_def UnloadConn_def Let_def
  by (auto simp: policy_frameD(2)[OF assms(1)] split: prod.splits option.splits sum.splits
      dest!: getClient_table[OF assms(1)] policy_frameD(3)[OF assms(1)])

lemma removeHosts_table:
  assumes "policy_frame env table" "removeHosts env ro ov w = (e, ov', w')"
  shows "table w' = table w"
proof -
  have "table (snd (snd (foldl (removeHosts_step env) (f, ov, w) xs))) = table w" for f ov w xs
  proof (induction xs arbitrary: f ov w)
    case (Cons kv xs)
    obtain f1 ov1 w1 where s: "removeHosts_step env (f, ov, w) kv = (f1, ov1, w1)" by (metis prod_cases3)
    then have "table w1 = table w"
      unfolding removeHosts_step_def Let_def
      by (auto split: if_splits prod.splits option.splits dest: removeHost_table[OF assms(1)])
    with Cons s show ?case by simp
  qed simp
  from this[of None ov w "go_range ro 4 (o_hosts ov)"] assms(2) show ?thesis by (simp add: removeHosts_def)
qed

section \<open>The policies after a configuration\<close>

lemma entry_policies_managed: "entry_policies la e = Inr ps \<Longrightarrow> list_all managed_dir ps"
  by (auto simp: entry_policies_def Let_def tunnel_policy_def managed_dir_def split: option.splits)

lemma rules_list_managed: "list_all managed_dir (rules_list la es)"
  using entry_policies_managed by (induction es) (auto simp: rules_list_def split: sum.split)

lemma configured_policies:
  assumes "xfrm_kernel env table" "policy_frame env table" "valid_order ro"
    and "inj_on selector (table w)" "inj_on toKey {p \<in> table w. managed_dir p}"
    and "configure env ro db ov w = (None, targets, ov', w')"
  shows "managed_keys (table w') =
    toKey ` set (rules_list (localTunnelAddress ov db) (remote_entries db (v_Entries db)))"
proof -
  obtain t w0 c E A ov1 w1 ov2 w2 ov3 w3 ov4 w4 w5 ov6 where st:
    "Templates_Reload env (o_templates ov) w = (None, t, w0)"
    "c = foldl (configure_entry env db)
       (configure_start env (ov\<lparr>o_templates := t, o_keyAttempt := [], o_hostAttempt := []\<rparr>) w0) (v_Entries db)"
    "cf_firstErr c = None" "cf_policies c = (E, A)"
    "deletePolicies env ro E (cf_overlay c) (cf_world c) = (None, ov1, w1)"
    "addPolicies env ro A ov1 w1 = (None, ov2, w2)"
    "syncHostRoutes env ro (cf_hostRoutes c) ov2 w2 = (None, ov3, w3)"
    "reap_phase env db (cf_hosts c) ov3 w3 = (None, ov4, w4)"
    "restartForStalePeerIdentities env db w4 = (None, w5)"
    "removeHosts env ro ov4 w5 = (None, ov6, w')"
    by (rule configure_None[OF assms(6)]) blast
  let ?ov0 = "ov\<lparr>o_templates := t, o_keyAttempt := [], o_hostAttempt := []\<rparr>"
  let ?c0 = "configure_start env ?ov0 w0"
  have n0: "cf_firstErr ?c0 = None" using st(2,3) configure_fold_None by blast
  obtain ps ovh wh wl where s0: "xfrmHandle env ?ov0 w0 = (None, ovh, wh)" "env_PolicyList env wh = (Inr ps, wl)"
      "conf_inv db ?ov0 (rules_of ps) [] ?c0" "cf_world ?c0 = snd (snd (loadSharedKey env [] ovh wl))"
    by (rule configure_start_inv[OF refl n0]) auto
  have inv: "conf_inv db ?ov0 (rules_of ps) (v_Entries db) c"
    using configure_fold_inv[OF s0(3), of env "v_Entries db"] st(2,3) by simp
  have la: "localTunnelAddress ?ov0 db = localTunnelAddress ov db" by (simp add: localTunnelAddress_def)
  have f: "foldl want_policy (rules_of ps, []) (rules_list (localTunnelAddress ov db) (remote_entries db (v_Entries db))) = (E, A)"
    using inv st(4) by (simp add: conf_inv_def Let_def la)
  have tw: "table wh = table w" "table wl = table w"
    using Templates_Reload_table[OF assms(2) st(1)] xfrm_kernel_handle[OF assms(1) s0(1)]
      xfrm_kernel_list(1)[OF assms(1) s0(2)] by auto
  have ps: "set ps = table w" using xfrm_kernel_list(2)[OF assms(1) s0(2)] tw by simp
  have "table (cf_world ?c0) = table w"
    using loadSharedKey_table[OF assms(2), of "[]" ovh wl] tw s0(4) by (metis prod.collapse)
  then have tc: "table (cf_world c) = table w" using configure_fold_table[OF assms(2)] st(2) by metis
  have inj: "inj_on toKey {p \<in> set ps. managed_dir p}" using assms(5) ps by simp
  have "managed_keys (table w2) = toKey ` set (rules_list (localTunnelAddress ov db) (remote_entries db (v_Entries db)))"
    by (rule reconcile_keys[OF assms(1,3,3,4) inj ps rules_list_managed f tc st(5,6)])
  moreover have "table w' = table w2"
    using syncHostRoutes_table[OF assms(2,1) st(7)] reap_phase_table[OF assms(2) st(8)]
      restartForStale_table[OF assms(2) st(9)] removeHosts_table[OF assms(2) st(10)] by simp
  ultimately show ?thesis by simp
qed


section \<open>A concrete environment\<close>

text \<open>
  The world is the kernel's list of policies. Charon accepts every request and has no associations,
  both template files are empty documents, and commands succeed.
\<close>

definition example_env :: "XfrmPolicy list ipsec_env" where
  "example_env =
     \<lparr>env_Dial = (\<lambda>w. (None, w)), env_Close = (\<lambda>w. w),
      env_Request = (\<lambda>_ _ w. (Inr [(''success'', GStr ''yes'')], w)),
      env_ListSas = (\<lambda>w. (Inr [], w)), env_ListConns = (\<lambda>w. (Inr [], w)),
      env_NewHandle = (\<lambda>w. (None, w)), env_GetNetns = (\<lambda>_ w. (None, w)), env_NewHandleAt = (\<lambda>_ w. (None, w)),
      env_PolicyList = (\<lambda>w. (Inr w, w)),
      env_PolicyDel = (\<lambda>p w. if list_ex (\<lambda>q. selector q = selector p) w
         then (None, filter (\<lambda>q. selector q \<noteq> selector p) w) else (Some (EnvError ''no such policy''), w)),
      env_PolicyAdd = (\<lambda>p w. if list_ex (\<lambda>q. selector q = selector p) w
         then (Some (EnvError ''file exists''), w) else (None, w @ [p])),
      env_RouteGet = (\<lambda>_ w. (Inr [\<lparr>r_Protocol = 2, r_Dst = None, r_LinkIndex = 3\<rparr>], w)),
      env_LinkByIndex = (\<lambda>_ w. (Inr ''eth0'', w)), env_RouteList = (\<lambda>w. (Inr [], w)),
      env_Exec = (\<lambda>_ _ w. (([], None), w)), env_ReadFile = (\<lambda>_ w. (Inr ''{}'', w)),
      env_Kill = (\<lambda>_ w. (None, w))\<rparr>"

lemma example_kernel: "xfrm_kernel example_env set"
proof -
  have del: "set w' = (if err = None then {q \<in> set w. selector q \<noteq> selector p} else set w)"
    if "env_PolicyDel example_env p w = (err, w')" for p w err w'
    using that by (auto simp: example_env_def split: if_splits)
  have add: "if err = None then \<exists>q. toKey q = toKey p \<and> p_Dir q = p_Dir p \<and> set w' = insert q (set w) else set w' = set w"
    if "env_PolicyAdd example_env p w = (err, w')" for p w err w'
    using that by (auto simp: example_env_def split: if_splits)
  have fr: "keeps set (env_PolicyList example_env)" "keeps set (env_NewHandle example_env)"
    "\<forall>s. keeps set (env_GetNetns example_env s)" "\<forall>s. keeps set (env_NewHandleAt example_env s)"
    by (simp_all add: keeps_def example_env_def)
  have li: "\<forall>w w' ps. env_PolicyList example_env w = (Inr ps, w') \<longrightarrow> set ps = set w"
    by (simp add: example_env_def)
  show ?thesis
    unfolding xfrm_kernel_def
    by (intro conjI fr li allI impI del add)
qed

lemma example_frame: "policy_frame example_env set"
  by (simp add: policy_frame_def keeps_def example_env_def)

definition example_db :: store_view where
  "example_db = \<lparr>v_LocalHostIp = ''192.0.2.10'', v_LocalIp = ''10.42.0.1'',
     v_Entries = [\<lparr>IpAddress = ''10.42.0.1/16'', HostIpAddress = ''192.0.2.10'', Self = True, Peer = True\<rparr>,
       \<lparr>IpAddress = ''10.42.0.3/16'', HostIpAddress = ''192.0.2.20'', Self = False, Peer = False\<rparr>],
     v_PeerEntries = [(''10.42.0.1'', \<lparr>IpAddress = ''10.42.0.1/16'', HostIpAddress = ''192.0.2.10'', Self = True, Peer = True\<rparr>)]\<rparr>"

definition example_overlay :: Overlay where
  "example_overlay = (NewOverlay ''/etc/ipsec'')\<lparr>o_psk := ''{}'', o_hosts := [(''192.0.2.30'', [])]\<rparr>"

text \<open>A policy of an entry that is gone.\<close>

definition example_stale :: "XfrmPolicy list" where
  "example_stale = take 1 (rules_list ''10.42.0.1''
     [\<lparr>IpAddress = ''10.42.0.9/16'', HostIpAddress = ''192.0.2.30'', Self = False, Peer = False\<rparr>])"

lemma empty_templates_ok:
  "snd (unmarshal dec_ike zeroIke ''{}'') = None" "snd (unmarshal dec_child zeroChild ''{}'') = None"
  by code_simp+

text \<open>The revision of the templates is a digest; the examples hold whatever it is.\<close>

definition empty_templates :: "string \<Rightarrow> string \<Rightarrow> Templates" where
  "empty_templates dir R = \<lparr>tm_ConfigDir = dir, tm_ikeConf = ''{}'', tm_childSaConf = ''{}'', tm_revision = R\<rparr>"

lemma empty_reload:
  assumes "env_ReadFile env = (\<lambda>_ w. (Inr ''{}'', w))"
  shows "Templates_Reload env t w = (None, empty_templates (tm_ConfigDir t) (hexString (sha1 (''{}'' @ ''{}''))), w)"
  by (simp add: Templates_Reload_def loadBytes_def assms empty_templates_ok empty_templates_def Let_def del: append_Cons)

lemma inj_on_short: "length xs \<le> 1 \<Longrightarrow> inj_on f (set xs)"
  by (cases xs; cases "tl xs") auto

lemma example_loaded:
  "fst (configure_loaded example_env (\<lambda>_ ks. ks) example_db
     (example_overlay\<lparr>o_templates := empty_templates ''/etc/ipsec'' R\<rparr>) example_stale) = None"
  by code_simp

lemma example_configure:
  obtains targets ov' w' where "configure example_env (\<lambda>_ ks. ks) example_db example_overlay example_stale = (None, targets, ov', w')"
proof -
  let ?R = "hexString (sha1 (''{}'' @ ''{}''))"
  have f: "env_ReadFile example_env = (\<lambda>_ w. (Inr ''{}'', w))" by (simp add: example_env_def)
  have d: "tm_ConfigDir (o_templates example_overlay) = ''/etc/ipsec''"
    by (simp add: example_overlay_def NewOverlay_def)
  have "configure example_env (\<lambda>_ ks. ks) example_db example_overlay example_stale =
      configure_loaded example_env (\<lambda>_ ks. ks) example_db
        (example_overlay\<lparr>o_templates := empty_templates ''/etc/ipsec'' ?R\<rparr>) example_stale"
    unfolding configure_def empty_reload[OF f] d by simp
  then show thesis using example_loaded[of ?R] that by (metis prod.collapse)
qed

theorem configure_hosts_witness:
  "\<exists>targets ov' w'. configure example_env (\<lambda>_ ks. ks) example_db example_overlay example_stale = (None, targets, ov', w') \<and>
     dom (map_of (o_hosts ov')) = {''192.0.2.20''} \<and> targets = [''192.0.2.20'']"
proof -
  obtain targets ov' w' where r: "configure example_env (\<lambda>_ ks. ks) example_db example_overlay example_stale = (None, targets, ov', w')"
    by (rule example_configure)
  have h: "remote_hosts example_db (v_Entries example_db) = {''192.0.2.20''}"
    by (simp add: remote_hosts_def remote_entries_def example_db_def)
  have i: "o_initiating example_overlay = []" by (simp add: example_overlay_def NewOverlay_def)
  have t: "sorted_list_of_set {x \<in> {''192.0.2.20''}. x \<noteq> [] \<and> \<not> mtest [] x} = [''192.0.2.20'']"
  proof -
    have "{x \<in> {''192.0.2.20''}. x \<noteq> [] \<and> \<not> mtest [] x} = {''192.0.2.20''}" by auto
    then show ?thesis using sorted_list_of_set_sort_remdups[of "[''192.0.2.20'']"] by simp
  qed
  note c = configure_hosts[OF valid_order_id r, unfolded h i]
  have dm: "dom (map_of (o_hosts ov')) = {''192.0.2.20''}"
    unfolding conjunct1[OF c] by (simp add: dom_def)
  have tg: "targets = [''192.0.2.20'']"
    using c[THEN conjunct2, THEN conjunct2, THEN conjunct1] unfolding t .
  show ?thesis
    by (rule exI[of _ targets], rule exI[of _ ov'], rule exI[of _ w'], rule conjI[OF r conjI[OF dm tg]])
qed


text \<open>The same with a charon that refuses every request.\<close>

definition refusing_env :: "XfrmPolicy list ipsec_env" where
  "refusing_env = example_env\<lparr>env_Request := (\<lambda>_ _ w. (Inr [(''success'', GStr ''no'')], w))\<rparr>"

lemma refused_loop:
  "cf_firstErr (foldl (configure_entry refusing_env example_db)
     (configure_start refusing_env (example_overlay\<lparr>o_templates := empty_templates ''/etc/ipsec'' R,
        o_keyAttempt := [], o_hostAttempt := []\<rparr>) example_stale) (v_Entries example_db)) =
   Some (Errorf ''unsuccessful loadSharedKey: %v'' [''<nil>''])"
  by code_simp


end
