(* ===== verification/Ipsec_Health.thy ===== *)
theory Ipsec_Health
  imports Ipsec_Reconciled
begin

text \<open>
  The running IPsec backend (\<^verbatim>\<open>backend/ipsec/ipsec.go\<close>): starting and supervising charon,
  initiating CHILD_SAs, the periodic health check, and the goroutines that do this. Sleeps are not
  modelled: they change no state. Each goroutine is a job of the system state; a step of the system
  is a section of the code that holds the overlay's lock, or a change of the world (charon, the
  kernel, and what the goroutines do to them outside the lock).
\<close>

section \<open>Charon\<close>

definition Test :: "'w ipsec_env \<Rightarrow> 'w \<Rightarrow> go_error option \<times> 'w" where
  "Test env w =
     (case getClient env w of
        (Some e, w1) \<Rightarrow> (Some e, w1)
      | (None, w1) \<Rightarrow>
          (case env_ListConns env w1 of
             (Inl e, w2) \<Rightarrow> (Some e, env_Close env w2)
           | (Inr _, w2) \<Rightarrow> (None, env_Close env w2)))"

text \<open>
  One round of the supervision loop from the process id seen before (empty in the first round):
  the process id to go on with, or the fatal error that ends the daemon.
\<close>

definition monitorCharon_round :: "'w ipsec_env \<Rightarrow> string \<Rightarrow> 'w \<Rightarrow> string result \<times> 'w" where
  "monitorCharon_round env pid w =
     (case env_ReadFile env pidFile w of
        (Inl _, w1) \<Rightarrow> (Inl (Errorf ''Failed to read %s'' [pidFile]), w1)
      | (Inr bytes, w1) \<Rightarrow>
          let newPid = trimSpace bytes
          in if pid = [] then (Inr newPid, w1)
             else if pid \<noteq> newPid
             then (Inl (Errorf ''Charon restarted, old PID: %s, new PID: %s'' [pid, newPid]), w1)
             else case Test env w1 of
               (Some _, w2) \<Rightarrow> (Inr pid, killCharon env pid w2)
             | (None, w2) \<Rightarrow> (Inr pid, w2))"

text \<open>The rounds after a number of wake-ups, each of which finds the world that the argument gives.\<close>

fun monitorCharon :: "'w ipsec_env \<Rightarrow> string \<Rightarrow> 'w list \<Rightarrow> string result" where
  "monitorCharon env pid [] = Inr pid"
| "monitorCharon env pid (w # ws) =
     (case fst (monitorCharon_round env pid w) of Inl e \<Rightarrow> Inl e | Inr pid' \<Rightarrow> monitorCharon env pid' ws)"

definition debugSubsystems :: "string list" where
  "debugSubsystems = split_on CHR ''|'' ''dmn|mgr|ike|chd|cfg|knl|net|asn|tnc|imc|imv|pts|tls|esp|lib''"

definition charonArgs :: "bool \<Rightarrow> string list" where
  "charonArgs debugLevel =
     concat (map (\<lambda>i. [''--debug-'' @ i, if debugLevel then ''3'' else ''1'']) debugSubsystems)"

text \<open>
  \<^verbatim>\<open>runCharon\<close> never returns: it ends the daemon with the error it gives here. The removal of the
  old socket, opening the log file and running the process to its end are arguments.
\<close>

definition runCharon ::
  "(string \<Rightarrow> 'w \<Rightarrow> go_error option \<times> 'w) \<Rightarrow> (string \<Rightarrow> 'w \<Rightarrow> go_error option \<times> 'w) \<Rightarrow>
   (string \<Rightarrow> string list \<Rightarrow> string \<Rightarrow> 'w \<Rightarrow> go_error option \<times> 'w) \<Rightarrow>
   bool \<Rightarrow> string \<Rightarrow> string \<Rightarrow> 'w \<Rightarrow> go_error \<times> 'w" where
  "runCharon remove openLog run debugLevel logFile netnsPath w =
     (let (_, w1) = remove ''/var/run/charon.vici'' w;
          (cmd, args) = commandInNetns netnsPath ''charon'' (charonArgs debugLevel)
      in case (if logFile = [] then (None, w1) else openLog logFile w1) of
           (Some e, w2) \<Rightarrow> (Wrapf ''Failed to log to file %s: %s'' [logFile] e, w2)
         | (None, w2) \<Rightarrow>
             (case run cmd args logFile w2 of
                (Some e, w3) \<Rightarrow> (Wrapf ''charon exited: %s'' [] e, w3)
              | (None, w3) \<Rightarrow> (Errorf ''charon exited: %s'' [''<nil>''], w3)))"

section \<open>Initiating CHILD_SAs\<close>

definition installedChildren :: "'w ipsec_env \<Rightarrow> 'w \<Rightarrow> bool gomap result \<times> 'w" where
  "installedChildren env w =
     (case getClient env w of
        (Some e, w1) \<Rightarrow> (Inl e, w1)
      | (None, w1) \<Rightarrow>
          (case env_ListSas env w1 of
             (Inl e, w2) \<Rightarrow> (Inl e, env_Close env w2)
           | (Inr sas, w2) \<Rightarrow> (Inr (installed_of sas), env_Close env w2)))"

definition childInstalled :: "'w ipsec_env \<Rightarrow> string \<Rightarrow> 'w \<Rightarrow> bool \<times> 'w" where
  "childInstalled env child w =
     (case installedChildren env w of
        (Inl _, w1) \<Rightarrow> (False, w1)
      | (Inr installed, w1) \<Rightarrow> (mtest installed child, w1))"

definition conntrackFilters :: "string \<Rightarrow> string list list" where
  "conntrackFilters host = map (\<lambda>flag. [''-D'', ''-p'', ''udp'', flag, host]) [''-d'', ''-s'', ''-r'', ''-q'']"

definition cleanupConntrack :: "'w ipsec_env \<Rightarrow> Overlay \<Rightarrow> string \<Rightarrow> 'w \<Rightarrow> 'w" where
  "cleanupConntrack env ov hostAddr w =
     (let host = split_head CHR ''/'' hostAddr
      in if parseIP host = [] then w
         else foldl (\<lambda>w f. snd (execInNetns env (o_NetnsPath ov) ''conntrack'' f w)) w (conntrackFilters host))"

definition ipsecInitiateAttempts :: nat where "ipsecInitiateAttempts = 3"

definition initiateArgs :: "string \<Rightarrow> string list" where
  "initiateArgs child = [''--initiate'', ''--child'', child, ''--timeout'', ''12'']"

fun initiate_attempts :: "'w ipsec_env \<Rightarrow> Overlay \<Rightarrow> string \<Rightarrow> nat \<Rightarrow> 'w \<Rightarrow> 'w" where
  "initiate_attempts env ov host 0 w = w"
| "initiate_attempts env ov host (Suc n) w =
     (case childInstalled env (''child-'' @ host) w of
        (True, w1) \<Rightarrow> w1
      | (False, w1) \<Rightarrow>
          (case env_Exec env ''swanctl'' (initiateArgs (''child-'' @ host)) (cleanupConntrack env ov host w1) of
             ((_, None), w2) \<Rightarrow> w2
           | ((_, Some _), w2) \<Rightarrow> initiate_attempts env ov host n w2))"

definition initiateHostWithRetry :: "'w ipsec_env \<Rightarrow> Overlay \<Rightarrow> string \<Rightarrow> 'w \<Rightarrow> 'w" where
  "initiateHostWithRetry env ov host w = initiate_attempts env ov host ipsecInitiateAttempts w"

section \<open>The health check\<close>

definition expectedHosts :: "store_view \<Rightarrow> bool gomap" where
  "expectedHosts db =
     foldl (\<lambda>m e. if HostIpAddress e = [] \<or> HostIpAddress e = v_LocalHostIp db then m else mput (HostIpAddress e) True m)
       [] (v_Entries db)"

definition missingHosts :: "map_order \<Rightarrow> bool gomap \<Rightarrow> bool gomap \<Rightarrow> bool gomap" where
  "missingHosts ro expected installed =
     foldl (\<lambda>m (host, _). if mtest installed (''child-'' @ host) then m else mput host True m) [] (go_range ro 6 expected)"

definition reapDuplicateSAs :: "'w ipsec_env \<Rightarrow> map_order \<Rightarrow> bool gomap \<Rightarrow> 'w \<Rightarrow> go_error option \<times> 'w" where
  "reapDuplicateSAs env ro expected w =
     (case getClient env w of
        (Some e, w1) \<Rightarrow> (Some e, w1)
      | (None, w1) \<Rightarrow>
          (case env_ListSas env w1 of
             (Inl e, w2) \<Rightarrow> (Some e, env_Close env w2)
           | (Inr sas, w2) \<Rightarrow>
               let (err, w3) = terminate_all env (deletingDuplicateIKEIDs sas expected @ idleDuplicateIKEIDs ro sas expected) w2
               in (err, env_Close env w3)))"

text \<open>The result is the error, the hosts handed to a new goroutine, the overlay and the world.\<close>

definition reconcileIpsecHealth ::
  "'w ipsec_env \<Rightarrow> map_order \<Rightarrow> store_view \<Rightarrow> Overlay \<Rightarrow> 'w \<Rightarrow> go_error option \<times> string list \<times> Overlay \<times> 'w" where
  "reconcileIpsecHealth env ro db ov w =
     (let expected = expectedHosts db
      in if expected = [] then (None, [], ov, w)
         else case installedChildren env w of
           (Inl e, w1) \<Rightarrow> (Some e, [], ov, w1)
         | (Inr installed, w1) \<Rightarrow>
             let missing = missingHosts ro expected installed;
                 (targets, ov1) = (if missing = [] then ([], ov) else scheduleInitiatesLocked ro missing ov);
                 (err, w2) = reapDuplicateSAs env ro expected w1
             in (err, targets, ov1, w2))"

section \<open>Start\<close>

datatype goroutine =
    RunCharon string string
  | MonitorCharon
  | MonitorIpsecHealth

text \<open>
  \<^verbatim>\<open>Start\<close>: the goroutines it starts and the fatal error, if loading the connections fails.
\<close>

definition Overlay_Start ::
  "'w ipsec_env \<Rightarrow> bool \<Rightarrow> string \<Rightarrow> Overlay \<Rightarrow> 'w \<Rightarrow> goroutine list \<times> go_error option \<times> Overlay \<times> 'w" where
  "Overlay_Start env launch logFile ov w =
     (let g = (if launch then RunCharon logFile (o_NetnsPath ov) else MonitorCharon)
      in case loadConns env ov w of
           (Some e, ov1, w1) \<Rightarrow> ([g], Some (Wrapf ''Failed to load connections from charon: %s'' [] e), ov1, w1)
         | (None, ov1, w1) \<Rightarrow> ([g, MonitorIpsecHealth], None, ov1, w1))"


section \<open>What an initiation does\<close>

text \<open>Recording the commands that are executed, in order.\<close>

type_synonym exec_log = "(string \<times> string list) list"

definition exec_logged :: "'w ipsec_env \<Rightarrow> ('w \<times> exec_log) ipsec_env" where
  "exec_logged env = \<lparr>
     env_Dial = lifted (env_Dial env),
     env_Close = (\<lambda>(w, l). (env_Close env w, l)),
     env_Request = (\<lambda>cmd msg. lifted (env_Request env cmd msg)),
     env_ListSas = lifted (env_ListSas env),
     env_ListConns = lifted (env_ListConns env),
     env_NewHandle = lifted (env_NewHandle env),
     env_GetNetns = (\<lambda>p. lifted (env_GetNetns env p)),
     env_NewHandleAt = (\<lambda>p. lifted (env_NewHandleAt env p)),
     env_PolicyList = lifted (env_PolicyList env),
     env_PolicyDel = (\<lambda>p. lifted (env_PolicyDel env p)),
     env_PolicyAdd = (\<lambda>p. lifted (env_PolicyAdd env p)),
     env_RouteGet = (\<lambda>ip. lifted (env_RouteGet env ip)),
     env_LinkByIndex = (\<lambda>i. lifted (env_LinkByIndex env i)),
     env_RouteList = lifted (env_RouteList env),
     env_Exec = (\<lambda>c args (w, l). let (r, w') = env_Exec env c args w in (r, w', l @ [(c, args)])),
     env_ReadFile = (\<lambda>f. lifted (env_ReadFile env f)),
     env_Kill = (\<lambda>p. lifted (env_Kill env p))\<rparr>"

text \<open>An environment over a world with a log, whose client operations leave the log alone.\<close>

definition client_lifted :: "('w \<times> 'l) ipsec_env \<Rightarrow> 'w ipsec_env \<Rightarrow> bool" where
  "client_lifted envL env \<longleftrightarrow> env_Dial envL = lifted (env_Dial env) \<and>
     env_Close envL = (\<lambda>(w, l). (env_Close env w, l)) \<and> env_ListSas envL = lifted (env_ListSas env)"

lemma client_lifted_logged [simp, intro!]: "client_lifted (logged env) env" "client_lifted (exec_logged env) env"
  by (simp_all add: client_lifted_def logged_def exec_logged_def)

lemma lifted_pair [simp]: "lifted f (w, l) = (fst (f w), snd (f w), l)"
  by (simp add: lifted_def case_prod_beta)

lemma getClient_lifted:
  assumes "client_lifted envL env"
  shows "getClient envL (w, l) = (fst (getClient env w), snd (getClient env w), l)"
proof -
  have "getClient_loop envL n e (w, l) = (fst (getClient_loop env n e w), snd (getClient_loop env n e w), l)" for n e w
    using assms by (induction n arbitrary: e w) (auto simp: client_lifted_def split: prod.split option.split)
  then show ?thesis by (simp add: getClient_def)
qed

lemma installedChildren_lifted:
  assumes "client_lifted envL env"
  shows "installedChildren envL (w, l) = (fst (installedChildren env w), snd (installedChildren env w), l)"
  using assms
  by (auto simp: installedChildren_def getClient_lifted[OF assms] client_lifted_def split: prod.split option.split sum.split)

lemma childInstalled_lifted:
  assumes "client_lifted envL env"
  shows "childInstalled envL child (w, l) = (fst (childInstalled env child w), snd (childInstalled env child w), l)"
  by (auto simp: childInstalled_def installedChildren_lifted[OF assms] split: prod.split sum.split)

lemma logged_Close: "env_Close (logged env) (w, l) = (env_Close env w, l)"
  by (simp add: logged_def)

text \<open>The commands of one attempt.\<close>

definition attempt_log :: "string \<Rightarrow> string \<Rightarrow> exec_log" where
  "attempt_log netns host =
     (if parseIP (split_head CHR ''/'' host) = [] then []
      else map (commandInNetns netns ''conntrack'') (conntrackFilters (split_head CHR ''/'' host))) @
     [(''swanctl'', initiateArgs (''child-'' @ host))]"

lemma execInNetns_logged:
  "snd (execInNetns (exec_logged env) netns name args (w, l)) =
   (snd (execInNetns env netns name args w), l @ [commandInNetns netns name args])"
  by (simp add: execInNetns_def exec_logged_def case_prod_beta)

lemma conntrack_fold_logged:
  "foldl (\<lambda>w f. snd (execInNetns (exec_logged env) netns ''conntrack'' f w)) (w, l) fs =
   (foldl (\<lambda>w f. snd (execInNetns env netns ''conntrack'' f w)) w fs,
    l @ map (commandInNetns netns ''conntrack'') fs)"
  by (induction fs arbitrary: w l) (simp_all add: execInNetns_logged)

lemma attempt_logged:
  "env_Exec (exec_logged env) ''swanctl'' (initiateArgs (''child-'' @ host)) (cleanupConntrack (exec_logged env) ov host (w, l)) =
   (let r = env_Exec env ''swanctl'' (initiateArgs (''child-'' @ host)) (cleanupConntrack env ov host w)
    in (fst r, snd r, l @ attempt_log (o_NetnsPath ov) host))"
proof -
  have "cleanupConntrack (exec_logged env) ov host (w, l) =
    (cleanupConntrack env ov host w,
     l @ (if parseIP (split_head CHR ''/'' host) = [] then []
          else map (commandInNetns (o_NetnsPath ov) ''conntrack'') (conntrackFilters (split_head CHR ''/'' host))))"
    by (simp add: cleanupConntrack_def conntrack_fold_logged Let_def)
  then show ?thesis by (simp add: exec_logged_def attempt_log_def case_prod_beta Let_def)
qed

lemma initiate_attempts_log:
  "\<exists>w' n. initiate_attempts (exec_logged env) ov host k (w, l) =
     (w', l @ concat (replicate n (attempt_log (o_NetnsPath ov) host))) \<and> n \<le> k"
proof (induction k arbitrary: w l)
  case (Suc k)
  let ?child = "''child-'' @ host" and ?a = "attempt_log (o_NetnsPath ov) host"
  obtain b w1 where c: "childInstalled (exec_logged env) ?child (w, l) = (b, w1, l)"
    using childInstalled_lifted[OF client_lifted_logged(2), of env ?child w l] by simp
  show ?case
  proof (cases b)
    case True
    then show ?thesis using c by (intro exI[of _ w1] exI[of _ 0]) simp
  next
    case False
    obtain e w2 out where x: "env_Exec (exec_logged env) ''swanctl'' (initiateArgs ?child)
        (cleanupConntrack (exec_logged env) ov host (w1, l)) = ((out, e), w2, l @ ?a)"
      using attempt_logged[of env host ov w1 l] by (metis prod.collapse)
    show ?thesis
    proof (cases e)
      case None
      then show ?thesis using c False x by (intro exI[of _ w2] exI[of _ 1]) simp
    next
      case (Some er)
      obtain w' n where "initiate_attempts (exec_logged env) ov host k (w2, l @ ?a) =
          (w', (l @ ?a) @ concat (replicate n ?a))" "n \<le> k"
        using Suc.IH[of w2 "l @ ?a"] by (elim exE conjE)
      then show ?thesis using c False x Some by (intro exI[of _ w'] exI[of _ "Suc n"]) simp
    qed
  qed
qed simp

text \<open>
  C36. Recovery of one host executes only commands: between zero and three rounds, each of which
  clears the four kinds of connection-tracking entries of that host (if it is an address) and then
  asks \<^verbatim>\<open>swanctl\<close> to initiate the CHILD_SA of that host. It depends on neither the VICI requests
  nor the kill operation of its environment: it cannot terminate an association or kill charon.
\<close>

theorem initiate_bounded:
  "(\<exists>w' n. initiateHostWithRetry (exec_logged env) ov host (w, l) =
      (w', l @ concat (replicate n (attempt_log (o_NetnsPath ov) host))) \<and> n \<le> 3) \<and>
   initiateHostWithRetry (env\<lparr>env_Request := req, env_Kill := kill\<rparr>) ov host w = initiateHostWithRetry env ov host w"
proof
  show "\<exists>w' n. initiateHostWithRetry (exec_logged env) ov host (w, l) =
      (w', l @ concat (replicate n (attempt_log (o_NetnsPath ov) host))) \<and> n \<le> 3"
    using initiate_attempts_log[of env ov host 3 w l]
    by (simp add: initiateHostWithRetry_def ipsecInitiateAttempts_def)
  let ?env = "env\<lparr>env_Request := req, env_Kill := kill\<rparr>"
  have g: "getClient ?env w = getClient env w" for w
  proof -
    have "getClient_loop ?env n e w = getClient_loop env n e w" for n e
      by (induction n arbitrary: e w) (simp_all split: prod.split option.split)
    then show ?thesis by (simp add: getClient_def)
  qed
  have c: "childInstalled ?env child w = childInstalled env child w" for child w
    by (simp add: childInstalled_def installedChildren_def g split: prod.split option.split sum.split)
  have d: "cleanupConntrack ?env ov host w = cleanupConntrack env ov host w" for w
  proof -
    have "execInNetns ?env netns name args w = execInNetns env netns name args w" for netns name args w
      by (simp add: execInNetns_def case_prod_beta)
    then show ?thesis by (simp add: cleanupConntrack_def Let_def)
  qed
  have "initiate_attempts ?env ov host k w = initiate_attempts env ov host k w" for k w
    by (induction k arbitrary: w) (simp_all add: c d split: prod.split bool.split option.split)
  then show "initiateHostWithRetry ?env ov host w = initiateHostWithRetry env ov host w"
    by (simp add: initiateHostWithRetry_def)
qed


section \<open>What the health check does\<close>

lemma expectedHosts_props:
  "gomap_ok (expectedHosts db)"
  "map_of (expectedHosts db) h =
    (if \<exists>e \<in> set (v_Entries db). HostIpAddress e = h \<and> h \<noteq> [] \<and> h \<noteq> v_LocalHostIp db then Some True else None)"
proof -
  let ?f = "\<lambda>m (e :: entry). if HostIpAddress e = [] \<or> HostIpAddress e = v_LocalHostIp db then m else mput (HostIpAddress e) True m"
  have "gomap_ok m \<Longrightarrow> gomap_ok (foldl ?f m es)" for m es
    by (induction es arbitrary: m) simp_all
  from this[of "[]"] show "gomap_ok (expectedHosts db)" by (simp add: expectedHosts_def)
  have "map_of (foldl ?f m es) h =
     (if \<exists>e \<in> set es. HostIpAddress e = h \<and> h \<noteq> [] \<and> h \<noteq> v_LocalHostIp db then Some True else map_of m h)" for m es
    by (induction es arbitrary: m) auto
  then show "map_of (expectedHosts db) h =
    (if \<exists>e \<in> set (v_Entries db). HostIpAddress e = h \<and> h \<noteq> [] \<and> h \<noteq> v_LocalHostIp db then Some True else None)"
    by (simp add: expectedHosts_def)
qed

lemma missingHosts_props:
  assumes "valid_order ro"
  shows "gomap_ok (missingHosts ro expected installed)"
    "keys (missingHosts ro expected installed) = {h. map_of expected h \<noteq> None \<and> \<not> mtest installed (''child-'' @ h)}"
proof -
  let ?f = "\<lambda>m (host, _ :: bool). if mtest installed (''child-'' @ host) then m else mput host True m"
  have "gomap_ok m \<Longrightarrow> gomap_ok (foldl ?f m es)" for m and es :: "(string \<times> bool) list"
    by (induction es arbitrary: m) (simp_all add: case_prod_beta)
  from this[of "[]"] show "gomap_ok (missingHosts ro expected installed)" by (simp add: missingHosts_def)
  have "keys (foldl ?f m es) = keys m \<union> {h \<in> fst ` set es. \<not> mtest installed (''child-'' @ h)}"
    for m and es :: "(string \<times> bool) list"
    by (induction es arbitrary: m) (auto simp: keys_mput case_prod_beta)
  then have "keys (missingHosts ro expected installed) =
      {h \<in> fst ` set (go_range ro 6 expected). \<not> mtest installed (''child-'' @ h)}"
    by (simp add: missingHosts_def)
  also have "\<dots> = {h. map_of expected h \<noteq> None \<and> \<not> mtest installed (''child-'' @ h)}"
    using set_go_range[OF assms, where m = expected and i = 6] by (force simp: image_iff)
  finally show "keys (missingHosts ro expected installed) = {h. map_of expected h \<noteq> None \<and> \<not> mtest installed (''child-'' @ h)}" .
qed

lemma reapDuplicateSAs_log:
  "\<exists>err w' ids. reapDuplicateSAs (logged env) ro expected (w, l) = (err, w', l @ terminations ids) \<and>
     (ids = [] \<or> (\<exists>w1 sas n. fst (env_ListSas env w1) = Inr sas \<and>
        ids = take n (deletingDuplicateIKEIDs sas expected @ idleDuplicateIKEIDs ro sas expected)))"
proof -
  obtain e w1 where g: "getClient (logged env) (w, l) = (e, w1, l)" "(e, w1) = getClient env w"
    using getClient_lifted[OF client_lifted_logged(1), of env w l] by (metis prod.collapse)
  show ?thesis
  proof (cases e)
    case (Some er)
    then show ?thesis by (intro exI[of _ e] exI[of _ w1] exI[of _ "[]"]) (simp add: reapDuplicateSAs_def g(1))
  next
    case None
    show ?thesis
    proof (cases "fst (env_ListSas env w1)")
      case (Inl er)
      then show ?thesis
        by (intro exI[of _ "Some er"] exI[of _ "env_Close env (snd (env_ListSas env w1))"] exI[of _ "[]"])
          (simp add: reapDuplicateSAs_def g(1) None logged_ListSas logged_Close)
    next
      case (Inr sas)
      let ?all = "deletingDuplicateIKEIDs sas expected @ idleDuplicateIKEIDs ro sas expected"
      obtain err w2 n where t: "terminate_all (logged env) ?all (snd (env_ListSas env w1), l) =
          (err, w2, l @ terminations (take n ?all))"
        using terminate_all_log[of env ?all "snd (env_ListSas env w1)" l] by (elim exE conjE)
      have "reapDuplicateSAs (logged env) ro expected (w, l) = (err, env_Close env w2, l @ terminations (take n ?all))"
        using t by (simp add: reapDuplicateSAs_def g(1) None logged_ListSas Inr logged_Close)
      then show ?thesis using Inr by blast
    qed
  qed
qed

text \<open>The hosts whose CHILD_SA is expected but not installed and which are not being initiated.\<close>

definition unserved :: "store_view \<Rightarrow> bool gomap \<Rightarrow> Overlay \<Rightarrow> string set" where
  "unserved db installed ov =
     {h. (\<exists>e \<in> set (v_Entries db). HostIpAddress e = h) \<and> h \<noteq> [] \<and> h \<noteq> v_LocalHostIp db \<and>
         \<not> mtest installed (''child-'' @ h) \<and> \<not> mtest (o_initiating ov) h}"


lemma reconcile_targets:
  assumes "valid_order ro" "reconcileIpsecHealth env ro db ov w = (err, targets, ov', w')"
  shows "targets = (case fst (installedChildren env w) of
       Inl _ \<Rightarrow> [] | Inr installed \<Rightarrow> sorted_list_of_set (unserved db installed ov))"
    "{h. mtest (o_initiating ov') h} = {h. mtest (o_initiating ov) h} \<union> set targets"
proof -
  have "targets = (case fst (installedChildren env w) of
       Inl _ \<Rightarrow> [] | Inr installed \<Rightarrow> sorted_list_of_set (unserved db installed ov)) \<and>
     {h. mtest (o_initiating ov') h} = {h. mtest (o_initiating ov) h} \<union> set targets"
  proof (cases "expectedHosts db = []")
    case True
    have "\<not> (\<exists>e \<in> set (v_Entries db). HostIpAddress e = h \<and> h \<noteq> [] \<and> h \<noteq> v_LocalHostIp db)" for h
      using expectedHosts_props(2)[of db h] by (simp add: True split: if_splits)
    then have "unserved db installed ov = {}" for installed
      by (auto simp: unserved_def)
    then show ?thesis using assms(2) by (auto simp: reconcileIpsecHealth_def True split: sum.split)
  next
    case False
    obtain r w1 where i: "installedChildren env w = (r, w1)" by (metis prod.exhaust)
    show ?thesis
    proof (cases r)
      case (Inl e)
      then show ?thesis using False assms(2) by (simp add: reconcileIpsecHealth_def i)
    next
      case (Inr installed)
      let ?missing = "missingHosts ro (expectedHosts db) installed"
      have s: "(if ?missing = [] then ([], ov) else scheduleInitiatesLocked ro ?missing ov) = (targets, ov')"
        using assms(2) False by (auto simp: reconcileIpsecHealth_def i Inr Let_def split: prod.splits)
      have "{h \<in> keys ?missing. h \<noteq> [] \<and> \<not> mtest (o_initiating ov) h} = unserved db installed ov"
        by (auto simp: missingHosts_props(2)[OF assms(1)] expectedHosts_props(2) unserved_def split: if_splits)
      then show ?thesis
        using s schedule_targets(1,2)[OF _ assms(1) missingHosts_props(1)[OF assms(1)], of "expectedHosts db" installed ov targets ov']
        by (auto simp: i Inr split: if_splits)
    qed
  qed
  then show "targets = (case fst (installedChildren env w) of
       Inl _ \<Rightarrow> [] | Inr installed \<Rightarrow> sorted_list_of_set (unserved db installed ov))"
    "{h. mtest (o_initiating ov') h} = {h. mtest (o_initiating ov) h} \<union> set targets" by blast+
qed

lemma reconcile_log:
  "\<exists>err targets ov' w' ids.
    reconcileIpsecHealth (logged env) ro db ov (w, l) = (err, targets, ov', w', l @ terminations ids) \<and>
    (ids = [] \<or> (\<exists>w1 sas n. fst (env_ListSas env w1) = Inr sas \<and>
       ids = take n (deletingDuplicateIKEIDs sas (expectedHosts db) @ idleDuplicateIKEIDs ro sas (expectedHosts db))))"
proof (cases "expectedHosts db = []")
  case True
  then show ?thesis
    by (intro exI[of _ None] exI[of _ "[]"] exI[of _ ov] exI[of _ w] exI[of _ "[]"]) (simp add: reconcileIpsecHealth_def)
next
  case False
  obtain r w1 where i: "installedChildren (logged env) (w, l) = (r, w1, l)"
    using installedChildren_lifted[OF client_lifted_logged(1), of env w l] by simp
  show ?thesis
  proof (cases r)
    case (Inl e)
    then show ?thesis
      using False by (intro exI[of _ "Some e"] exI[of _ "[]"] exI[of _ ov] exI[of _ w1] exI[of _ "[]"])
        (simp add: reconcileIpsecHealth_def i)
  next
    case (Inr installed)
    let ?missing = "missingHosts ro (expectedHosts db) installed"
    obtain targets ov' where s: "(if ?missing = [] then ([], ov) else scheduleInitiatesLocked ro ?missing ov) = (targets, ov')"
      by (metis prod.exhaust)
    obtain err w2 ids where d: "reapDuplicateSAs (logged env) ro (expectedHosts db) (w1, l) = (err, w2, l @ terminations ids)"
      "ids = [] \<or> (\<exists>w1 sas n. fst (env_ListSas env w1) = Inr sas \<and>
         ids = take n (deletingDuplicateIKEIDs sas (expectedHosts db) @ idleDuplicateIKEIDs ro sas (expectedHosts db)))"
      using reapDuplicateSAs_log[of env ro "expectedHosts db" w1 l] by (elim exE conjE)
    have "reconcileIpsecHealth (logged env) ro db ov (w, l) = (err, targets, ov', w2, l @ terminations ids)"
      by (simp add: reconcileIpsecHealth_def False i Inr s d(1))
    then show ?thesis using d(2) by (intro exI[of _ err] exI[of _ targets] exI[of _ ov'] exI[of _ w2] exI[of _ ids] conjI)
  qed
qed

text \<open>
  C35. One health check: the only requests made of charon terminate associations by their unique
  identifiers, and these identifiers are a prefix of the deleting and idle duplicates of one
  listing. The hosts handed over for initiation are exactly the expected ones that have no
  installed CHILD_SA and are not being initiated, in order, and exactly these become marked as
  being initiated; if the installed CHILD_SAs cannot be listed, nothing is initiated.
\<close>

theorem health_check:
  assumes "valid_order ro"
  shows "\<exists>err targets ov' w' ids.
    reconcileIpsecHealth (logged env) ro db ov (w, l) = (err, targets, ov', w', l @ terminations ids) \<and>
    (ids = [] \<or> (\<exists>w1 sas n. fst (env_ListSas env w1) = Inr sas \<and>
       ids = take n (deletingDuplicateIKEIDs sas (expectedHosts db) @ idleDuplicateIKEIDs ro sas (expectedHosts db)))) \<and>
    targets = (case fst (installedChildren env w) of
       Inl _ \<Rightarrow> [] | Inr installed \<Rightarrow> sorted_list_of_set (unserved db installed ov)) \<and>
    {h. mtest (o_initiating ov') h} = {h. mtest (o_initiating ov) h} \<union> set targets"
proof -
  obtain err targets ov' w' ids where r:
    "reconcileIpsecHealth (logged env) ro db ov (w, l) = (err, targets, ov', w', l @ terminations ids)"
    "ids = [] \<or> (\<exists>w1 sas n. fst (env_ListSas env w1) = Inr sas \<and>
       ids = take n (deletingDuplicateIKEIDs sas (expectedHosts db) @ idleDuplicateIKEIDs ro sas (expectedHosts db)))"
    using reconcile_log[of env ro db ov w l] by (elim exE conjE)
  note t = reconcile_targets[OF assms r(1), unfolded installedChildren_lifted[OF client_lifted_logged(1)] fst_conv]
  show ?thesis
    by (intro exI[of _ err] exI[of _ targets] exI[of _ ov'] exI[of _ w'] exI[of _ ids] conjI r t)
qed

theorem health_check_witness:
  "\<exists>err ov' w' ids. reconcileIpsecHealth (logged example_env) (\<lambda>_ ks. rev ks) example_db example_overlay ([], []) =
     (err, [''192.0.2.20''], ov', w', terminations ids)"
proof -
  have "unserved example_db [] example_overlay = set [''192.0.2.20'']"
    by (auto simp: unserved_def example_db_def example_overlay_def NewOverlay_def)
  then have u: "sorted_list_of_set (unserved example_db [] example_overlay) = [''192.0.2.20'']"
    using sorted_list_of_set_sort_remdups[of "[''192.0.2.20'']"] by simp
  have i: "fst (installedChildren example_env []) = Inr []" by code_simp
  show ?thesis
    using health_check[OF valid_order_rev, of example_env example_db example_overlay "[]" "[]"]
    unfolding i by (simp add: u) blast
qed

section \<open>Supervision of charon\<close>

text \<open>
  Once the supervision has seen the process id of charon it survives exactly the wake-ups that
  find the same process id: a restarted charon or an unreadable file ends the daemon, so that no
  state of an old charon is kept for a new one.
\<close>

theorem monitor_survives:
  assumes "pid \<noteq> []"
  shows "monitorCharon env pid ws = Inr pid' \<longleftrightarrow>
    pid' = pid \<and> list_all (\<lambda>w. \<exists>bytes. fst (env_ReadFile env pidFile w) = Inr bytes \<and> trimSpace bytes = pid) ws"
  using assms
proof (induction ws)
  case (Cons w ws)
  let ?same = "\<exists>bytes. fst (env_ReadFile env pidFile w) = Inr bytes \<and> trimSpace bytes = pid"
  have round: "fst (monitorCharon_round env pid w) = Inr p \<longleftrightarrow> p = pid \<and> ?same" for p
    using Cons.prems by (auto simp: monitorCharon_round_def Let_def split: prod.splits sum.splits option.splits)
  show ?case
  proof (cases ?same)
    case True
    then have "fst (monitorCharon_round env pid w) = Inr pid" using round by blast
    then show ?thesis using Cons.IH[OF Cons.prems] True by simp
  next
    case False
    then obtain e where "fst (monitorCharon_round env pid w) = Inl e" using round by (metis sum.exhaust)
    then show ?thesis using False by simp
  qed
qed auto

theorem monitor_survives_witness:
  "monitorCharon (example_env\<lparr>env_ReadFile := (\<lambda>_ w. (Inr (if w = [] then ''17'' else ''18''), w))\<rparr>) ''17'' [[], []] = Inr ''17''"
proof -
  have "trimSpace ''17'' = ''17''" by code_simp
  then show ?thesis
    using monitor_survives[of "''17''" "example_env\<lparr>env_ReadFile := (\<lambda>_ w. (Inr (if w = [] then ''17'' else ''18''), w))\<rparr>" "[[], []]" "''17''"]
    by simp
qed

end
