(* ===== verification/Ipsec_System.thy ===== *)
theory Ipsec_System
  imports Ipsec_Health
begin

text \<open>
  The IPsec backend as a concurrent system. The state is the overlay object, the goroutines that
  initiate CHILD_SAs (each with the hosts it still has to process) and the world. A step is one
  section that holds the overlay's lock: a whole \<^verbatim>\<open>configure\<close>, \<^verbatim>\<open>loadConns\<close>, the scheduling part of
  a health check, or the removal of a processed host from \<^verbatim>\<open>initiating\<close>. What the goroutines and
  everything else do to the world between these sections is an arbitrary change of the world.
\<close>

record 'w ipsec_sys =
  sys_overlay :: Overlay
  sys_jobs :: "string list list"
  sys_world :: 'w

text \<open>A goroutine is started only for a non-empty list of hosts and ends after the last one.\<close>

definition spawn :: "string list \<Rightarrow> string list list" where
  "spawn targets = (if targets = [] then [] else [targets])"

definition markDone :: "string \<Rightarrow> Overlay \<Rightarrow> Overlay" where
  "markDone host ov = ov\<lparr>o_initiating := mdel host (o_initiating ov)\<rparr>"

inductive ipsec_step :: "'w ipsec_env \<Rightarrow> 'w ipsec_sys \<Rightarrow> 'w ipsec_sys \<Rightarrow> bool" for env where
  configured: "\<lbrakk>valid_order ro; configure env ro db (sys_overlay s) (sys_world s) = (err, targets, ov', w')\<rbrakk> \<Longrightarrow>
     ipsec_step env s (s\<lparr>sys_overlay := ov', sys_jobs := sys_jobs s @ spawn targets, sys_world := w'\<rparr>)"
| healthScheduled: "\<lbrakk>valid_order ro; gomap_ok missing;
     scheduleInitiatesLocked ro missing (sys_overlay s) = (targets, ov')\<rbrakk> \<Longrightarrow>
     ipsec_step env s (s\<lparr>sys_overlay := ov', sys_jobs := sys_jobs s @ spawn targets\<rparr>)"
| connsLoaded: "loadConns env (sys_overlay s) (sys_world s) = (err, ov', w') \<Longrightarrow>
     ipsec_step env s (s\<lparr>sys_overlay := ov', sys_world := w'\<rparr>)"
| keyRead: "ipsec_step env s (s\<lparr>sys_overlay := (sys_overlay s)\<lparr>o_psk := psk\<rparr>\<rparr>)"
| processed: "sys_jobs s = js @ (host # rest) # js' \<Longrightarrow>
     ipsec_step env s (s\<lparr>sys_overlay := markDone host (sys_overlay s), sys_jobs := js @ spawn rest @ js'\<rparr>)"
| worldChanged: "ipsec_step env s (s\<lparr>sys_world := w'\<rparr>)"

text \<open>The overlay as it is built: nothing is being initiated and no goroutine runs.\<close>

inductive ipsec_reachable :: "'w ipsec_env \<Rightarrow> 'w ipsec_sys \<Rightarrow> bool" for env where
  start: "o_initiating ov = [] \<Longrightarrow>
     ipsec_reachable env \<lparr>sys_overlay = ov, sys_jobs = [], sys_world = w\<rparr>"
| step: "ipsec_reachable env s \<Longrightarrow> ipsec_step env s s' \<Longrightarrow> ipsec_reachable env s'"

inductive_cases ipsec_stepE: "ipsec_step env s s'"

section \<open>Periodic health checks\<close>

text \<open>
  One tick of the health monitor, and its loop: \<open>other\<close> is what the rest of the system has done since
  the last tick. An error is only logged, so no tick ends the loop.
\<close>

definition health_tick :: "'w ipsec_env \<Rightarrow> map_order \<Rightarrow> store_view \<Rightarrow> 'w ipsec_sys \<Rightarrow> 'w ipsec_sys" where
  "health_tick env ro db s =
     (case reconcileIpsecHealth env ro db (sys_overlay s) (sys_world s) of
        (_, targets, ov', w') \<Rightarrow> s\<lparr>sys_overlay := ov', sys_jobs := sys_jobs s @ spawn targets, sys_world := w'\<rparr>)"

fun monitorIpsecHealth ::
  "'w ipsec_env \<Rightarrow> (('w ipsec_sys \<Rightarrow> 'w ipsec_sys) \<times> map_order \<times> store_view) list \<Rightarrow> 'w ipsec_sys \<Rightarrow> 'w ipsec_sys" where
  "monitorIpsecHealth env [] s = s"
| "monitorIpsecHealth env ((other, ro, db) # ts) s = monitorIpsecHealth env ts (health_tick env ro db (other s))"

lemma missingHosts_gomap_ok: "gomap_ok (missingHosts ro expected installed)"
  unfolding missingHosts_def by (rule foldl_preserves) (auto split: prod.split)

text \<open>A tick is made of steps of the system: the world changes, hosts are scheduled, the world changes.\<close>

lemma health_tick_steps:
  assumes "valid_order ro"
  shows "(ipsec_step env)\<^sup>*\<^sup>* s (health_tick env ro db s)"
proof -
  obtain err targets ov' w' where r: "reconcileIpsecHealth env ro db (sys_overlay s) (sys_world s) = (err, targets, ov', w')"
    by (metis prod_cases4)
  have t: "health_tick env ro db s = s\<lparr>sys_overlay := ov', sys_jobs := sys_jobs s @ spawn targets, sys_world := w'\<rparr>"
    by (simp add: health_tick_def r)
  have "targets = [] \<and> ov' = sys_overlay s \<or>
      (\<exists>missing. gomap_ok missing \<and> scheduleInitiatesLocked ro missing (sys_overlay s) = (targets, ov'))"
    using r missingHosts_gomap_ok by (auto simp: reconcileIpsecHealth_def Let_def split: if_splits sum.splits prod.splits)
  then show ?thesis
  proof
    assume "targets = [] \<and> ov' = sys_overlay s"
    then show ?thesis using ipsec_step.worldChanged[of env s w'] by (auto simp: t spawn_def)
  next
    assume "\<exists>missing. gomap_ok missing \<and> scheduleInitiatesLocked ro missing (sys_overlay s) = (targets, ov')"
    then obtain missing where m: "gomap_ok missing" "scheduleInitiatesLocked ro missing (sys_overlay s) = (targets, ov')" by blast
    let ?s1 = "s\<lparr>sys_overlay := ov', sys_jobs := sys_jobs s @ spawn targets\<rparr>"
    have "ipsec_step env s ?s1" by (rule ipsec_step.healthScheduled[OF assms m])
    moreover have "ipsec_step env ?s1 (?s1\<lparr>sys_world := w'\<rparr>)" by (rule ipsec_step.worldChanged)
    ultimately show ?thesis by (simp add: t)
  qed
qed

lemma reachable_rtranclp: "(ipsec_step env)\<^sup>*\<^sup>* s s' \<Longrightarrow> ipsec_reachable env s \<Longrightarrow> ipsec_reachable env s'"
  by (induction rule: rtranclp_induct) (auto intro: ipsec_reachable.step)

lemma monitor_reachable:
  assumes "list_all (\<lambda>(other, ro, db). valid_order ro \<and> (\<forall>s. (ipsec_step env)\<^sup>*\<^sup>* s (other s))) ts" "ipsec_reachable env s"
  shows "ipsec_reachable env (monitorIpsecHealth env ts s)"
  using assms
proof (induction env ts s rule: monitorIpsecHealth.induct)
  case (2 env other ro db ts s)
  then have "ipsec_reachable env (health_tick env ro db (other s))"
    using reachable_rtranclp[of env s "other s"] reachable_rtranclp[OF health_tick_steps[of ro env "other s" db]] by auto
  then show ?case using 2 by auto
qed simp

section \<open>Which operations mark hosts\<close>

definition keeps_initiating :: "(Overlay \<Rightarrow> 'w \<Rightarrow> 'e \<times> Overlay \<times> 'w) \<Rightarrow> bool" where
  "keeps_initiating f \<longleftrightarrow> (\<forall>ov w. o_initiating (fst (snd (f ov w))) = o_initiating ov)"

lemma keeps_initiatingI:
  "(\<And>ov w e ov' w'. f ov w = (e, ov', w') \<Longrightarrow> o_initiating ov' = o_initiating ov) \<Longrightarrow> keeps_initiating f"
  unfolding keeps_initiating_def by (metis prod.collapse)

lemma same_but_handle_initiating: "same_but_handle ov ov' \<Longrightarrow> o_initiating ov' = o_initiating ov"
  by (cases ov; cases ov') (simp add: same_but_handle_def)

lemma phase_initiating:
  assumes "keeps_initiating f"
  shows "o_initiating (fst (snd (phase f s))) = o_initiating (fst (snd s))"
  using assms unfolding phase_def keeps_initiating_def
  by (cases s) (simp split: option.split)

lemma removeHosts_initiating: "removeHosts env ro ov w = (err, ov', w') \<Longrightarrow> o_initiating ov' = o_initiating ov"
proof -
  have "foldl (removeHosts_step env) (f, ov, w) xs = (err, ov', w') \<Longrightarrow> o_initiating ov' = o_initiating ov" for f ov w xs
  proof (induction xs arbitrary: f ov w)
    case (Cons x xs)
    obtain f1 ov1 w1 where s: "removeHosts_step env (f, ov, w) x = (f1, ov1, w1)" by (metis prod_cases3)
    have "o_initiating ov1 = o_initiating ov" by (subst removeHosts_step_frame[OF s]) simp
    then show ?case using Cons by (simp add: s)
  qed simp
  then show "removeHosts env ro ov w = (err, ov', w') \<Longrightarrow> o_initiating ov' = o_initiating ov"
    by (simp add: removeHosts_def)
qed

lemma reap_phase_initiating:
  assumes "reap_phase env db hosts ov w = (err, ov', w')"
  shows "o_initiating ov' = o_initiating ov"
  by (subst reap_phase_frame[OF assms]) simp

lemma loadSharedKey_initiating:
  assumes "loadSharedKey env a ov w = (err, ov', w')"
  shows "o_initiating ov' = o_initiating ov"
  by (subst loadSharedKey_frame[OF assms]) simp

lemma addHost_initiating:
  "addHost env db e ov w = (err, ov', w') \<Longrightarrow> o_initiating ov' = o_initiating ov"
  unfolding addHost_def addHostConnection_def Let_def
  by (auto split: prod.splits option.splits sum.splits if_splits dest!: loadSharedKey_initiating)

lemma phases_keep_initiating [simp]:
  "keeps_initiating (loadSharedKey env a)" "keeps_initiating (addHost env db e)"
  "keeps_initiating (deletePolicies env ro E)" "keeps_initiating (addPolicies env ro A)"
  "keeps_initiating (syncHostRoutes env ro hr)" "keeps_initiating (reap_phase env db hosts)"
  "keeps_initiating (removeHosts env ro)"
  "keeps_initiating (\<lambda>ov w. case f w of (err, w') \<Rightarrow> (err, ov, w'))"
  by (rule keeps_initiatingI,
      (erule loadSharedKey_initiating addHost_initiating reap_phase_initiating removeHosts_initiating
        deletePolicies_same[THEN same_but_handle_initiating] addPolicies_same[THEN same_but_handle_initiating]
        syncHostRoutes_same[THEN same_but_handle_initiating] | simp split: prod.splits))+

lemma loadConns_initiating:
  "loadConns env ov w = (err, ov', w') \<Longrightarrow> o_initiating ov' = o_initiating ov"
  unfolding loadConns_def by (auto split: prod.splits option.splits sum.splits)


text \<open>The loop over the entries marks nothing, and collects its hosts in a proper map.\<close>

definition loop_ok :: "bool gomap \<Rightarrow> 'w configuring \<Rightarrow> bool" where
  "loop_ok ini c \<longleftrightarrow> o_initiating (cf_overlay c) = ini \<and> gomap_ok (cf_hosts c)"

lemma conf_call_ok:
  assumes "conf_call f c = (err, c')" "keeps_initiating f" "loop_ok ini c"
  shows "loop_ok ini c'"
proof -
  obtain e ov w where f: "f (cf_overlay c) (cf_world c) = (e, ov, w)" by (metis prod_cases3)
  have "o_initiating ov = o_initiating (cf_overlay c)"
    using assms(2) f unfolding keeps_initiating_def by (metis fst_conv snd_conv)
  then show ?thesis using assms(1,3) by (auto simp: conf_call_def f loop_ok_def)
qed

lemma configure_entry_ok:
  assumes "loop_ok ini c"
  shows "loop_ok ini (configure_entry env db c e)"
proof -
  let ?c1 = "if Peer e then snd (conf_call (loadSharedKey env (IpAddress e)) c) else c"
  have c1: "loop_ok ini ?c1"
    using conf_call_ok[OF prod.collapse[symmetric] phases_keep_initiating(1) assms] assms by simp
  obtain err c' where h: "conf_call (addHost env db e) (?c1\<lparr>cf_hostRoutes := mput (ipNoCidr e) e (cf_hostRoutes ?c1)\<rparr>) = (err, c')"
    by (metis prod.exhaust)
  have "loop_ok ini c'"
    by (rule conf_call_ok[OF h phases_keep_initiating(2)]) (use c1 in \<open>simp add: loop_ok_def\<close>)
  then show ?thesis
    using c1 h unfolding configure_entry_def Let_def
    by (auto simp: loop_ok_def split: prod.splits if_splits)
qed

lemma configure_start_ok: "loop_ok (o_initiating ov) (configure_start env ov w)"
proof -
  obtain r ov1 w1 where g: "getRules env ov w = (r, ov1, w1)" by (metis prod_cases3)
  have i: "o_initiating ov1 = o_initiating ov" by (rule same_but_handle_initiating[OF getRules_same[OF g]])
  show ?thesis
    unfolding configure_start_def g Let_def prod.case
    by (rule conf_call_ok[OF prod.collapse[symmetric] phases_keep_initiating(1)])
      (simp add: loop_ok_def i)
qed

lemma loop_ok_foldl: "loop_ok ini c \<Longrightarrow> loop_ok ini (foldl (configure_entry env db) c es)"
  by (induction es arbitrary: c) (simp_all add: configure_entry_ok)

text \<open>The effect of a configuration on the marks, whether it succeeds or not.\<close>

definition marks :: "Overlay \<Rightarrow> string set" where "marks ov = {h. mtest (o_initiating ov) h}"

definition schedules :: "string list \<Rightarrow> Overlay \<Rightarrow> Overlay \<Rightarrow> bool" where
  "schedules targets ov ov' \<longleftrightarrow>
     distinct targets \<and> set targets \<inter> marks ov = {} \<and> marks ov' = marks ov \<union> set targets"

lemma schedules_Nil: "o_initiating ov' = o_initiating ov \<Longrightarrow> schedules [] ov ov'"
  by (simp add: schedules_def marks_def)

lemma scheduleInitiates_schedules:
  assumes "scheduleInitiatesLocked ro hosts ov = (targets, ov')" "valid_order ro" "gomap_ok hosts"
  shows "schedules targets ov ov'"
proof -
  note t = schedule_targets(1,2)[OF assms]
  have "finite {h \<in> keys hosts. h \<noteq> [] \<and> \<not> mtest (o_initiating ov) h}" by (simp add: finite_dom_map_of)
  then have "set targets = {h \<in> keys hosts. h \<noteq> [] \<and> \<not> mtest (o_initiating ov) h}" "distinct targets"
    unfolding t(1) by simp_all
  then show ?thesis using t(2) by (auto simp: schedules_def marks_def)
qed

text \<open>The phases after the loop, and a configuration in terms of them.\<close>

definition later_phases :: "'w ipsec_env \<Rightarrow> map_order \<Rightarrow> store_view \<Rightarrow> 'w configuring \<Rightarrow> go_error option \<times> Overlay \<times> 'w" where
  "later_phases env ro db c = phase (removeHosts env ro)
     (phase (\<lambda>ov w. case restartForStalePeerIdentities env db w of (err, w') \<Rightarrow> (err, ov, w'))
     (phase (reap_phase env db (cf_hosts c)) (phase (syncHostRoutes env ro (cf_hostRoutes c))
     (phase (addPolicies env ro (snd (cf_policies c))) (phase (deletePolicies env ro (fst (cf_policies c)))
     (cf_firstErr c, cf_overlay c, cf_world c))))))"

lemma configure_loaded_cases:
  assumes "configure_loaded env ro db ov w = (err, targets, ov', w')"
    "c = foldl (configure_entry env db) (configure_start env (ov\<lparr>o_keyAttempt := [], o_hostAttempt := []\<rparr>) w) (v_Entries db)"
  obtains e where "later_phases env ro db c = (Some e, ov', w')" "targets = []" "err = Some e"
  | ov6 where "later_phases env ro db c = (None, ov6, w')" "scheduleInitiatesLocked ro (cf_hosts c) ov6 = (targets, ov')" "err = None"
proof -
  have "(case later_phases env ro db c of (Some e, ov', w') \<Rightarrow> (Some e, [], ov', w')
     | (None, ov', w') \<Rightarrow> let (targets, ov'') = scheduleInitiatesLocked ro (cf_hosts c) ov' in (None, targets, ov'', w')) =
     (err, targets, ov', w')"
    using assms(1) unfolding configure_loaded_def Let_def later_phases_def assms(2)[symmetric] by (simp add: case_prod_beta)
  then show thesis using that by (cases "later_phases env ro db c") (auto split: option.splits prod.splits)
qed

lemma configure_loaded_schedules:
  assumes "valid_order ro" "configure_loaded env ro db ov w = (err, targets, ov', w')"
  shows "schedules targets ov ov'"
proof -
  define c where "c = foldl (configure_entry env db)
    (configure_start env (ov\<lparr>o_keyAttempt := [], o_hostAttempt := []\<rparr>) w) (v_Entries db)"
  have c: "o_initiating (cf_overlay c) = o_initiating ov" "gomap_ok (cf_hosts c)"
    using loop_ok_foldl[OF configure_start_ok[of "ov\<lparr>o_keyAttempt := [], o_hostAttempt := []\<rparr>" env w], of env db "v_Entries db"]
    by (simp_all add: loop_ok_def c_def)
  have i6: "o_initiating (fst (snd (later_phases env ro db c))) = o_initiating ov"
    unfolding later_phases_def by (simp add: phase_initiating c(1))
  show ?thesis
  proof (cases rule: configure_loaded_cases[OF assms(2) c_def])
    case (1 e)
    then show ?thesis using i6 by (auto intro!: schedules_Nil)
  next
    case (2 ov6)
    then show ?thesis using scheduleInitiates_schedules[OF 2(2) assms(1) c(2)] i6 by (simp add: schedules_def marks_def)
  qed
qed

lemma configure_schedules:
  assumes "valid_order ro" "configure env ro db ov w = (err, targets, ov', w')"
  shows "schedules targets ov ov'"
proof -
  obtain e t w1 where r: "Templates_Reload env (o_templates ov) w = (e, t, w1)" by (metis prod_cases3)
  show ?thesis
  proof (cases e)
    case None
    then have "configure_loaded env ro db (ov\<lparr>o_templates := t\<rparr>) w1 = (err, targets, ov', w')"
      using assms(2) by (simp add: configure_def r)
    from configure_loaded_schedules[OF assms(1) this] show ?thesis
      by (simp add: schedules_def marks_def)
  next
    case (Some e')
    then show ?thesis using assms(2) by (auto simp: configure_def r intro!: schedules_Nil)
  qed
qed


section \<open>Reachable states\<close>

definition jobs_inv :: "'w ipsec_sys \<Rightarrow> bool" where
  "jobs_inv s \<longleftrightarrow> distinct (concat (sys_jobs s)) \<and> marks (sys_overlay s) = set (concat (sys_jobs s)) \<and>
     [] \<notin> set (sys_jobs s)"

lemma concat_spawn [simp]: "concat (spawn ts) = ts" "[] \<notin> set (spawn ts)"
  by (simp_all add: spawn_def)

lemma jobs_inv_schedules:
  assumes "jobs_inv s" "schedules targets (sys_overlay s) ov'"
  shows "jobs_inv (s\<lparr>sys_overlay := ov', sys_jobs := sys_jobs s @ spawn targets, sys_world := w'\<rparr>)"
  using assms by (auto simp: jobs_inv_def schedules_def)

lemma markDone_marks [simp]: "marks (markDone h ov) = marks ov - {h}"
  by (auto simp: marks_def markDone_def)

lemma jobs_inv_step:
  assumes "ipsec_step env s s'" "jobs_inv s"
  shows "jobs_inv s'"
  using assms
proof cases
  case (configured ro db err targets ov' w')
  then show ?thesis using jobs_inv_schedules[OF assms(2) configure_schedules] by simp
next
  case (healthScheduled ro missing targets ov')
  then show ?thesis
    using jobs_inv_schedules[OF assms(2) scheduleInitiates_schedules[OF healthScheduled(4,2,3)], of "sys_world s"] by simp
next
  case (connsLoaded err ov' w')
  then show ?thesis using assms(2) loadConns_initiating[OF connsLoaded(2)] by (simp add: jobs_inv_def marks_def)
next
  case (keyRead psk)
  then show ?thesis using assms(2) by (simp add: jobs_inv_def marks_def)
next
  case (processed js host rest js')
  then show ?thesis using assms(2) by (auto simp: jobs_inv_def)
next
  case (worldChanged w')
  then show ?thesis using assms(2) by (simp add: jobs_inv_def)
qed

lemma reachable_jobs_inv: "ipsec_reachable env s \<Longrightarrow> jobs_inv s"
proof (induction rule: ipsec_reachable.induct)
  case (start ov w)
  then show ?case by (simp add: jobs_inv_def marks_def)
qed (rule jobs_inv_step)

text \<open>
  C22. In every state the backend can reach, in whatever order configurations, health checks and the
  goroutines interleave, every host is waited for by at most one goroutine and at most once, and
  the hosts marked as being initiated are exactly the hosts some goroutine still has to process.
  So no host is initiated twice at the same time, and no mark is left behind.
\<close>

theorem initiations_exclusive:
  assumes "ipsec_reachable env s"
  shows "distinct (concat (sys_jobs s)) \<and>
    {h. mtest (o_initiating (sys_overlay s)) h} = set (concat (sys_jobs s)) \<and> [] \<notin> set (sys_jobs s)"
  using reachable_jobs_inv[OF assms] by (simp add: jobs_inv_def marks_def)

lemma drain:
  "[] \<notin> set (sys_jobs s) \<Longrightarrow> \<exists>s'. (ipsec_step env ^^ length (concat (sys_jobs s))) s s' \<and> sys_jobs s' = []"
proof (induction "length (concat (sys_jobs s))" arbitrary: s)
  case 0
  then have "sys_jobs s = []" by (cases "sys_jobs s") auto
  then show ?case by (intro exI[of _ s]) simp
next
  case (Suc n)
  obtain host rest js where j: "sys_jobs s = (host # rest) # js"
    using Suc.hyps(2) Suc.prems by (cases "sys_jobs s"; cases "hd (sys_jobs s)") auto
  let ?s = "s\<lparr>sys_overlay := markDone host (sys_overlay s), sys_jobs := spawn rest @ js\<rparr>"
  have st: "ipsec_step env s ?s" using ipsec_step.processed[of s "[]" host rest js env] j by simp
  have n: "n = length (concat (sys_jobs ?s))" using Suc.hyps(2) j by simp
  have "[] \<notin> set (sys_jobs ?s)" using Suc.prems j by simp
  then obtain s' where "(ipsec_step env ^^ n) ?s s'" "sys_jobs s' = []"
    using Suc.hyps(1)[OF n] n by metis
  then show ?case using st Suc.hyps(2)[symmetric] by (metis relpowp_Suc_I2)
qed

lemma reachable_relpowp: "ipsec_reachable env s \<Longrightarrow> (ipsec_step env ^^ n) s s' \<Longrightarrow> ipsec_reachable env s'"
  by (rule reachable_rtranclp[OF relpowp_imp_rtranclp])

text \<open>
  C23. No host is kept from recovery forever: from every reachable state the running goroutines can
  finish, in as many steps as there are hosts waiting, and in the state they leave no host is
  marked, so that the next health check, whatever it finds, hands over every expected host that
  has no installed CHILD_SA.
\<close>

theorem initiations_drain:
  assumes "ipsec_reachable env s" "valid_order ro"
  shows "\<exists>s'. (ipsec_step env ^^ length (concat (sys_jobs s))) s s' \<and> sys_jobs s' = [] \<and>
    (\<forall>db w installed h. fst (installedChildren env w) = Inr installed \<longrightarrow>
       (h \<in> set (fst (snd (reconcileIpsecHealth env ro db (sys_overlay s') w))) \<longleftrightarrow>
        h \<in> HostIpAddress ` set (v_Entries db) \<and> h \<noteq> [] \<and> h \<noteq> v_LocalHostIp db \<and> \<not> mtest installed (''child-'' @ h)))"
proof -
  obtain s' where d: "(ipsec_step env ^^ length (concat (sys_jobs s))) s s'" "sys_jobs s' = []"
    using drain[of s env] reachable_jobs_inv[OF assms(1)] by (auto simp: jobs_inv_def)
  have "marks (sys_overlay s') = {}"
    using reachable_jobs_inv[OF reachable_relpowp[OF assms(1) d(1)]] by (simp add: jobs_inv_def d(2))
  then have m: "\<not> mtest (o_initiating (sys_overlay s')) h" for h by (auto simp: marks_def)
  have fin: "finite (unserved db installed ov)" for db installed ov
    by (rule finite_subset[of _ "HostIpAddress ` set (v_Entries db)"]) (auto simp: unserved_def)
  have "h \<in> set (fst (snd (reconcileIpsecHealth env ro db (sys_overlay s') w))) \<longleftrightarrow>
      h \<in> HostIpAddress ` set (v_Entries db) \<and> h \<noteq> [] \<and> h \<noteq> v_LocalHostIp db \<and> \<not> mtest installed (''child-'' @ h)"
    if i: "fst (installedChildren env w) = Inr installed" for db w installed h
  proof -
    obtain err targets ov' w' where r: "reconcileIpsecHealth env ro db (sys_overlay s') w = (err, targets, ov', w')"
      by (metis prod_cases4)
    show ?thesis
      using reconcile_targets(1)[OF assms(2) r] fin[of db installed "sys_overlay s'"] m
      by (auto simp: r i unserved_def image_iff)
  qed
  with d show ?thesis by blast
qed

text \<open>A backend with one remote host, right after its first configuration.\<close>

lemma example_reachable:
  obtains s where "ipsec_reachable example_env s" "concat (sys_jobs s) = [''192.0.2.20'']"
proof -
  let ?ov = "example_overlay" and ?m = "[(''192.0.2.20'', True)]"
  let ?s = "\<lparr>sys_overlay = ?ov, sys_jobs = [], sys_world = example_stale\<rparr>"
  have r: "ipsec_reachable example_env ?s"
    by (rule ipsec_reachable.start) (simp add: example_overlay_def NewOverlay_def)
  have k: "valid_order (\<lambda>_ ks. ks)" "gomap_ok ?m" by (simp_all add: gomap_ok_def)
  obtain ts ov' where sch: "scheduleInitiatesLocked (\<lambda>_ ks. ks) ?m (sys_overlay ?s) = (ts, ov')" by (metis prod.exhaust)
  have "fst (scheduleInitiatesLocked (\<lambda>_ ks. ks) ?m ?ov) = [''192.0.2.20'']" by code_simp
  then have "ts = [''192.0.2.20'']" using sch by simp
  with ipsec_reachable.step[OF r ipsec_step.healthScheduled[OF k sch]] show thesis
    by (intro that) (auto simp: spawn_def)
qed

theorem initiations_exclusive_witness:
  "\<exists>s. ipsec_reachable example_env s \<and> concat (sys_jobs s) = [''192.0.2.20''] \<and>
     {h. mtest (o_initiating (sys_overlay s)) h} = {''192.0.2.20''}"
proof -
  obtain s where s: "ipsec_reachable example_env s" "concat (sys_jobs s) = [''192.0.2.20'']" by (rule example_reachable)
  show ?thesis using initiations_exclusive[OF s(1)] s by (intro exI[of _ s]) simp
qed

theorem initiations_drain_witness:
  "\<exists>s s'. ipsec_reachable example_env s \<and> (ipsec_step example_env ^^ 1) s s' \<and> sys_jobs s' = []"
proof -
  obtain s where s: "ipsec_reachable example_env s" "concat (sys_jobs s) = [''192.0.2.20'']" by (rule example_reachable)
  obtain s' where "(ipsec_step example_env ^^ length (concat (sys_jobs s))) s s'" "sys_jobs s' = []"
    using initiations_drain[OF s(1) valid_order_id] by (elim exE conjE)
  then show ?thesis using s by (intro exI[of _ s] exI[of _ s']) simp
qed

end
