(* ===== verification/Vxlan.thy ===== *)
theory Vxlan
  imports Store
begin

text \<open>
  The VXLAN backend (\<^verbatim>\<open>backend/vxlan\<close>): the VTEP interface, routes, ARP and forwarding entries of
  peers and remote containers, and their reconciliation with the store. The kernel is an argument:
  a record of functions on a world of arbitrary type. A run-time panic (an index out of range) is
  an outcome of its own.
\<close>

section \<open>Data\<close>

definition vxlanInterfaceName :: string where "vxlanInterfaceName = ''vtep1042''"
definition vxlanMACRange :: string where "vxlanMACRange = ''0E:00:00:00:00:00''"

record vxlanIntfInfo =
  vi_name :: string
  vi_vni :: int
  vi_port :: int
  vi_mac :: "byte list"
  vi_mtu :: int

record entriesDiff =
  toAdd :: "entry gomap"
  toDel :: "entry gomap"
  toUpd :: "entry gomap"
  noop :: "entry gomap"

record vx_Overlay =
  vo_peersMapping :: "go_ip gomap"
  vo_prevPeerEntries :: "entry gomap"
  vo_prevNonPeerRemoteEntries :: "entry gomap"
  vo_v :: vxlanIntfInfo

text \<open>
  What the backend reads of its store. The maps are the store's own: \<^verbatim>\<open>configure\<close> deletes from the
  map of peers that it gets, and that map is part of the store.
\<close>

record vx_db =
  d_LocalIp :: string
  d_PeerEntries :: "entry gomap"
  d_RemoteNonPeerEntries :: "entry gomap"

record vx_route =
  vr_Dst :: ipnet
  vr_Gw :: go_ip
  vr_LinkIndex :: int

record neigh =
  ne_IP :: go_ip
  ne_HardwareAddr :: "byte list"
  ne_LinkIndex :: int
  ne_State :: int
  ne_Flags :: int
  ne_Family :: int

record vx_link =
  vl_Name :: string
  vl_MTU :: int
  vl_VxlanId :: int
  vl_Port :: int
  vl_Learning :: bool
  vl_Proxy :: bool
  vl_L3miss :: bool
  vl_L2miss :: bool
  vl_RSC :: bool

text \<open>The netlink operations and the execution of commands; a found link is its index.\<close>

record 'w vx_env =
  vx_LinkByName :: "string \<Rightarrow> 'w \<Rightarrow> int result \<times> 'w"
  vx_LinkAdd :: "vx_link \<Rightarrow> 'w \<Rightarrow> go_error option \<times> 'w"
  vx_LinkSetHardwareAddr :: "string \<Rightarrow> byte list \<Rightarrow> 'w \<Rightarrow> go_error option \<times> 'w"
  vx_LinkSetUp :: "string \<Rightarrow> 'w \<Rightarrow> go_error option \<times> 'w"
  vx_LinkDel :: "int \<Rightarrow> 'w \<Rightarrow> go_error option \<times> 'w"
  vx_RouteAdd :: "vx_route \<Rightarrow> 'w \<Rightarrow> go_error option \<times> 'w"
  vx_RouteDel :: "vx_route \<Rightarrow> 'w \<Rightarrow> go_error option \<times> 'w"
  vx_NeighAppend :: "neigh \<Rightarrow> 'w \<Rightarrow> go_error option \<times> 'w"
  vx_NeighAdd :: "neigh \<Rightarrow> 'w \<Rightarrow> go_error option \<times> 'w"
  vx_NeighDel :: "neigh \<Rightarrow> 'w \<Rightarrow> go_error option \<times> 'w"
  vx_Exec :: "string \<Rightarrow> string list \<Rightarrow> 'w \<Rightarrow> (string \<times> go_error option) \<times> 'w"

definition EEXIST :: go_error where "EEXIST = EnvError ''file exists''"

section \<open>Differences of entry maps\<close>

definition diff_step ::
  "entry gomap \<times> entriesDiff \<Rightarrow> string \<times> entry \<Rightarrow> entry gomap \<times> entriesDiff" where
  "diff_step acc ie =
     (let (tmpMap, d) = acc; (ip, e) = ie
      in case map_of tmpMap ip of
           Some oldEntry \<Rightarrow>
             (mdel ip tmpMap, if e \<noteq> oldEntry then d\<lparr>toUpd := mput ip e (toUpd d)\<rparr> else d\<lparr>noop := mput ip e (noop d)\<rparr>)
         | None \<Rightarrow> (tmpMap, d\<lparr>toAdd := mput ip e (toAdd d)\<rparr>))"

definition calculateDiffOfEntries :: "map_order \<Rightarrow> entry gomap \<Rightarrow> entry gomap \<Rightarrow> entriesDiff" where
  "calculateDiffOfEntries ro oldMap newMap =
     (case foldl diff_step (oldMap, \<lparr>toAdd = [], toDel = [], toUpd = [], noop = []\<rparr>) (go_range ro 7 newMap) of
        (tmpMap, d) \<Rightarrow> d\<lparr>toDel := tmpMap\<rparr>)"

definition disableChecksumOffload :: "'w vx_env \<Rightarrow> 'w \<Rightarrow> go_error option \<times> 'w" where
  "disableChecksumOffload env w =
     (case vx_Exec env ''ethtool'' [''-K'', ''eth0'', ''tx'', ''off''] w of ((_, err), w') \<Rightarrow> (err, w'))"

section \<open>Interfaces, routes and neighbours\<close>

text \<open>
  The MAC address of an overlay address: the prefix with its last four bytes replaced. Indexing the
  nil slice that \<^verbatim>\<open>To4\<close> returns for an IPv6 address panics.
\<close>

definition getMACAddressForVxlanIP :: "string \<Rightarrow> go_ip \<Rightarrow> byte list outcome" where
  "getMACAddressForVxlanIP prefix ip =
     (case parseMAC prefix of
        None \<Rightarrow> Err (Errorf ''invalid MAC address'' [prefix])
      | Some mac \<Rightarrow>
          let ip4 = to4 ip
          in if ip4 = [] \<or> length mac < 6 then Panic ''index out of range''
             else Ok (mac[5 := ip4 ! 3, 4 := ip4 ! 2, 3 := ip4 ! 1, 2 := ip4 ! 0]))"

definition findVxlanInterface :: "'w vx_env \<Rightarrow> string \<Rightarrow> 'w \<Rightarrow> int result \<times> 'w" where
  "findVxlanInterface env name w = vx_LinkByName env name w"

fun set_link_up :: "'w vx_env \<Rightarrow> string \<Rightarrow> nat \<Rightarrow> go_error option \<Rightarrow> 'w \<Rightarrow> go_error option \<times> 'w" where
  "set_link_up env name 0 err w = (err, w)"
| "set_link_up env name (Suc n) err w =
     (case vx_LinkSetUp env name w of
        (None, w') \<Rightarrow> (None, w')
      | (Some e, w') \<Rightarrow> set_link_up env name n (Some e) w')"

definition linkUpRetries :: nat where "linkUpRetries = 3"

definition createVxlanInterface :: "'w vx_env \<Rightarrow> vxlanIntfInfo \<Rightarrow> 'w \<Rightarrow> go_error option \<times> 'w" where
  "createVxlanInterface env v w =
     (let link = \<lparr>vl_Name = vi_name v, vl_MTU = vi_mtu v, vl_VxlanId = vi_vni v, vl_Port = vi_port v, vl_Learning = False,
                  vl_Proxy = True, vl_L3miss = True, vl_L2miss = True, vl_RSC = True\<rparr>
      in case vx_LinkAdd env link w of
           (err, w1) \<Rightarrow>
             if err \<noteq> None \<and> err \<noteq> Some EEXIST then (err, w1)
             else case vx_LinkSetHardwareAddr env (vi_name v) (vi_mac v) w1 of
               (Some e, w2) \<Rightarrow> (Some e, w2)
             | (None, w2) \<Rightarrow> set_link_up env (vi_name v) linkUpRetries None w2)"

definition deleteVxlanInterface :: "'w vx_env \<Rightarrow> string \<Rightarrow> 'w \<Rightarrow> go_error option \<times> 'w" where
  "deleteVxlanInterface env name w =
     (case vx_LinkByName env name w of
        (Inl e, w1) \<Rightarrow> (Some e, w1)
      | (Inr link, w1) \<Rightarrow> vx_LinkDel env link w1)"

text \<open>A neighbour entry on an interface, passed to one of the netlink operations.\<close>

definition neigh_op ::
  "'w vx_env \<Rightarrow> (neigh \<Rightarrow> 'w \<Rightarrow> go_error option \<times> 'w) \<Rightarrow> int \<Rightarrow> string \<Rightarrow> go_ip \<Rightarrow> byte list \<Rightarrow> 'w \<Rightarrow> go_error option \<times> 'w" where
  "neigh_op env op family intfName ip mac w =
     (case vx_LinkByName env intfName w of
        (Inl e, w1) \<Rightarrow> (Some e, w1)
      | (Inr l, w1) \<Rightarrow>
          op \<lparr>ne_IP = ip, ne_HardwareAddr = mac, ne_LinkIndex = l, ne_State = 128, ne_Flags = 2, ne_Family = family\<rparr> w1)"

definition addARPEntry :: "'w vx_env \<Rightarrow> string \<Rightarrow> go_ip \<Rightarrow> byte list \<Rightarrow> 'w \<Rightarrow> go_error option \<times> 'w" where
  "addARPEntry env = neigh_op env (vx_NeighAppend env) 0"

definition delARPEntry :: "'w vx_env \<Rightarrow> string \<Rightarrow> go_ip \<Rightarrow> byte list \<Rightarrow> 'w \<Rightarrow> go_error option \<times> 'w" where
  "delARPEntry env = neigh_op env (vx_NeighDel env) 0"

definition AF_BRIDGE :: int where "AF_BRIDGE = 7"

definition addVxlanForwardingEntry :: "'w vx_env \<Rightarrow> string \<Rightarrow> byte list \<Rightarrow> go_ip \<Rightarrow> 'w \<Rightarrow> go_error option \<times> 'w" where
  "addVxlanForwardingEntry env intfName mac ip w = neigh_op env (vx_NeighAdd env) AF_BRIDGE intfName ip mac w"

definition deleteVxlanForwardingEntry :: "'w vx_env \<Rightarrow> string \<Rightarrow> byte list \<Rightarrow> go_ip \<Rightarrow> 'w \<Rightarrow> go_error option \<times> 'w" where
  "deleteVxlanForwardingEntry env intfName mac ip w = neigh_op env (vx_NeighDel env) AF_BRIDGE intfName ip mac w"

definition route_op ::
  "'w vx_env \<Rightarrow> (vx_route \<Rightarrow> 'w \<Rightarrow> go_error option \<times> 'w) \<Rightarrow> ipnet \<Rightarrow> go_ip \<Rightarrow> string \<Rightarrow> 'w \<Rightarrow> go_error option \<times> 'w" where
  "route_op env op ip via intfName w =
     (let r = \<lparr>vr_Dst = ip, vr_Gw = via, vr_LinkIndex = 0\<rparr>
      in if intfName = [] then op r w
         else case findVxlanInterface env intfName w of
           (Inl e, w1) \<Rightarrow> (Some e, w1)
         | (Inr l, w1) \<Rightarrow> op (r\<lparr>vr_LinkIndex := l\<rparr>) w1)"

definition addRoute :: "'w vx_env \<Rightarrow> ipnet \<Rightarrow> go_ip \<Rightarrow> string \<Rightarrow> 'w \<Rightarrow> go_error option \<times> 'w" where
  "addRoute env = route_op env (vx_RouteAdd env)"

definition delRoute :: "'w vx_env \<Rightarrow> ipnet \<Rightarrow> go_ip \<Rightarrow> string \<Rightarrow> 'w \<Rightarrow> go_error option \<times> 'w" where
  "delRoute env = route_op env (vx_RouteDel env)"

text \<open>Two operations in a row, the second only if the first succeeds.\<close>

definition andThen :: "('w \<Rightarrow> go_error option \<times> 'w) \<Rightarrow> ('w \<Rightarrow> go_error option \<times> 'w) \<Rightarrow> 'w \<Rightarrow> go_error option \<times> 'w" where
  "andThen f g w = (case f w of (Some e, w1) \<Rightarrow> (Some e, w1) | (None, w1) \<Rightarrow> g w1)"

definition updateRoute :: "'w vx_env \<Rightarrow> ipnet \<Rightarrow> go_ip \<Rightarrow> string \<Rightarrow> 'w \<Rightarrow> go_error option \<times> 'w" where
  "updateRoute env ip via intfName = andThen (delRoute env ip [] intfName) (addRoute env ip via intfName)"

section \<open>Entries\<close>

text \<open>\<^verbatim>\<open>netlink.ParseIPNet\<close>: the address itself with the mask of the prefix.\<close>

definition ParseIPNet :: "string \<Rightarrow> ipnet option" where
  "ParseIPNet s = map_option (\<lambda>(ip, n). IPNet ip (net_mask n)) (parseCIDR s)"

record peerVxlanEntry =
  pe_intfName :: string
  pe_ip :: go_ip
  pe_ipnet :: ipnet
  pe_vtepMAC :: "byte list"
  pe_hostIP :: go_ip

record remoteVxlanEntry =
  re_intfName :: string
  re_ip :: go_ip
  re_ipnet :: ipnet
  re_via :: go_ip
  re_vtepMAC :: "byte list"

definition newPeerVxlanEntry :: "string \<Rightarrow> entry \<Rightarrow> peerVxlanEntry outcome" where
  "newPeerVxlanEntry intfName e =
     (case parseCIDR (IpAddress e) of
        None \<Rightarrow> Err (cidr_error (IpAddress e))
      | Some (ip, _) \<Rightarrow>
          (case ParseIPNet (ipNoCidr e @ ''/32'') of
             None \<Rightarrow> Err (cidr_error (ipNoCidr e @ ''/32''))
           | Some ipn \<Rightarrow>
               (case getMACAddressForVxlanIP vxlanMACRange ip of
                  Err err \<Rightarrow> Err err
                | Panic msg \<Rightarrow> Panic msg
                | Ok vtepMAC \<Rightarrow>
                    let hostIP = parseIP (HostIpAddress e)
                    in if hostIP = [] then Err (Errorf ''Couldn't parse host IP address'' [])
                       else Ok \<lparr>pe_intfName = intfName, pe_ip = ip, pe_ipnet = ipn, pe_vtepMAC = vtepMAC, pe_hostIP = hostIP\<rparr>)))"

definition peer_add :: "'w vx_env \<Rightarrow> peerVxlanEntry \<Rightarrow> 'w \<Rightarrow> go_error option \<times> 'w" where
  "peer_add env v =
     andThen (addRoute env (pe_ipnet v) [] (pe_intfName v))
       (andThen (addARPEntry env (pe_intfName v) (pe_ip v) (pe_vtepMAC v))
          (\<lambda>w. case addVxlanForwardingEntry env (pe_intfName v) (pe_vtepMAC v) (pe_hostIP v) w of
             (Some e, w1) \<Rightarrow> (Some e, snd (delARPEntry env (pe_intfName v) (pe_ip v) (pe_vtepMAC v) w1))
           | (None, w1) \<Rightarrow> (None, w1)))"

definition peer_del :: "'w vx_env \<Rightarrow> peerVxlanEntry \<Rightarrow> 'w \<Rightarrow> go_error option \<times> 'w" where
  "peer_del env v =
     andThen (delRoute env (pe_ipnet v) [] (pe_intfName v))
       (andThen (delARPEntry env (pe_intfName v) (pe_ip v) (pe_vtepMAC v))
          (deleteVxlanForwardingEntry env (pe_intfName v) (pe_vtepMAC v) (pe_hostIP v)))"

definition peer_upd :: "peerVxlanEntry \<Rightarrow> go_error option" where
  "peer_upd v = Some (Errorf ''not updating'' [])"

definition newRemoteVxlanEntry :: "string \<Rightarrow> entry \<Rightarrow> go_ip gomap \<Rightarrow> remoteVxlanEntry outcome" where
  "newRemoteVxlanEntry intfName e peersMapping =
     (case parseCIDR (IpAddress e) of
        None \<Rightarrow> Err (cidr_error (IpAddress e))
      | Some (ip, _) \<Rightarrow>
          (case ParseIPNet (ipNoCidr e @ ''/32'') of
             None \<Rightarrow> Err (cidr_error (ipNoCidr e @ ''/32''))
           | Some ipn \<Rightarrow>
               let via = (if HostIpAddress e \<noteq> [] then mgetd [] peersMapping (HostIpAddress e) else [])
               in case (if via = [] then Ok [] else getMACAddressForVxlanIP vxlanMACRange via) of
                    Err err \<Rightarrow> Err err
                  | Panic msg \<Rightarrow> Panic msg
                  | Ok vtepMAC \<Rightarrow>
                      Ok \<lparr>re_intfName = intfName, re_ip = ip, re_ipnet = ipn, re_via = via, re_vtepMAC = vtepMAC\<rparr>))"

definition remote_add :: "'w vx_env \<Rightarrow> remoteVxlanEntry \<Rightarrow> 'w \<Rightarrow> go_error option \<times> 'w" where
  "remote_add env v =
     andThen (addRoute env (re_ipnet v) [] (re_intfName v)) (addARPEntry env (re_intfName v) (re_ip v) (re_vtepMAC v))"

definition remote_del :: "'w vx_env \<Rightarrow> remoteVxlanEntry \<Rightarrow> 'w \<Rightarrow> go_error option \<times> 'w" where
  "remote_del env v =
     andThen (delRoute env (re_ipnet v) [] (re_intfName v)) (delARPEntry env (re_intfName v) (re_ip v) (re_vtepMAC v))"

definition remote_upd :: "remoteVxlanEntry \<Rightarrow> go_error option" where
  "remote_upd v = Some (Errorf ''not updating'' [])"

end
