(* ===== verification/Vxlan_Overlay.thy ===== *)
theory Vxlan_Overlay
  imports Vxlan
begin

text \<open>
  The overlay object of the VXLAN backend (\<^verbatim>\<open>backend/vxlan/vxlan.go\<close>): creation, start, reload,
  configuration and clean-up. Every loop over a map visits it in the order that \<open>ro\<close> gives.
\<close>

section \<open>The VTEP\<close>

definition GetMyVTEPInfo :: "string \<Rightarrow> byte list outcome" where
  "GetMyVTEPInfo localIP =
     (let myOverlayIP = parseIP localIP
      in if myOverlayIP = [] then Err (Errorf ''invalid local overlay IP address'' [])
         else getMACAddressForVxlanIP vxlanMACRange myOverlayIP)"

definition getDefaultVxlanInterfaceInfo :: "string \<Rightarrow> vxlanIntfInfo outcome" where
  "getDefaultVxlanInterfaceInfo localIP =
     (case GetMyVTEPInfo localIP of
        Ok mac \<Rightarrow> Ok \<lparr>vi_name = vxlanInterfaceName, vi_vni = 1042, vi_port = 4789, vi_mac = mac, vi_mtu = 1400\<rparr>
      | Err e \<Rightarrow> Err e
      | Panic m \<Rightarrow> Panic m)"

definition vx_NewOverlay :: "string \<Rightarrow> vx_Overlay outcome" where
  "vx_NewOverlay localIP =
     (case getDefaultVxlanInterfaceInfo localIP of
        Ok v \<Rightarrow> Ok \<lparr>vo_peersMapping = [], vo_prevPeerEntries = [], vo_prevNonPeerRemoteEntries = [], vo_v = v\<rparr>
      | Err e \<Rightarrow> Err e
      | Panic m \<Rightarrow> Panic m)"

definition CreateVTEP :: "'w vx_env \<Rightarrow> vx_Overlay \<Rightarrow> 'w \<Rightarrow> go_error option \<times> 'w" where
  "CreateVTEP env ov w = createVxlanInterface env (vo_v ov) w"

definition DeleteVTEP :: "'w vx_env \<Rightarrow> vx_Overlay \<Rightarrow> 'w \<Rightarrow> go_error option \<times> 'w" where
  "DeleteVTEP env ov w = deleteVxlanInterface env (vi_name (vo_v ov)) w"

text \<open>A link that is found is never nil: the check for nil has no branch.\<close>

definition checkAndCreateVTEP :: "'w vx_env \<Rightarrow> vx_Overlay \<Rightarrow> 'w \<Rightarrow> go_error option \<times> 'w" where
  "checkAndCreateVTEP env ov w =
     (case findVxlanInterface env (vi_name (vo_v ov)) w of
        (Inl _, w1) \<Rightarrow> CreateVTEP env ov w1
      | (Inr _, w1) \<Rightarrow> (None, w1))"

definition checkAndDeleteVTEP :: "'w vx_env \<Rightarrow> vx_Overlay \<Rightarrow> 'w \<Rightarrow> go_error option \<times> 'w" where
  "checkAndDeleteVTEP env ov w =
     (case findVxlanInterface env (vi_name (vo_v ov)) w of
        (Inl _, w1) \<Rightarrow> (None, w1)
      | (Inr _, w1) \<Rightarrow> DeleteVTEP env ov w1)"

section \<open>Peers\<close>

definition mapping_step :: "go_ip gomap \<Rightarrow> string \<times> entry \<Rightarrow> go_ip gomap" where
  "mapping_step m ie =
     (let e = snd ie
      in if Peer e \<and> \<not> Self e then
           (case parseCIDR (IpAddress e) of None \<Rightarrow> m | Some (ip, _) \<Rightarrow> mput (HostIpAddress e) ip m)
         else m)"

definition buildPeersMapping :: "map_order \<Rightarrow> entry gomap \<Rightarrow> go_ip gomap" where
  "buildPeersMapping ro entries = foldl mapping_step [] (go_range ro 8 entries)"

text \<open>A loop whose body may panic.\<close>

fun each :: "('s \<Rightarrow> 'x \<Rightarrow> 's outcome) \<Rightarrow> 's \<Rightarrow> 'x list \<Rightarrow> 's outcome" where
  "each f s [] = Ok s"
| "each f s (x # xs) = (case f s x of Ok s' \<Rightarrow> each f s' xs | Err e \<Rightarrow> Err e | Panic m \<Rightarrow> Panic m)"

type_synonym 'w entries_state = "entry gomap \<times> 'w"

definition keep_noop :: "entry gomap \<Rightarrow> string \<times> entry \<Rightarrow> entry gomap" where
  "keep_noop prev ie = mput (ipNoCidr (snd ie)) (snd ie) prev"

definition add_peer_step :: "'w vx_env \<Rightarrow> string \<Rightarrow> 'w entries_state \<Rightarrow> string \<times> entry \<Rightarrow> 'w entries_state outcome" where
  "add_peer_step env name s ie =
     (let (prev, w) = s; e = snd ie
      in if Self e then Ok s
         else case newPeerVxlanEntry name e of
           Err _ \<Rightarrow> Ok s
         | Panic m \<Rightarrow> Panic m
         | Ok peer \<Rightarrow>
             (case peer_add env peer w of
                (Some _, w1) \<Rightarrow> Ok (prev, w1)
              | (None, w1) \<Rightarrow> Ok (mput (ipNoCidr e) e prev, w1)))"

definition del_peer_step :: "'w vx_env \<Rightarrow> string \<Rightarrow> 'w entries_state \<Rightarrow> string \<times> entry \<Rightarrow> 'w entries_state outcome" where
  "del_peer_step env name s ie =
     (let (prev, w) = s; e = snd ie
      in if Self e then Ok s
         else case newPeerVxlanEntry name e of
           Err _ \<Rightarrow> Ok s
         | Panic m \<Rightarrow> Panic m
         | Ok peer \<Rightarrow>
             (case peer_del env peer w of
                (Some _, w1) \<Rightarrow> Ok (mput (ipNoCidr e) e prev, w1)
              | (None, w1) \<Rightarrow> Ok (prev, w1)))"

definition upd_peer_step :: "entry gomap \<Rightarrow> entry gomap \<Rightarrow> string \<times> entry \<Rightarrow> entry gomap" where
  "upd_peer_step old prev ie =
     (let e = snd ie in if Self e then prev else mput (ipNoCidr e) (mgetd zeroEntry old (ipNoCidr e)) prev)"

definition handlePeerEntries ::
  "'w vx_env \<Rightarrow> map_order \<Rightarrow> entriesDiff \<Rightarrow> vx_Overlay \<Rightarrow> 'w \<Rightarrow> (vx_Overlay \<times> 'w) outcome" where
  "handlePeerEntries env ro diff ov w =
     (let name = vi_name (vo_v ov); p0 = foldl keep_noop [] (go_range ro 9 (noop diff))
      in case each (add_peer_step env name) (p0, w) (go_range ro 10 (toAdd diff)) of
           Err e \<Rightarrow> Err e
         | Panic m \<Rightarrow> Panic m
         | Ok s1 \<Rightarrow>
             (case each (del_peer_step env name) s1 (go_range ro 11 (toDel diff)) of
                Err e \<Rightarrow> Err e
              | Panic m \<Rightarrow> Panic m
              | Ok (p2, w2) \<Rightarrow>
                  Ok (ov\<lparr>vo_prevPeerEntries :=
                        foldl (upd_peer_step (vo_prevPeerEntries ov)) p2 (go_range ro 12 (toUpd diff))\<rparr>, w2)))"

section \<open>Remote containers that are not peers\<close>

definition add_remote_step ::
  "'w vx_env \<Rightarrow> string \<Rightarrow> go_ip gomap \<Rightarrow> 'w entries_state \<Rightarrow> string \<times> entry \<Rightarrow> 'w entries_state outcome" where
  "add_remote_step env name peersMapping s ie =
     (let (prev, w) = s; e = snd ie
      in case newRemoteVxlanEntry name e peersMapping of
           Err _ \<Rightarrow> Ok s
         | Panic m \<Rightarrow> Panic m
         | Ok r \<Rightarrow>
             if re_via r = [] then Ok s
             else (case remote_add env r w of
                (Some _, w1) \<Rightarrow> Ok (prev, w1)
              | (None, w1) \<Rightarrow> Ok (mput (ipNoCidr e) e prev, w1)))"

definition del_remote_step ::
  "'w vx_env \<Rightarrow> string \<Rightarrow> go_ip gomap \<Rightarrow> 'w entries_state \<Rightarrow> string \<times> entry \<Rightarrow> 'w entries_state outcome" where
  "del_remote_step env name peersMapping s ie =
     (let (prev, w) = s; e = snd ie
      in case newRemoteVxlanEntry name e peersMapping of
           Err _ \<Rightarrow> Ok s
         | Panic m \<Rightarrow> Panic m
         | Ok r \<Rightarrow>
             (case remote_del env r w of
                (Some _, w1) \<Rightarrow> Ok (mput (ipNoCidr e) e prev, w1)
              | (None, w1) \<Rightarrow> Ok (prev, w1)))"

definition upd_remote_step :: "entry gomap \<Rightarrow> entry gomap \<Rightarrow> string \<times> entry \<Rightarrow> entry gomap" where
  "upd_remote_step old prev ie = mput (ipNoCidr (snd ie)) (mgetd zeroEntry old (ipNoCidr (snd ie))) prev"

definition handleNonPeerRemoteEntries ::
  "'w vx_env \<Rightarrow> map_order \<Rightarrow> entriesDiff \<Rightarrow> go_ip gomap \<Rightarrow> vx_Overlay \<Rightarrow> 'w \<Rightarrow> (vx_Overlay \<times> 'w) outcome" where
  "handleNonPeerRemoteEntries env ro diff peersMapping ov w =
     (let name = vi_name (vo_v ov); p0 = foldl keep_noop [] (go_range ro 13 (noop diff))
      in case each (add_remote_step env name peersMapping) (p0, w) (go_range ro 14 (toAdd diff)) of
           Err e \<Rightarrow> Err e
         | Panic m \<Rightarrow> Panic m
         | Ok s1 \<Rightarrow>
             (case each (del_remote_step env name peersMapping) s1 (go_range ro 15 (toDel diff)) of
                Err e \<Rightarrow> Err e
              | Panic m \<Rightarrow> Panic m
              | Ok (p2, w2) \<Rightarrow>
                  Ok (ov\<lparr>vo_prevNonPeerRemoteEntries :=
                        foldl (upd_remote_step (vo_prevNonPeerRemoteEntries ov)) p2 (go_range ro 16 (toUpd diff))\<rparr>, w2)))"

section \<open>Configuration\<close>

definition vx_configure ::
  "'w vx_env \<Rightarrow> map_order \<Rightarrow> vx_db \<Rightarrow> vx_Overlay \<Rightarrow> 'w \<Rightarrow> (go_error option \<times> vx_db \<times> vx_Overlay \<times> 'w) outcome" where
  "vx_configure env ro db ov w =
     (case checkAndCreateVTEP env ov w of
        (Some e, w1) \<Rightarrow> Ok (Some e, db, ov, w1)
      | (None, w1) \<Rightarrow>
          let currentPeers = mdel (d_LocalIp db) (d_PeerEntries db);
              db1 = db\<lparr>d_PeerEntries := currentPeers\<rparr>
          in case handlePeerEntries env ro (calculateDiffOfEntries ro (vo_prevPeerEntries ov) currentPeers) ov w1 of
               Err e \<Rightarrow> Err e
             | Panic m \<Rightarrow> Panic m
             | Ok (ov1, w2) \<Rightarrow>
                 let ov2 = ov1\<lparr>vo_peersMapping := buildPeersMapping ro (vo_prevPeerEntries ov1)\<rparr>
                 in case handleNonPeerRemoteEntries env ro
                       (calculateDiffOfEntries ro (vo_prevNonPeerRemoteEntries ov2) (d_RemoteNonPeerEntries db))
                       (vo_peersMapping ov2) ov2 w2 of
                      Err e \<Rightarrow> Err e
                    | Panic m \<Rightarrow> Panic m
                    | Ok (ov3, w3) \<Rightarrow> Ok (None, db1, ov3, w3))"

definition only_delete :: "entry gomap \<Rightarrow> entriesDiff" where
  "only_delete m = \<lparr>toAdd = [], toDel = m, toUpd = [], noop = []\<rparr>"

definition vx_cleanup ::
  "'w vx_env \<Rightarrow> map_order \<Rightarrow> vx_db \<Rightarrow> vx_Overlay \<Rightarrow> 'w \<Rightarrow> (go_error option \<times> vx_Overlay \<times> 'w) outcome" where
  "vx_cleanup env ro db ov w =
     (case handleNonPeerRemoteEntries env ro (only_delete (d_RemoteNonPeerEntries db)) (vo_peersMapping ov) ov w of
        Err e \<Rightarrow> Err e
      | Panic m \<Rightarrow> Panic m
      | Ok (ov1, w1) \<Rightarrow>
          (case handlePeerEntries env ro (only_delete (d_PeerEntries db)) ov1 w1 of
             Err e \<Rightarrow> Err e
           | Panic m \<Rightarrow> Panic m
           | Ok (ov2, w2) \<Rightarrow> (case checkAndDeleteVTEP env ov2 w2 of (err, w3) \<Rightarrow> Ok (err, ov2, w3))))"

text \<open>\<^verbatim>\<open>Start\<close> only logs an error.\<close>

definition vx_Start ::
  "'w vx_env \<Rightarrow> map_order \<Rightarrow> vx_db \<Rightarrow> vx_Overlay \<Rightarrow> 'w \<Rightarrow> (vx_db \<times> vx_Overlay \<times> 'w) outcome" where
  "vx_Start env ro db ov w =
     (case disableChecksumOffload env w of
        (Some _, w1) \<Rightarrow> Ok (db, ov, w1)
      | (None, w1) \<Rightarrow>
          (case vx_configure env ro db ov w1 of
             Ok (_, db', ov', w') \<Rightarrow> Ok (db', ov', w')
           | Err e \<Rightarrow> Err e
           | Panic m \<Rightarrow> Panic m))"

text \<open>
  \<^verbatim>\<open>Reload\<close>: the reload of the store, what the backend reads of it, and the replacement of the
  store's map of peers are arguments.
\<close>

definition vx_Reload ::
  "'w vx_env \<Rightarrow> map_order \<Rightarrow> ('d \<Rightarrow> go_error option \<times> 'd) \<Rightarrow> ('d \<Rightarrow> vx_db) \<Rightarrow> (entry gomap \<Rightarrow> 'd \<Rightarrow> 'd) \<Rightarrow> 'd \<Rightarrow> vx_Overlay \<Rightarrow> 'w \<Rightarrow>
   (go_error option \<times> 'd \<times> vx_Overlay \<times> 'w) outcome" where
  "vx_Reload env ro reload view setPeers d ov w =
     (case reload d of
        (Some e, d1) \<Rightarrow> Ok (Some e, d1, ov, w)
      | (None, d1) \<Rightarrow>
          (case vx_configure env ro (view d1) ov w of
             Ok (err, db', ov', w') \<Rightarrow> Ok (err, setPeers (d_PeerEntries db') d1, ov', w')
           | Err e \<Rightarrow> Err e
           | Panic m \<Rightarrow> Panic m))"

end
