(* ===== verification/Go_Http.thy ===== *)
theory Go_Http
  imports Go_Net
begin

text \<open>
  What the two HTTP servers use of \<^verbatim>\<open>net/http\<close>: handlers registered for fixed paths, the cleaning of
  the path of a request, and the choice of the handler.
\<close>

fun clean_segments :: "string list \<Rightarrow> string list \<Rightarrow> string list" where
  "clean_segments st [] = rev st"
| "clean_segments st (s # ss) =
     (if s = [] \<or> s = ''.'' then clean_segments st ss
      else if s = ''..'' then clean_segments (tl st) ss
      else clean_segments (s # st) ss)"

text \<open>\<^verbatim>\<open>path.Clean\<close> on a rooted path, with a final slash kept.\<close>

definition cleanPath :: "string \<Rightarrow> string" where
  "cleanPath p =
     (let q = (if p = [] \<or> hd p \<noteq> CHR ''/'' then CHR ''/'' # p else p);
          np = CHR ''/'' # join ''/'' (clean_segments [] (split_on CHR ''/'' q))
      in if last q = CHR ''/'' \<and> np \<noteq> ''/'' then np @ ''/'' else np)"

text \<open>
  The handler of a request other than CONNECT: a path that is not clean is redirected, a path
  without a handler is not found.
\<close>

datatype 'h routing = Handled 'h | MovedTo string | NotFound

definition serve_mux :: "(string \<times> 'h) list \<Rightarrow> string \<Rightarrow> 'h routing" where
  "serve_mux handlers path =
     (if cleanPath path \<noteq> path then MovedTo (cleanPath path)
      else case map_of handlers path of Some h \<Rightarrow> Handled h | None \<Rightarrow> NotFound)"

text \<open>The answer to a request: a status with a body, or a redirection.\<close>

datatype http_reply = Reply int string | RedirectTo string

definition not_found :: http_reply where "not_found = Reply 404 (''404 page not found'' @ [CHR 0x0A])"

section \<open>A redirected request is not redirected again\<close>

definition plain_segment :: "string \<Rightarrow> bool" where
  "plain_segment s \<longleftrightarrow> s \<notin> {[], ''.'', ''..''} \<and> CHR ''/'' \<notin> set s"

lemma clean_segments_plain:
  "list_all (\<lambda>s. CHR ''/'' \<notin> set s) ss \<Longrightarrow> list_all plain_segment st \<Longrightarrow> list_all plain_segment (clean_segments st ss)"
proof (induction st ss rule: clean_segments.induct)
  case (2 st s ss)
  then show ?case by (cases st) (auto simp: plain_segment_def)
qed (simp add: list_all_iff)

lemma clean_segments_id: "list_all plain_segment ss \<Longrightarrow> clean_segments st ss = rev st @ ss"
  by (induction ss arbitrary: st) (auto simp: plain_segment_def)

lemma clean_segments_snoc: "clean_segments st (ss @ [[]]) = clean_segments st ss"
  by (induction st ss rule: clean_segments.induct) auto

lemma split_on_no_sep: "list_all (\<lambda>s. c \<notin> set s) (split_on c s)"
  by (induction c s rule: split_on.induct) (auto split: list.split)

lemma split_on_snoc: "split_on c (s @ [c]) = split_on c s @ [[]]"
  by (induction c s rule: split_on.induct) (auto split: list.split)

lemma join_plain:
  "list_all plain_segment ss \<Longrightarrow> ss \<noteq> [] \<Longrightarrow> join ''/'' ss \<noteq> [] \<and> last (join ''/'' ss) \<noteq> CHR ''/''"
proof (induction ss)
  case (Cons s ss)
  have "s \<noteq> []" "CHR ''/'' \<notin> set s" using Cons.prems by (simp_all add: plain_segment_def)
  then have "s \<noteq> [] \<and> last s \<noteq> CHR ''/''" using last_in_set[of s] by metis
  then show ?case using Cons by (auto simp: join_Cons)
qed simp

lemma split_on_Cons_sep: "split_on c (c # s) = [] # split_on c s"
  using split_on_append[of c "[]" s] by simp

lemma split_clean:
  assumes "list_all plain_segment ss" "ss \<noteq> []"
  shows "clean_segments [] (split_on CHR ''/'' (CHR ''/'' # join ''/'' ss)) = ss"
proof -
  have "split_on CHR ''/'' (join ''/'' ss) = ss"
    by (rule split_on_join[OF assms(2)]) (use assms(1) in \<open>auto simp: list_all_iff plain_segment_def\<close>)
  then show ?thesis using clean_segments_id[OF assms(1), of "[]"] by (simp add: split_on_Cons_sep)
qed

lemma cleanPath_idem: "cleanPath (cleanPath p) = cleanPath p"
proof -
  define q where "q = (if p = [] \<or> hd p \<noteq> CHR ''/'' then CHR ''/'' # p else p)"
  define ss where "ss = clean_segments [] (split_on CHR ''/'' q)"
  have ss: "list_all plain_segment ss" unfolding ss_def by (rule clean_segments_plain[OF split_on_no_sep]) simp
  let ?np = "CHR ''/'' # join ''/'' ss"
  show ?thesis
  proof (cases "ss = []")
    case True
    then have "cleanPath p = ''/''" by (simp add: cleanPath_def Let_def q_def[symmetric] ss_def[symmetric])
    moreover have "cleanPath ''/'' = ''/''" by code_simp
    ultimately show ?thesis by simp
  next
    case False
    have r: "cleanPath p = (if last q = CHR ''/'' then ?np @ ''/'' else ?np)"
      using join_plain[OF ss False] by (simp add: cleanPath_def Let_def q_def[symmetric] ss_def[symmetric])
    have "cleanPath ?np = ?np" "cleanPath (?np @ ''/'') = ?np @ ''/''"
      using join_plain[OF ss False] split_clean[OF ss False] split_on_snoc[of "CHR ''/''" ?np]
      by (simp_all add: cleanPath_def Let_def clean_segments_snoc)
    then show ?thesis using r by (simp split: if_splits)
  qed
qed

lemma serve_mux_redirect: "serve_mux handlers path = MovedTo p \<Longrightarrow> \<forall>q. serve_mux handlers p \<noteq> MovedTo q"
  using cleanPath_idem[of path] by (auto simp: serve_mux_def split: if_splits option.splits)

end
