(* ===== verification/Daemon.thy ===== *)
theory Daemon
  imports Metadata_Store Ipsec_System Vxlan_Overlay Go_Http
begin

text \<open>
  The daemon around the backends: the ARP proxy (\<^verbatim>\<open>arp\<close>), the HTTP server (\<^verbatim>\<open>server\<close>), the handler
  for changes of the metadata (\<^verbatim>\<open>mdchandler\<close>), the detection of Docker's firewall driver
  (\<^verbatim>\<open>docker_firewall_driver.go\<close>), and the start of everything (\<^verbatim>\<open>main.go\<close>).
\<close>

section \<open>The ARP proxy\<close>

text \<open>A received request: what the proxy reads of the packet and of its frame.\<close>

record arp_request =
  aq_Operation :: int
  aq_TargetIP :: netip_addr
  aq_Destination :: "byte list"

definition netip_string :: "netip_addr \<Rightarrow> string" where
  "netip_string a =
     (case a of
        Addr4 b \<Rightarrow> show_ipv4 b
      | Addr6 b z \<Rightarrow> (if take 12 b = v4InV6Prefix then ''::ffff:'' @ show_ipv4 (drop 12 b) else show_ipv6 b) @ (if z = [] then [] else ''%'' @ z))"

definition eth_broadcast :: "byte list" where "eth_broadcast = replicate 6 255"

text \<open>
  The loop over the results of the reads that have come in so far, each with the store as it was
  then (it may be reloaded at any time): the targets that were answered, in order, and the error
  that ended the loop. \<open>reply\<close> says whether sending an answer fails.
\<close>

fun arp_loop ::
  "('s \<Rightarrow> string \<Rightarrow> bool) \<Rightarrow> byte list \<Rightarrow> (arp_request \<Rightarrow> go_error option) \<Rightarrow> ('s \<times> arp_request result) list \<Rightarrow>
   netip_addr list \<times> go_error option" where
  "arp_loop isRemote hw reply [] = ([], None)"
| "arp_loop isRemote hw reply ((s, Inl e) # rs) = ([], Some e)"
| "arp_loop isRemote hw reply ((s, Inr q) # rs) =
     (if aq_Operation q \<noteq> 1 \<or> aq_Destination q \<noteq> eth_broadcast \<and> aq_Destination q \<noteq> hw
      then arp_loop isRemote hw reply rs
      else if isRemote s (netip_string (aq_TargetIP q)) then
        (case reply q of
           Some e \<Rightarrow> ([], Some e)
         | None \<Rightarrow> (case arp_loop isRemote hw reply rs of (as, e) \<Rightarrow> (aq_TargetIP q # as, e)))
      else arp_loop isRemote hw reply rs)"

definition arp_ListenAndServe ::
  "(string \<Rightarrow> byte list result) \<Rightarrow> (byte list \<Rightarrow> go_error option) \<Rightarrow> ('s \<Rightarrow> string \<Rightarrow> bool) \<Rightarrow>
   (arp_request \<Rightarrow> go_error option) \<Rightarrow> string \<Rightarrow> ('s \<times> arp_request result) list \<Rightarrow> netip_addr list \<times> go_error option" where
  "arp_ListenAndServe interfaceByName dial isRemote reply ifaceName reads =
     (case interfaceByName ifaceName of
        Inl e \<Rightarrow> ([], Some e)
      | Inr hw \<Rightarrow> (case dial hw of Some e \<Rightarrow> ([], Some e) | None \<Rightarrow> arp_loop isRemote hw reply reads))"

text \<open>The requests that call for an answer; the requests up to the first read that failed.\<close>

definition answerable :: "('s \<Rightarrow> string \<Rightarrow> bool) \<Rightarrow> byte list \<Rightarrow> 's \<times> arp_request \<Rightarrow> bool" where
  "answerable isRemote hw sq \<longleftrightarrow> aq_Operation (snd sq) = 1 \<and> aq_Destination (snd sq) \<in> {eth_broadcast, hw} \<and>
     isRemote (fst sq) (netip_string (aq_TargetIP (snd sq)))"

definition received :: "('s \<times> arp_request result) list \<Rightarrow> ('s \<times> arp_request) list" where
  "received rs = map (map_prod id projr) (takeWhile (\<lambda>r. \<not> isl (snd r)) rs)"

definition read_error :: "('s \<times> arp_request result) list \<Rightarrow> go_error option" where
  "read_error rs = map_option (\<lambda>r. projl (snd r)) (find (\<lambda>r. isl (snd r)) rs)"

lemma arp_loop_spec:
  "arp_loop isRemote hw (\<lambda>_. None) rs =
     (map (\<lambda>sq. aq_TargetIP (snd sq)) (filter (answerable isRemote hw) (received rs)), read_error rs)"
proof (induction isRemote hw "\<lambda>_ :: arp_request. None :: go_error option" rs rule: arp_loop.induct)
  case (3 isRemote hw s q rs)
  then show ?case by (auto simp: answerable_def received_def read_error_def split: prod.split)
qed (simp_all add: received_def read_error_def)

context overlay_store
begin

text \<open>A proxy that asks such a store answers only for addresses that entries on other hosts have, and none on this host.\<close>

definition elsewhere :: "'s \<Rightarrow> netip_addr \<Rightarrow> bool" where
  "elsewhere s a \<longleftrightarrow> (\<exists>e \<in> set (all_entries s). ipNoCidr e = netip_string a \<and> HostIpAddress e \<noteq> local_host s) \<and>
     (\<forall>e \<in> set (all_entries s). ipNoCidr e = netip_string a \<longrightarrow> HostIpAddress e \<noteq> local_host s)"

lemma answerable_iff:
  assumes "inv (fst sq)"
  shows "answerable is_remote hw sq \<longleftrightarrow> aq_Operation (snd sq) = 1 \<and> aq_Destination (snd sq) \<in> {eth_broadcast, hw} \<and>
    elsewhere (fst sq) (aq_TargetIP (snd sq))"
  using is_remote_law[OF assms] by (simp add: answerable_def elsewhere_def)

lemma proxy_answers:
  assumes "list_all (\<lambda>r. inv (fst r)) rs"
  shows "arp_loop is_remote hw (\<lambda>_. None) rs =
    (map (\<lambda>sq. aq_TargetIP (snd sq)) (filter (\<lambda>sq. aq_Operation (snd sq) = 1 \<and> aq_Destination (snd sq) \<in> {eth_broadcast, hw} \<and>
       elsewhere (fst sq) (aq_TargetIP (snd sq))) (received rs)), read_error rs)"
proof -
  have "inv (fst sq)" if "sq \<in> set (received rs)" for sq
    using that assms by (auto simp: received_def list_all_iff dest!: set_takeWhileD)
  then have "filter (answerable is_remote hw) (received rs) = filter (\<lambda>sq. aq_Operation (snd sq) = 1 \<and>
      aq_Destination (snd sq) \<in> {eth_broadcast, hw} \<and> elsewhere (fst sq) (aq_TargetIP (snd sq))) (received rs)"
    by (intro filter_cong refl answerable_iff)
  then show ?thesis by (simp add: arp_loop_spec)
qed

end

text \<open>The stores that the proxy can meet: file stores after any reloads, with any file contents.\<close>

definition on_other_host :: "Simple \<Rightarrow> netip_addr \<Rightarrow> bool" where
  "on_other_host s a \<longleftrightarrow>
     list_ex (\<lambda>e. ipNoCidr e = netip_string a \<and> HostIpAddress e \<noteq> Simple_LocalHostIpAddress s) (Simple_Entries s) \<and>
     \<not> list_ex (\<lambda>e. ipNoCidr e = netip_string a \<and> HostIpAddress e = Simple_LocalHostIpAddress s) (Simple_Entries s)"

text \<open>
  C29. The ARP proxy in front of the file store, whatever reloads the store goes through between
  requests: it answers exactly the requests to the interface or to the broadcast address whose
  target some entry on another host has and no entry on this host has, in the order of their
  arrival; the first read that fails ends it.
\<close>

theorem arp_proxy_answers:
  "arp_ListenAndServe (\<lambda>_. Inr hw) (\<lambda>_. None) Simple_IsRemote (\<lambda>_. None) iface (map (\<lambda>(rs, r). (simple_after f ov rs, r)) reads) =
    (map (\<lambda>sq. aq_TargetIP (snd sq)) (filter (\<lambda>sq. aq_Operation (snd sq) = 1 \<and> aq_Destination (snd sq) \<in> {eth_broadcast, hw} \<and>
       on_other_host (fst sq) (aq_TargetIP (snd sq))) (received (map (\<lambda>(rs, r). (simple_after f ov rs, r)) reads))),
     read_error (map (\<lambda>(rs, r). (simple_after f ov rs, r)) reads))"
proof -
  have "simple.elsewhere s a \<longleftrightarrow> on_other_host s a" for s a
    by (auto simp: simple.elsewhere_def on_other_host_def list_ex_iff)
  moreover have "list_all (\<lambda>r. simple_inv (fst r)) (map (\<lambda>(rs, r). (simple_after f ov rs, r)) reads)"
    by (auto simp: list_all_iff simple_after_inv)
  ultimately show ?thesis by (simp add: arp_ListenAndServe_def simple.proxy_answers)
qed

section \<open>Reloading a backend\<close>

text \<open>
  The interface \<^verbatim>\<open>backend.Backend\<close> as the server and the change handler use it. The state consists of
  the store and the rest (overlay object, goroutines, kernel). The law: when the store cannot be
  reloaded, this error is returned and nothing but the store is touched.
\<close>

locale overlay_backend =
  fixes reload :: "'s \<Rightarrow> (go_error option \<times> 's) outcome"
    and store_reload :: "'d \<Rightarrow> go_error option \<times> 'd"
    and db :: "'s \<Rightarrow> 'd"
    and rest :: "'s \<Rightarrow> 'r"
  assumes store_failure: "store_reload (db s) = (Some e, d) \<Longrightarrow>
      \<exists>s'. reload s = Ok (Some e, s') \<and> db s' = d \<and> rest s' = rest s"

definition srv_ping :: "int \<times> string" where "srv_ping = (200, ''OK'')"

text \<open>The status and the message, whose error is kept structured.\<close>

definition srv_reload :: "('s \<Rightarrow> (go_error option \<times> 's) outcome) \<Rightarrow> 's \<Rightarrow> ((int \<times> go_error) \<times> 's) outcome" where
  "srv_reload reload s =
     (case reload s of
        Ok (None, s') \<Rightarrow> Ok ((200, Errorf (''Reloaded Configuration'' @ [CHR 0x0A]) []), s')
      | Ok (Some e, s') \<Rightarrow> Ok ((500, Wrapf (''Failed to reload configuration: %v'' @ [CHR 0x0A]) [] e), s')
      | Err e \<Rightarrow> Err e
      | Panic m \<Rightarrow> Panic m)"

datatype srv_handler = SrvPing | SrvReload

definition srv_handlers :: "(string \<times> srv_handler) list" where
  "srv_handlers = [(''/ping'', SrvPing), (''/v1/reload'', SrvReload)]"

datatype srv_reply = Answer http_reply | Message int go_error

definition srv_serve :: "('s \<Rightarrow> (go_error option \<times> 's) outcome) \<Rightarrow> string \<Rightarrow> 's \<Rightarrow> (srv_reply \<times> 's) outcome" where
  "srv_serve reload path s =
     (case serve_mux srv_handlers path of
        Handled SrvPing \<Rightarrow> (case srv_ping of (status, body) \<Rightarrow> Ok (Answer (Reply status body), s))
      | Handled SrvReload \<Rightarrow>
          (case srv_reload reload s of
             Ok ((status, msg), s') \<Rightarrow> Ok (Message status msg, s') | Err e \<Rightarrow> Err e | Panic m \<Rightarrow> Panic m)
      | MovedTo p \<Rightarrow> Ok (Answer (RedirectTo p), s)
      | NotFound \<Rightarrow> Ok (Answer not_found, s))"

text \<open>
  The server: the error with which listening ends at once, or the answers to the requests that have
  come in so far, each with what a reload does at that time. A panic in a handler ends the model.
\<close>

fun srv_loop :: "(('s \<Rightarrow> (go_error option \<times> 's) outcome) \<times> string) list \<Rightarrow> 's \<Rightarrow> (srv_reply list \<times> 's) outcome" where
  "srv_loop [] s = Ok ([], s)"
| "srv_loop ((reload, path) # rs) s =
     (case srv_serve reload path s of
        Err e \<Rightarrow> Err e
      | Panic m \<Rightarrow> Panic m
      | Ok (a, s1) \<Rightarrow> (case srv_loop rs s1 of Ok (as, s2) \<Rightarrow> Ok (a # as, s2) | Err e \<Rightarrow> Err e | Panic m \<Rightarrow> Panic m))"

definition srv_ListenAndServe ::
  "(string \<Rightarrow> go_error option) \<Rightarrow> string \<Rightarrow> (('s \<Rightarrow> (go_error option \<times> 's) outcome) \<times> string) list \<Rightarrow> 's \<Rightarrow>
   (go_error option \<times> srv_reply list \<times> 's) outcome" where
  "srv_ListenAndServe listenErr addr requests s =
     (case listenErr addr of
        Some e \<Rightarrow> Ok (Some e, [], s)
      | None \<Rightarrow> (case srv_loop requests s of Ok (as, s') \<Rightarrow> Ok (None, as, s') | Err e \<Rightarrow> Err e | Panic m \<Rightarrow> Panic m))"

text \<open>The change handler only logs an error.\<close>

definition OnChangeHandler :: "('s \<Rightarrow> (go_error option \<times> 's) outcome) \<Rightarrow> 's \<Rightarrow> 's outcome" where
  "OnChangeHandler reload s = (case reload s of Ok (_, s') \<Rightarrow> Ok s' | Err e \<Rightarrow> Err e | Panic m \<Rightarrow> Panic m)"

definition NewMetadataChangeHandler :: "(string \<Rightarrow> 'c result) \<Rightarrow> string \<Rightarrow> 'c result" where
  "NewMetadataChangeHandler newClient metadataURL = newClient metadataURL"

text \<open>A run of the handler over a sequence of changes, each of which finds its own reload behaviour.\<close>

fun on_changes :: "('s \<Rightarrow> (go_error option \<times> 's) outcome) list \<Rightarrow> 's \<Rightarrow> 's outcome" where
  "on_changes [] s = Ok s"
| "on_changes (r # rs) s = (case OnChangeHandler r s of Ok s' \<Rightarrow> on_changes rs s' | Err e \<Rightarrow> Err e | Panic m \<Rightarrow> Panic m)"

context overlay_backend
begin

lemma failed_reload_reported:
  assumes "store_reload (db s) = (Some e, d)"
  shows "\<exists>s'. srv_reload reload s = Ok ((500, Wrapf (''Failed to reload configuration: %v'' @ [CHR 0x0A]) [] e), s') \<and> rest s' = rest s"
  using store_failure[OF assms] by (auto simp: srv_reload_def)

lemma failed_reload_ignored:
  assumes "store_reload (db s) = (Some e, d)"
  shows "\<exists>s'. OnChangeHandler reload s = Ok s' \<and> db s' = d \<and> rest s' = rest s"
  using store_failure[OF assms] by (auto simp: OnChangeHandler_def)

end

text \<open>The two backends. The IPsec backend's state also has the goroutines that initiate CHILD_SAs.\<close>

type_synonym ('d, 'w) ipsec_state = "'d \<times> Overlay \<times> string list list \<times> 'w"
type_synonym ('d, 'w) vxlan_state = "'d \<times> vx_Overlay \<times> 'w"

definition ipsec_Reload ::
  "'w ipsec_env \<Rightarrow> map_order \<Rightarrow> ('d \<Rightarrow> go_error option \<times> 'd) \<Rightarrow> ('d \<Rightarrow> store_view) \<Rightarrow> ('d, 'w) ipsec_state \<Rightarrow>
   (go_error option \<times> ('d, 'w) ipsec_state) outcome" where
  "ipsec_Reload env ro sreload view s =
     (case s of (d, ov, jobs, w) \<Rightarrow>
        (case Overlay_Reload env ro sreload view d ov w of
           (err, targets, d', ov', w') \<Rightarrow> Ok (err, d', ov', jobs @ spawn targets, w')))"

definition vxlan_Reload ::
  "'w vx_env \<Rightarrow> map_order \<Rightarrow> ('d \<Rightarrow> go_error option \<times> 'd) \<Rightarrow> ('d \<Rightarrow> vx_db) \<Rightarrow> (entry gomap \<Rightarrow> 'd \<Rightarrow> 'd) \<Rightarrow> ('d, 'w) vxlan_state \<Rightarrow>
   (go_error option \<times> ('d, 'w) vxlan_state) outcome" where
  "vxlan_Reload env ro sreload view setPeers s =
     (case s of (d, ov, w) \<Rightarrow> vx_Reload env ro sreload view setPeers d ov w)"

interpretation ipsec_backend: overlay_backend "ipsec_Reload env ro sreload view" sreload fst snd
  for env :: "'w ipsec_env" and ro and sreload :: "'d \<Rightarrow> go_error option \<times> 'd" and view
proof (unfold_locales, goal_cases)
  case (1 s e d)
  then show ?case by (cases s) (simp add: ipsec_Reload_def Overlay_Reload_def spawn_def)
qed

interpretation vxlan_backend: overlay_backend "vxlan_Reload env ro sreload view setPeers" sreload fst snd
  for env :: "'w vx_env" and ro and sreload :: "'d \<Rightarrow> go_error option \<times> 'd" and view setPeers
proof (unfold_locales, goal_cases)
  case (1 s e d)
  then show ?case by (cases s) (simp add: vxlan_Reload_def vx_Reload_def)
qed

definition outage :: "MetadataStore \<Rightarrow> metadata_client \<Rightarrow> bool" where
  "outage ms mc = isl (gather_info mc (clientIP ms))"

lemma outage_reload: "outage ms mc \<Longrightarrow> \<exists>e. MetadataStore_Reload mc ms = (Some e, ms)"
  by (auto simp: outage_def MetadataStore_Reload_def split: sum.splits)

lemma on_changes_fixed: "list_all (\<lambda>r. OnChangeHandler r s = Ok s) rs \<Longrightarrow> on_changes rs s = Ok s"
  by (induction rs) simp_all

text \<open>
  C28. While the metadata service fails, nothing happens to the data plane. For both backends on the
  metadata store, any number of change notifications leaves the store, the overlay object, the
  goroutines and the kernel exactly as they were, and a reload over HTTP is answered with status
  500 and changes nothing either.
\<close>

theorem outage_harmless:
  assumes "list_all (\<lambda>(env, ro, view, mc). outage (fst s) mc) cs" "list_all (\<lambda>(env, ro, view, setPeers, mc). outage (fst t) mc) ds"
    and "outage (fst s) mc" "outage (fst t) mc"
  shows "on_changes (map (\<lambda>(env, ro, view, mc). ipsec_Reload env ro (MetadataStore_Reload mc) view) cs) s = Ok s \<and>
    on_changes (map (\<lambda>(env, ro, view, setPeers, mc). vxlan_Reload env ro (MetadataStore_Reload mc) view setPeers) ds) t = Ok t \<and>
    (\<exists>err. srv_reload (ipsec_Reload ienv ro (MetadataStore_Reload mc) iview) s = Ok ((500, err), s)) \<and>
    (\<exists>err. srv_reload (vxlan_Reload venv ro (MetadataStore_Reload mc) vview setPeers) t = Ok ((500, err), t))"
proof (intro conjI)
  have i: "OnChangeHandler (ipsec_Reload env ro (MetadataStore_Reload mc) view) s = Ok s" if "outage (fst s) mc" for env ro view mc
  proof -
    obtain e where "MetadataStore_Reload mc (fst s) = (Some e, fst s)" using outage_reload[OF \<open>outage (fst s) mc\<close>] by blast
    from ipsec_backend.failed_reload_ignored[where s = s and sreload = "MetadataStore_Reload mc" and env = env and ro = ro and view = view, OF this] show ?thesis by (auto simp: prod_eq_iff)
  qed
  have v: "OnChangeHandler (vxlan_Reload env ro (MetadataStore_Reload mc) view setPeers) t = Ok t"
    if "outage (fst t) mc" for env ro view setPeers mc
  proof -
    obtain e where "MetadataStore_Reload mc (fst t) = (Some e, fst t)" using outage_reload[OF \<open>outage (fst t) mc\<close>] by blast
    from vxlan_backend.failed_reload_ignored[where s = t and sreload = "MetadataStore_Reload mc" and env = env and ro = ro and view = view and setPeers = setPeers, OF this] show ?thesis by (auto simp: prod_eq_iff)
  qed
  show "on_changes (map (\<lambda>(env, ro, view, mc). ipsec_Reload env ro (MetadataStore_Reload mc) view) cs) s = Ok s"
    by (rule on_changes_fixed) (use assms(1) i in \<open>auto simp: list_all_iff\<close>)
  show "on_changes (map (\<lambda>(env, ro, view, setPeers, mc). vxlan_Reload env ro (MetadataStore_Reload mc) view setPeers) ds) t = Ok t"
    by (rule on_changes_fixed) (use assms(2) v in \<open>auto simp: list_all_iff\<close>)
  obtain e where e: "MetadataStore_Reload mc (fst s) = (Some e, fst s)" using outage_reload[OF assms(3)] by blast
  then show "\<exists>err. srv_reload (ipsec_Reload ienv ro (MetadataStore_Reload mc) iview) s = Ok ((500, err), s)"
    by (cases s) (simp add: srv_reload_def ipsec_Reload_def Overlay_Reload_def spawn_def)
  obtain e' where "MetadataStore_Reload mc (fst t) = (Some e', fst t)" using outage_reload[OF assms(4)] by blast
  then show "\<exists>err. srv_reload (vxlan_Reload venv ro (MetadataStore_Reload mc) vview setPeers) t = Ok ((500, err), t)"
    by (cases t) (simp add: srv_reload_def vxlan_Reload_def vx_Reload_def)
qed

definition down :: metadata_client where
  "down = \<lparr>GetSelfContainer = Inl (EnvError ''down''), GetHosts = Inl (EnvError ''down''), GetContainers = Inl (EnvError ''down''),
     GetServices = Inl (EnvError ''down''), GetSelfHost = Inl (EnvError ''down''), GetSelfService = Inl (EnvError ''down''),
     GetNetworks = Inl (EnvError ''down'')\<rparr>"

theorem outage_harmless_witness:
  "\<forall>(env :: unit ipsec_env) ro view (env' :: unit vx_env) view' ov.
     on_changes (map (\<lambda>(env, ro, view, mc). ipsec_Reload env ro (MetadataStore_Reload mc) view) [(env, ro, view, down), (env, ro, view, down)])
       (newMetadataStore [], NewOverlay ''.'', [], ()) = Ok (newMetadataStore [], NewOverlay ''.'', [], ()) \<and>
     (\<exists>err. srv_reload (vxlan_Reload env' ro (MetadataStore_Reload down) view' (\<lambda>_ d. d)) (newMetadataStore [], ov, ()) =
        Ok ((500, err), newMetadataStore [], ov, ()))"
proof (intro allI)
  fix env :: "unit ipsec_env" and ro view and env' :: "unit vx_env" and view' ov
  have d: "outage ms down" for ms by (simp add: outage_def gather_info_def down_def)
  show "on_changes (map (\<lambda>(env, ro, view, mc). ipsec_Reload env ro (MetadataStore_Reload mc) view) [(env, ro, view, down), (env, ro, view, down)])
       (newMetadataStore [], NewOverlay ''.'', [], ()) = Ok (newMetadataStore [], NewOverlay ''.'', [], ()) \<and>
     (\<exists>err. srv_reload (vxlan_Reload env' ro (MetadataStore_Reload down) view' (\<lambda>_ d. d)) (newMetadataStore [], ov, ()) =
        Ok ((500, err), newMetadataStore [], ov, ()))"
    using outage_harmless[where s = "(newMetadataStore [], NewOverlay ''.'', [], ())" and t = "(newMetadataStore [], ov, ())"
        and cs = "[(env, ro, view, down), (env, ro, view, down)]" and ds = "[]" and mc = down and venv = env' and ro = ro
        and vview = view' and setPeers = "\<lambda>_ d. d"] d by simp
qed

end
