(* ===== verification/Go_Flags.thy ===== *)
theory Go_Flags
  imports Go_Strings
begin

text \<open>
  Go's \<^verbatim>\<open>flag\<close> package as the commands use it: string, integer and boolean flags, and the integer
  syntax with base prefixes and underscores that integer flags accept.
\<close>

section \<open>Integers in any base\<close>

definition lower_char :: "char \<Rightarrow> char" where
  "lower_char c = (if 65 \<le> (of_char c :: nat) \<and> (of_char c :: nat) \<le> 90 then char_of (of_char c + 32 :: nat) else c)"

definition digit_of :: "char \<Rightarrow> nat option" where
  "digit_of c =
     (if isDigit c then Some (of_char c - 48)
      else let l = of_char (lower_char c) :: nat in if 97 \<le> l \<and> l \<le> 122 then Some (l - 87) else None)"

text \<open>The base that the literal's prefix gives, and the literal after the prefix.\<close>

definition base_prefix :: "string \<Rightarrow> nat \<times> string" where
  "base_prefix s =
     (case s of
        c # r \<Rightarrow>
          if c \<noteq> CHR ''0'' then (10, s)
          else (case r of
            b # _ # _ \<Rightarrow>
              if lower_char b = CHR ''b'' then (2, tl r)
              else if lower_char b = CHR ''o'' then (8, tl r)
              else if lower_char b = CHR ''x'' then (16, tl r)
              else (8, r)
          | _ \<Rightarrow> (8, r))
      | [] \<Rightarrow> (10, s))"

datatype seen = SawStart | SawDigit | SawUnderscore | SawOther

fun underscores_ok :: "bool \<Rightarrow> seen \<Rightarrow> string \<Rightarrow> bool" where
  "underscores_ok hex saw [] = (saw \<noteq> SawUnderscore)"
| "underscores_ok hex saw (c # cs) =
     (if isDigit c \<or> hex \<and> 97 \<le> (of_char (lower_char c) :: nat) \<and> (of_char (lower_char c) :: nat) \<le> 102
      then underscores_ok hex SawDigit cs
      else if c = CHR ''_'' then saw = SawDigit \<and> underscores_ok hex SawUnderscore cs
      else saw \<noteq> SawUnderscore \<and> underscores_ok hex SawOther cs)"

definition underscoreOK :: "string \<Rightarrow> bool" where
  "underscoreOK s =
     (case s of
        z # b # r \<Rightarrow>
          if z = CHR ''0'' \<and> lower_char b \<in> {CHR ''b'', CHR ''o'', CHR ''x''}
          then underscores_ok (lower_char b = CHR ''x'') SawDigit r
          else underscores_ok False SawStart s
      | _ \<Rightarrow> underscores_ok False SawStart s)"

fun digits_val :: "nat \<Rightarrow> nat \<Rightarrow> string \<Rightarrow> nat option" where
  "digits_val base n [] = Some n"
| "digits_val base n (c # cs) =
     (if c = CHR ''_'' then digits_val base n cs
      else case digit_of c of
        None \<Rightarrow> None
      | Some d \<Rightarrow> if base \<le> d then None else digits_val base (base * n + d) cs)"

text \<open>\<^verbatim>\<open>strconv.ParseInt\<close> with base 0 and 64 bits; a syntax and a range error are not told apart.\<close>

definition parseInt0 :: "string \<Rightarrow> int option" where
  "parseInt0 s0 =
     (let neg = (case s0 of c # _ \<Rightarrow> c = CHR ''-'' | [] \<Rightarrow> False);
          s = (case s0 of c # r \<Rightarrow> if c = CHR ''-'' \<or> c = CHR ''+'' then r else s0 | [] \<Rightarrow> s0);
          (base, ds) = base_prefix s
      in if s = [] then None
         else case digits_val base 0 ds of
           None \<Rightarrow> None
         | Some n \<Rightarrow>
             if CHR ''_'' \<in> set ds \<and> \<not> underscoreOK s then None
             else let v = (if neg then - int n else int n) in if - (2 ^ 63) \<le> v \<and> v < 2 ^ 63 then Some v else None)"

section \<open>Flag sets\<close>

definition parseBool :: "string \<Rightarrow> bool option" where
  "parseBool s =
     (if s \<in> set [''1'', ''t'', ''T'', ''true'', ''TRUE'', ''True''] then Some True
      else if s \<in> set [''0'', ''f'', ''F'', ''false'', ''FALSE'', ''False''] then Some False else None)"

datatype flag_value = FString string | FInt int | FBool bool

text \<open>A flag keeps the type of its default.\<close>

definition set_flag :: "flag_value \<Rightarrow> string \<Rightarrow> flag_value option" where
  "set_flag old s =
     (case old of
        FString _ \<Rightarrow> Some (FString s)
      | FInt _ \<Rightarrow> map_option FInt (parseInt0 s)
      | FBool _ \<Rightarrow> map_option FBool (parseBool s))"

text \<open>
  Parsing stops at the first argument that is not a flag or after \<^verbatim>\<open>--\<close>; the result is the value of
  every flag and the remaining arguments. An unknown or malformed flag is an error.
\<close>

function parse_flag_set :: "flag_value gomap \<Rightarrow> string list \<Rightarrow> (flag_value gomap \<times> string list) option" where
  "parse_flag_set fs args =
     (case args of
        [] \<Rightarrow> Some (fs, [])
      | s # rest \<Rightarrow>
          if length s < 2 \<or> hd s \<noteq> CHR ''-'' then Some (fs, args)
          else if s = ''--'' then Some (fs, rest)
          else let name = (if s ! 1 = CHR ''-'' then drop 2 s else drop 1 s);
                   (key, val, hasValue) = cut CHR ''='' name
               in if name = [] \<or> hd name = CHR ''-'' \<or> hd name = CHR ''='' then None
                  else case map_of fs key of
                    None \<Rightarrow> None
                  | Some old \<Rightarrow>
                      (case old of
                         FBool _ \<Rightarrow>
                           (case (if hasValue then parseBool val else Some True) of
                              None \<Rightarrow> None | Some b \<Rightarrow> parse_flag_set (mput key (FBool b) fs) rest)
                       | _ \<Rightarrow>
                           if hasValue
                           then (case set_flag old val of None \<Rightarrow> None | Some v \<Rightarrow> parse_flag_set (mput key v fs) rest)
                           else (case rest of
                              [] \<Rightarrow> None
                            | v # rest' \<Rightarrow>
                                (case set_flag old v of None \<Rightarrow> None | Some x \<Rightarrow> parse_flag_set (mput key x fs) rest'))))"
  by pat_completeness auto
termination by (relation "measure (\<lambda>(_, args). length args)") auto

declare parse_flag_set.simps [simp del]

definition flag_string :: "flag_value gomap \<Rightarrow> string \<Rightarrow> string" where
  "flag_string fs k = (case map_of fs k of Some (FString s) \<Rightarrow> s | _ \<Rightarrow> [])"

definition flag_int :: "flag_value gomap \<Rightarrow> string \<Rightarrow> int" where
  "flag_int fs k = (case map_of fs k of Some (FInt n) \<Rightarrow> n | _ \<Rightarrow> 0)"

definition flag_bool :: "flag_value gomap \<Rightarrow> string \<Rightarrow> bool" where
  "flag_bool fs k = (case map_of fs k of Some (FBool b) \<Rightarrow> b | _ \<Rightarrow> False)"

end
