(* ===== verification/Checker.thy ===== *)
theory Checker
  imports Go_Json Go_Flags Go_Http
begin

text \<open>
  The connectivity-check sidecar (\<^verbatim>\<open>connectivitycheck/checker.go\<close>). Peers are heap objects: the
  checker's two maps hold their addresses, the goroutine of a peer works on the same object, and
  so do incoming pings. The heap is a list that only grows; a closed \<^verbatim>\<open>stop\<close> channel is a flag of the
  peer. Times and durations are in nanoseconds.
\<close>

section \<open>Metadata\<close>

record ck_host =
  ho_UUID :: string
  ho_AgentIP :: string
  ho_State :: string
  ho_AgentState :: string

record ck_container =
  co_UUID :: string
  co_HostUUID :: string
  co_PrimaryIP :: string
  co_State :: string

record ck_service =
  se_Name :: string
  se_State :: string
  se_Metadata :: "gval gomap"
  se_Containers :: "ck_container list"

record metadataSnapshot =
  sn_ipsecState :: string
  sn_connCheckState :: string
  sn_healthcheckEnabled :: bool
  sn_hosts :: "ck_host gomap"
  sn_peerContainers :: "ck_container gomap"
  sn_checkContainers :: "ck_container gomap"

subsection \<open>Decoding\<close>

text \<open>
  A value without a type is decoded to what it says, except that a number has to fit a 64-bit
  float: its magnitude has to round to less than 2^1024.
\<close>

definition float_ok :: "string \<Rightarrow> bool" where
  "float_ok s =
     (let b = (case s of c # r \<Rightarrow> if c = CHR ''-'' then r else s | [] \<Rightarrow> s);
          r1 = dropWhile isDigit b;
          fr = (case r1 of c # r \<Rightarrow> if c = CHR ''.'' then digits r else [] | [] \<Rightarrow> []);
          r2 = (if fr = [] then r1 else drop (Suc (length fr)) r1);
          e = (case r2 of
                 [] \<Rightarrow> 0
               | _ # x \<Rightarrow> (case x of
                   c # ds \<Rightarrow> if c = CHR ''-'' then - int (dec_val ds) else if c = CHR ''+'' then int (dec_val ds) else int (dec_val x)
                 | [] \<Rightarrow> 0));
          k = e - int (length fr); m = dec_val (digits b @ fr); bound = 2 ^ 1024 - 2 ^ 970
      in if 0 \<le> k then m * 10 ^ nat k < bound else m < bound * 10 ^ nat (- k))"

fun any_error :: "json \<Rightarrow> go_error option" where
  "any_error (JNum s) = (if float_ok s then None else Some (type_error (JNum s)))"
| "any_error (JArr vs) = foldl orElse None (map any_error vs)"
| "any_error (JObj ms) = foldl orElse None (map (\<lambda>m. any_error (snd m)) ms)"
| "any_error _ = None"

definition dec_any :: "gval dec" where
  "dec_any j cur = (case any_error j of None \<Rightarrow> (general j, None) | Some e \<Rightarrow> (GNull, Some e))"

definition zeroHost :: ck_host where
  "zeroHost = \<lparr>ho_UUID = [], ho_AgentIP = [], ho_State = [], ho_AgentState = []\<rparr>"

definition zeroContainer :: ck_container where
  "zeroContainer = \<lparr>co_UUID = [], co_HostUUID = [], co_PrimaryIP = [], co_State = []\<rparr>"

definition zeroService :: ck_service where
  "zeroService = \<lparr>se_Name = [], se_State = [], se_Metadata = [], se_Containers = []\<rparr>"

definition host_fields :: "ck_host field list" where
  "host_fields =
     [field ''uuid'' dec_string ho_UUID ho_UUID_update, field ''agent_ip'' dec_string ho_AgentIP ho_AgentIP_update,
      field ''state'' dec_string ho_State ho_State_update, field ''agent_state'' dec_string ho_AgentState ho_AgentState_update]"

definition container_fields :: "ck_container field list" where
  "container_fields =
     [field ''uuid'' dec_string co_UUID co_UUID_update, field ''host_uuid'' dec_string co_HostUUID co_HostUUID_update,
      field ''primary_ip'' dec_string co_PrimaryIP co_PrimaryIP_update, field ''state'' dec_string co_State co_State_update]"

definition service_fields :: "ck_service field list" where
  "service_fields =
     [field ''name'' dec_string se_Name se_Name_update, field ''state'' dec_string se_State se_State_update,
      field ''metadata'' (dec_map dec_any GNull) se_Metadata se_Metadata_update,
      field ''containers'' (dec_list (dec_struct False container_fields) zeroContainer) se_Containers se_Containers_update]"

text \<open>A request of the metadata client is an argument: the body or an error.\<close>

definition getOne :: "(string \<Rightarrow> string result) \<Rightarrow> 'a dec \<Rightarrow> 'a \<Rightarrow> string \<Rightarrow> 'a result" where
  "getOne send d z path =
     (case send path of
        Inl e \<Rightarrow> Inl e
      | Inr body \<Rightarrow> (case unmarshal d z body of (_, Some e) \<Rightarrow> Inl e | (x, None) \<Rightarrow> Inr x))"

definition getMany :: "(string \<Rightarrow> string result) \<Rightarrow> 'a dec \<Rightarrow> 'a \<Rightarrow> string \<Rightarrow> 'a list result" where
  "getMany send d z path = getOne send (dec_list d z) [] path"

definition connectivityCheckServiceName :: string where "connectivityCheckServiceName = ''connectivity-check''"
definition ipsecServiceHealthcheckFlag :: string where "ipsecServiceHealthcheckFlag = ''ipsec.service.enable.healthcheck''"

subsection \<open>The snapshot\<close>

definition other_hosts :: "string \<Rightarrow> ck_host list \<Rightarrow> ck_host gomap" where
  "other_hosts self hosts = foldl (\<lambda>m h. if ho_UUID h \<noteq> self then mput (ho_UUID h) h m else m) [] hosts"

text \<open>The containers on other hosts under the key that the caller wants.\<close>

definition other_containers ::
  "(ck_container \<Rightarrow> string) \<Rightarrow> string \<Rightarrow> ck_container gomap \<Rightarrow> ck_container list \<Rightarrow> ck_container gomap" where
  "other_containers key self m cs = foldl (\<lambda>m c. if co_HostUUID c \<noteq> self then mput (key c) c m else m) m cs"

definition service_step :: "string \<Rightarrow> metadataSnapshot \<Rightarrow> ck_service \<Rightarrow> metadataSnapshot" where
  "service_step self sn s =
     (if se_Name s \<noteq> connectivityCheckServiceName then sn
      else sn\<lparr>sn_connCheckState := se_State s,
              sn_checkContainers := other_containers co_HostUUID self (sn_checkContainers sn) (se_Containers s)\<rparr>)"

definition healthcheck_enabled :: "ck_service \<Rightarrow> bool" where
  "healthcheck_enabled s = (case map_of (se_Metadata s) ipsecServiceHealthcheckFlag of Some (GBool b) \<Rightarrow> b | _ \<Rightarrow> False)"

definition getMetadataSnapshot :: "(string \<Rightarrow> string result) \<Rightarrow> metadataSnapshot result" where
  "getMetadataSnapshot send =
     (case getOne send (dec_struct False host_fields) zeroHost ''/self/host'' of
        Inl e \<Rightarrow> Inl e
      | Inr selfHost \<Rightarrow> (case getMany send (dec_struct False host_fields) zeroHost ''/hosts'' of
        Inl e \<Rightarrow> Inl e
      | Inr hosts \<Rightarrow> (case getOne send (dec_struct False service_fields) zeroService ''/self/service'' of
        Inl e \<Rightarrow> Inl e
      | Inr selfService \<Rightarrow> (case getMany send (dec_struct False service_fields) zeroService ''/services'' of
        Inl e \<Rightarrow> Inl e
      | Inr services \<Rightarrow>
          let self = ho_UUID selfHost
          in Inr (foldl (service_step self)
               \<lparr>sn_ipsecState = se_State selfService, sn_connCheckState = [], sn_healthcheckEnabled = healthcheck_enabled selfService,
                sn_hosts = other_hosts self hosts,
                sn_peerContainers = other_containers co_UUID self [] (se_Containers selfService),
                sn_checkContainers = []\<rparr> services)))))"

definition shouldConsider :: "metadataSnapshot \<Rightarrow> bool" where
  "shouldConsider sn \<longleftrightarrow> sn_healthcheckEnabled sn \<and> sn_ipsecState sn = ''active'' \<and> sn_connCheckState sn = ''active''"

section \<open>Peers\<close>

record peer =
  p_uuid :: string
  p_host :: "ck_host option"
  p_container :: "ck_container option"
  p_checkContainer :: "ck_container option"
  p_stopped :: bool
  p_count :: int
  p_checkInterval :: int
  p_connectionTimeout :: int
  p_lastChecked :: "int option"
  p_randomOffset :: int

definition peer_consider :: "peer \<Rightarrow> bool" where
  "peer_consider p =
     (case (p_host p, p_container p, p_checkContainer p) of
        (Some h, Some c, Some cc) \<Rightarrow>
          if ho_State h \<noteq> ''active'' then False
          else if ho_AgentState h \<noteq> [] \<and> ho_AgentState h \<noteq> ''active'' then False
          else co_State c = ''running'' \<and> co_State cc = ''running''
      | _ \<Rightarrow> False)"

definition updateSuccess :: "int \<Rightarrow> peer \<Rightarrow> peer" where
  "updateSuccess now p = p\<lparr>p_count := (if p_count p < 3 then p_count p + 1 else p_count p), p_lastChecked := Some now\<rparr>"

definition updateFailure :: "int \<Rightarrow> peer \<Rightarrow> peer" where
  "updateFailure now p = p\<lparr>p_count := (if p_count p > 0 then p_count p - 1 else p_count p), p_lastChecked := Some now\<rparr>"

text \<open>The time since the zero time is the largest duration.\<close>

definition since :: "int \<Rightarrow> int option \<Rightarrow> int" where
  "since now t = (case t of None \<Rightarrow> 2 ^ 63 - 1 | Some t \<Rightarrow> now - t)"

definition expectedPeerPingResponse :: string where "expectedPeerPingResponse = ''pong''"

text \<open>\<open>get\<close> is the HTTP request: the status code and the body or its read error.\<close>

definition isReachable ::
  "(string \<Rightarrow> int \<Rightarrow> (int \<times> string result) result) \<Rightarrow> string \<Rightarrow> string \<Rightarrow> int \<Rightarrow> bool \<times> go_error option" where
  "isReachable get url expected timeout =
     (case get url timeout of
        Inl e \<Rightarrow> (False, Some e)
      | Inr (status, body) \<Rightarrow>
          if status \<noteq> 200 then (False, Some (Errorf ''status code %d'' [itoa_int status]))
          else case body of
            Inl e \<Rightarrow> (False, Some e)
          | Inr s \<Rightarrow> if s \<noteq> expected then (False, Some (Errorf ''unexpected response %q'' [s])) else (True, None))"

text \<open>
  The work of a peer's goroutine: under the lock it decides whether to check and whom; the request
  runs without the lock; its result is entered under the lock again.
\<close>

definition peer_begin :: "int \<Rightarrow> peer \<Rightarrow> (string \<times> int) option" where
  "peer_begin now p =
     (if \<not> peer_consider p \<or> since now (p_lastChecked p) < p_checkInterval p then None
      else map_option (\<lambda>c. (''http://'' @ co_PrimaryIP c @ ''/ping'', p_connectionTimeout p)) (p_container p))"

definition peer_end :: "int \<Rightarrow> bool \<Rightarrow> peer \<Rightarrow> peer" where
  "peer_end now ok p = (if ok then updateSuccess now p else updateFailure now p)"

definition peer_doWork :: "(string \<Rightarrow> int \<Rightarrow> (int \<times> string result) result) \<Rightarrow> int \<Rightarrow> int \<Rightarrow> peer \<Rightarrow> peer" where
  "peer_doWork get now now' p =
     (case peer_begin now p of
        None \<Rightarrow> p
      | Some (url, timeout) \<Rightarrow> peer_end now' (fst (isReachable get url expectedPeerPingResponse timeout)) p)"

definition sleepDuration :: "peer \<Rightarrow> int" where
  "sleepDuration p = (if p_checkInterval p \<le> p_randomOffset p then p_checkInterval p else p_checkInterval p - p_randomOffset p)"

text \<open>
  The loop of the goroutine, as far as it has come: before every round the rest of the program may
  have changed the peer. The result says whether the loop has ended.
\<close>

fun peer_run ::
  "((peer \<Rightarrow> peer) \<times> (string \<Rightarrow> int \<Rightarrow> (int \<times> string result) result) \<times> int \<times> int) list \<Rightarrow> peer \<Rightarrow> bool \<times> peer" where
  "peer_run [] p = (False, p)"
| "peer_run ((other, get, now, now') # rounds) p =
     (if p_stopped (other p) then (True, other p) else peer_run rounds (peer_doWork get now now' (other p)))"

text \<open>The code points over which a range statement runs; a byte that starts no sequence counts as U+FFFD.\<close>

definition rune_of :: "string \<Rightarrow> nat" where
  "rune_of bs =
     (case map of_char bs of
        [a, b] \<Rightarrow> (a - 192) * 64 + (b - 128)
      | [a, b, c] \<Rightarrow> (a - 224) * 4096 + (b - 128) * 64 + (c - 128)
      | [a, b, c, d] \<Rightarrow> (a - 240) * 262144 + (b - 128) * 4096 + (c - 128) * 64 + (d - 128)
      | _ \<Rightarrow> 65533)"

function runes :: "string \<Rightarrow> nat list" where
  "runes s =
     (case s of
        [] \<Rightarrow> []
      | c # cs \<Rightarrow>
          if code c < 128 then code c # runes cs
          else if utf8_width s = 0 then 65533 # runes cs
          else rune_of (take (utf8_width s) s) # runes (drop (utf8_width s) s))"
  by pat_completeness auto
termination by (relation "measure length") auto

declare runes.simps [simp del]

definition millisecond :: int where "millisecond = 1000000"

definition randomOffset :: "string \<Rightarrow> int" where
  "randomOffset hostUUID = (if hostUUID = [] then 0 else int (sum_list (runes hostUUID) mod 1000) * millisecond)"

section \<open>The checker\<close>

record checker =
  ck_port :: int
  ck_checkInterval :: int
  ck_connectionTimeout :: int
  ck_peers :: "nat gomap"
  ck_peersByIP :: "nat gomap"
  ck_ok :: bool

definition newChecker :: "int \<Rightarrow> int \<Rightarrow> int \<Rightarrow> checker" where
  "newChecker port checkInterval connectionTimeout =
     \<lparr>ck_port = port, ck_checkInterval = checkInterval, ck_connectionTimeout = connectionTimeout,
      ck_peers = [], ck_peersByIP = [], ck_ok = True\<rparr>"

text \<open>The state of the loop over the containers: the two next maps, the peers not yet taken over, and the heap.\<close>

record work =
  wk_next :: "nat gomap"
  wk_nextByIP :: "nat gomap"
  wk_left :: "nat gomap"
  wk_heap :: "peer list"

definition new_peer :: "checker \<Rightarrow> string \<Rightarrow> ck_container \<Rightarrow> peer" where
  "new_peer ck uuid c =
     \<lparr>p_uuid = uuid, p_host = None, p_container = None, p_checkContainer = None, p_stopped = False, p_count = 0,
      p_checkInterval = ck_checkInterval ck, p_connectionTimeout = ck_connectionTimeout ck, p_lastChecked = None,
      p_randomOffset = randomOffset (co_HostUUID c)\<rparr>"

definition refresh :: "metadataSnapshot \<Rightarrow> ck_container \<Rightarrow> peer \<Rightarrow> peer" where
  "refresh sn c p =
     p\<lparr>p_container := Some c, p_host := map_of (sn_hosts sn) (co_HostUUID c),
       p_checkContainer := map_of (sn_checkContainers sn) (co_HostUUID c)\<rparr>"

definition work_step :: "checker \<Rightarrow> metadataSnapshot \<Rightarrow> work \<Rightarrow> string \<times> ck_container \<Rightarrow> work" where
  "work_step ck sn wk uc =
     (let (uuid, c) = uc;
          (a, heap) = (case map_of (wk_left wk) uuid of
             Some a \<Rightarrow> (a, wk_heap wk)
           | None \<Rightarrow> (length (wk_heap wk), wk_heap wk @ [new_peer ck uuid c]))
      in wk\<lparr>wk_next := mput uuid a (wk_next wk), wk_nextByIP := mput (co_PrimaryIP c) a (wk_nextByIP wk),
            wk_left := mdel uuid (wk_left wk), wk_heap := heap[a := refresh sn c (heap ! a)]\<rparr>)"

text \<open>Closing the \<^verbatim>\<open>stop\<close> channels of the peers that are gone; closing one twice panics.\<close>

fun close_all :: "nat list \<Rightarrow> peer list \<Rightarrow> peer list outcome" where
  "close_all [] heap = Ok heap"
| "close_all (a # as) heap =
     (if p_stopped (heap ! a) then Panic ''close of closed channel''
      else close_all as (heap[a := (heap ! a)\<lparr>p_stopped := True\<rparr>]))"

definition computeOK :: "map_order \<Rightarrow> metadataSnapshot \<Rightarrow> nat gomap \<Rightarrow> peer list \<Rightarrow> bool" where
  "computeOK ro sn byIP heap =
     (\<not> shouldConsider sn \<or>
      list_all (\<lambda>(ip, a). \<not> (peer_consider (heap ! a) \<and> p_count (heap ! a) = 0)) (go_range ro 22 byIP))"

definition checker_doWork ::
  "map_order \<Rightarrow> metadataSnapshot result \<Rightarrow> checker \<times> peer list \<Rightarrow> (checker \<times> peer list) outcome" where
  "checker_doWork ro snapshot s =
     (case snapshot of
        Inl _ \<Rightarrow> Ok s
      | Inr sn \<Rightarrow>
          let (ck, heap) = s;
              wk = foldl (work_step ck sn) \<lparr>wk_next = [], wk_nextByIP = [], wk_left = ck_peers ck, wk_heap = heap\<rparr>
                     (go_range ro 20 (sn_peerContainers sn))
          in case close_all (map snd (go_range ro 21 (wk_left wk))) (wk_heap wk) of
               Ok heap' \<Rightarrow>
                 Ok (ck\<lparr>ck_peers := wk_next wk, ck_peersByIP := wk_nextByIP wk,
                        ck_ok := computeOK ro sn (wk_nextByIP wk) heap'\<rparr>, heap')
             | Err e \<Rightarrow> Err e
             | Panic m \<Rightarrow> Panic m)"

section \<open>HTTP\<close>

text \<open>\<^verbatim>\<open>net.SplitHostPort\<close>, of which only the host is used.\<close>

definition splitHost :: "string \<Rightarrow> string option" where
  "splitHost hp =
     (case split_last CHR '':'' hp of
        None \<Rightarrow> None
      | Some (before, port) \<Rightarrow>
          if hd hp = CHR ''['' then
            (if CHR '']'' \<notin> set hp then None
             else let host = takeWhile (\<lambda>c. c \<noteq> CHR '']'') (tl hp)
                  in if before \<noteq> CHR ''['' # host @ '']'' \<or> CHR ''['' \<in> set (tl hp) \<or> CHR '']'' \<in> set port then None
                     else Some host)
          else if CHR '':'' \<in> set before \<or> CHR ''['' \<in> set hp \<or> CHR '']'' \<in> set hp then None
          else Some before)"

definition ping_source :: "string \<Rightarrow> string" where
  "ping_source remoteAddr = (case splitHost remoteAddr of Some h \<Rightarrow> h | None \<Rightarrow> split_head CHR '':'' remoteAddr)"

text \<open>The handlers: the new heap, the status and the body.\<close>

definition ck_ping :: "int \<Rightarrow> string \<Rightarrow> checker \<times> peer list \<Rightarrow> (int \<times> string) \<times> peer list" where
  "ck_ping now remoteAddr s =
     (let (ck, heap) = s
      in ((200, expectedPeerPingResponse),
          case map_of (ck_peersByIP ck) (ping_source remoteAddr) of
            None \<Rightarrow> heap
          | Some a \<Rightarrow> heap[a := updateSuccess now (heap ! a)]))"

definition connectivity :: "checker \<Rightarrow> int \<times> string" where
  "connectivity ck = (if ck_ok ck then (200, ''OK'') else (500, ''NOT OK''))"

datatype ck_handler = CkPing | CkConnectivity

definition ck_handlers :: "(string \<times> ck_handler) list" where
  "ck_handlers = [(''/ping'', CkPing), (''/connectivity'', CkConnectivity)]"

definition ck_serve :: "int \<Rightarrow> string \<Rightarrow> string \<Rightarrow> checker \<times> peer list \<Rightarrow> http_reply \<times> peer list" where
  "ck_serve now path remoteAddr s =
     (case serve_mux ck_handlers path of
        Handled CkPing \<Rightarrow> (case ck_ping now remoteAddr s of ((status, body), heap) \<Rightarrow> (Reply status body, heap))
      | Handled CkConnectivity \<Rightarrow> (case connectivity (fst s) of (status, body) \<Rightarrow> (Reply status body, snd s))
      | MovedTo p \<Rightarrow> (RedirectTo p, snd s)
      | NotFound \<Rightarrow> (not_found, snd s))"

section \<open>Taking over the port\<close>

record 'w port_env =
  po_Listen :: "string \<Rightarrow> 'w \<Rightarrow> nat result \<times> 'w"
  po_InUse :: "go_error \<Rightarrow> bool"
  po_Now :: "'w \<Rightarrow> int"
  po_Sleep :: "int \<Rightarrow> 'w \<Rightarrow> 'w"

definition portHandoffMaxWait :: int where "portHandoffMaxWait = 90000 * millisecond"
definition portHandoffPoll :: int where "portHandoffPoll = 250 * millisecond"

partial_function (option) handoff_loop ::
  "'w port_env \<Rightarrow> string \<Rightarrow> int \<Rightarrow> int \<Rightarrow> 'w \<Rightarrow> (nat result \<times> 'w) option" where
  "handoff_loop env address maxWait deadline w =
     (case po_Listen env address w of
        (Inr l, w1) \<Rightarrow> Some (Inr l, w1)
      | (Inl err, w1) \<Rightarrow>
          if \<not> po_InUse env err then Some (Inl err, w1)
          else let remaining = deadline - po_Now env w1
               in if remaining \<le> 0
                  then Some (Inl (Wrapf ''prior listener did not release %s within %s: %w'' [address, itoa_int maxWait] err), w1)
                  else handoff_loop env address maxWait deadline (po_Sleep env (min remaining portHandoffPoll) w1))"

definition listenWithPortHandoff :: "'w port_env \<Rightarrow> int \<Rightarrow> int \<Rightarrow> 'w \<Rightarrow> (nat result \<times> 'w) option" where
  "listenWithPortHandoff env port maxWait w =
     handoff_loop env ('':'' @ itoa_int port) maxWait (po_Now env w + maxWait) w"

definition startServer :: "'w port_env \<Rightarrow> checker \<Rightarrow> 'w \<Rightarrow> (nat result \<times> 'w) option" where
  "startServer env ck w =
     (case listenWithPortHandoff env (ck_port ck) portHandoffMaxWait w of
        None \<Rightarrow> None
      | Some (Inl e, w1) \<Rightarrow> Some (Inl (Wrapf ''listen on port %d: %w'' [itoa_int (ck_port ck)] e), w1)
      | Some (Inr l, w1) \<Rightarrow> Some (Inr l, w1))"

section \<open>The command\<close>

definition validPort :: "int \<Rightarrow> bool" where "validPort port \<longleftrightarrow> 0 < port \<and> port \<le> 65535"

text \<open>An unset variable and an empty one are the same to the program.\<close>

definition envString :: "(string \<Rightarrow> string) \<Rightarrow> string \<Rightarrow> string \<Rightarrow> string" where
  "envString getenv key fallback = (if getenv key \<noteq> [] then getenv key else fallback)"

definition envInt :: "(string \<Rightarrow> string) \<Rightarrow> string \<Rightarrow> int \<Rightarrow> int" where
  "envInt getenv key fallback =
     (if getenv key = [] then fallback else case atoi (getenv key) of None \<Rightarrow> fallback | Some n \<Rightarrow> n)"

text \<open>
  Lower-casing is written for ASCII: outside it only U+0130 and U+212A have an ASCII letter as lower
  case, and none of the three words has that letter.
\<close>

definition envBool :: "(string \<Rightarrow> string) \<Rightarrow> string \<Rightarrow> bool" where
  "envBool getenv key = (map lower_char (getenv key) \<in> {''true'', ''1'', ''yes''})"

definition wrap64 :: "int \<Rightarrow> int" where "wrap64 x = (x + 2 ^ 63) mod 2 ^ 64 - 2 ^ 63"

definition run_defaults :: "(string \<Rightarrow> string) \<Rightarrow> flag_value gomap" where
  "run_defaults getenv =
     [(''metadata-address'', FString (envString getenv ''PASTURESTACK_METADATA_ADDRESS''
          (envString getenv ''RANCHER_METADATA_ADDRESS'' ''169.254.169.250''))),
      (''connectivity-check-interval'', FInt (envInt getenv ''CONNECTIVITY_CHECK_INTERVAL'' 5000)),
      (''peer-connection-timeout'', FInt (envInt getenv ''PEER_CONNECTION_TIMEOUT'' 1000)),
      (''port'', FInt 80),
      (''debug'', FBool (envBool getenv ''PASTURESTACK_DEBUG'' \<or> envBool getenv ''RANCHER_DEBUG'')),
      (''version'', FBool False)]"

datatype ck_run = RunFailed go_error | VersionPrinted | Serving checker

text \<open>
  A run that serves never returns; the model gives the checker that it serves. \<open>None\<close> is a wait for
  the port that never ends.
\<close>

definition checker_run :: "'w port_env \<Rightarrow> checker \<Rightarrow> 'w \<Rightarrow> ck_run option" where
  "checker_run env ck w =
     (case startServer env ck w of
        None \<Rightarrow> None
      | Some (Inl e, _) \<Rightarrow> Some (RunFailed e)
      | Some (Inr _, _) \<Rightarrow> Some (Serving ck))"

text \<open>\<^verbatim>\<open>Run\<close>: the connection to the metadata service and the socket operations are arguments.\<close>

definition Run ::
  "'w port_env \<Rightarrow> (string \<Rightarrow> string) \<Rightarrow> (string \<Rightarrow> go_error option) \<Rightarrow> string list \<Rightarrow> 'w \<Rightarrow> ck_run option" where
  "Run env getenv newClient args w =
     (case parse_flag_set (run_defaults getenv) args of
        None \<Rightarrow> Some (RunFailed (Errorf ''flag provided but not defined or invalid'' []))
      | Some (fs, _) \<Rightarrow>
          if flag_bool fs ''version'' then Some VersionPrinted
          else let port = (if validPort (flag_int fs ''port'') then flag_int fs ''port'' else 80);
                   interval = (if flag_int fs ''connectivity-check-interval'' \<le> 0 then 5000 else flag_int fs ''connectivity-check-interval'');
                   timeout = (if flag_int fs ''peer-connection-timeout'' \<le> 0 then 1000 else flag_int fs ''peer-connection-timeout'');
                   ck = newChecker port (wrap64 (interval * millisecond)) (wrap64 (timeout * millisecond))
               in case newClient (''http://'' @ flag_string fs ''metadata-address'' @ ''/2016-07-29'') of
                    Some e \<Rightarrow> Some (RunFailed (Wrapf ''create metadata client: %w'' [] e))
                  | None \<Rightarrow> checker_run env ck w)"

end
