(* ===== verification/App.thy ===== *)
theory App
  imports Daemon Checker "HOL-Library.Sublist"
begin

text \<open>
  Docker's firewall driver and the loaded legacy tables (\<^verbatim>\<open>docker_firewall_driver.go\<close>), and the start
  of the daemon (\<^verbatim>\<open>main.go\<close>) from the values of its flags. What the start asks of the rest of the
  program and of the system is a sequence of actions, each of which the argument \<open>ans\<close> lets succeed
  or fail.
\<close>

section \<open>Docker's firewall driver\<close>

record fw_backend = fb_Driver :: string

record docker_info =
  di_ServerVersion :: string
  di_FirewallBackend :: "fw_backend option"

definition docker_info_fields :: "docker_info field list" where
  "docker_info_fields =
     [field ''ServerVersion'' dec_string di_ServerVersion di_ServerVersion_update,
      field ''FirewallBackend'' (dec_ptr (dec_struct False [field ''Driver'' dec_string fb_Driver fb_Driver_update]) \<lparr>fb_Driver = []\<rparr>)
        di_FirewallBackend di_FirewallBackend_update]"

text \<open>A decoder on a stream reads one value of the first 4 MiB and ignores what follows.\<close>

definition decode_first :: "'a dec \<Rightarrow> 'a \<Rightarrow> string \<Rightarrow> 'a result" where
  "decode_first d z body =
     (let s = take (4 * 2 ^ 20) body
      in case pvalue (Suc (length s)) maxNestingDepth s of
           None \<Rightarrow> Inl syntax_error
         | Some (j, _) \<Rightarrow> (case d j z of (_, Some e) \<Rightarrow> Inl e | (x, None) \<Rightarrow> Inr x))"

definition driver_of_info :: "docker_info \<Rightarrow> string result" where
  "driver_of_info info =
     (case di_FirewallBackend info of
        Some fb \<Rightarrow>
          if fb_Driver fb = ''iptables'' \<or> fb_Driver fb = ''nftables'' then Inr (fb_Driver fb)
          else Inl (Errorf ''unsupported Docker firewall driver %q'' [fb_Driver fb])
      | None \<Rightarrow>
          (case cut CHR ''.'' (di_ServerVersion info) of
             (majorText, _, found) \<Rightarrow>
               (case atoi majorText of
                  Some major \<Rightarrow>
                    if \<not> found \<or> major < 1 \<or> 29 \<le> major
                    then Inl (Errorf ''Docker %q did not report a usable firewall driver'' [di_ServerVersion info])
                    else Inr ''iptables''
                | None \<Rightarrow> Inl (Errorf ''Docker %q did not report a usable firewall driver'' [di_ServerVersion info]))))"

text \<open>The request over Docker's socket is an argument: the status and the body or its read error, or an error.\<close>

definition dockerFirewallDriver :: "(int \<times> string result) result \<Rightarrow> string result" where
  "dockerFirewallDriver response =
     (case response of
        Inl e \<Rightarrow> Inl (Wrapf ''read Docker firewall mode: %w'' [] e)
      | Inr (status, body) \<Rightarrow>
          if status \<noteq> 200 then Inl (Errorf ''read Docker firewall mode: HTTP %d'' [itoa_int status])
          else case (case body of Inl e \<Rightarrow> Inl e
              | Inr text \<Rightarrow> decode_first (dec_struct False docker_info_fields) \<lparr>di_ServerVersion = [], di_FirewallBackend = None\<rparr> text) of
            Inl e \<Rightarrow> Inl (Wrapf ''decode Docker firewall mode: %w'' [] e)
          | Inr info \<Rightarrow> driver_of_info info)"

text \<open>The file may be missing, unreadable, or have contents.\<close>

datatype file_read = Missing | Unreadable go_error | Contents string

definition legacyLoadedTables :: "file_read \<Rightarrow> string result" where
  "legacyLoadedTables f =
     (case f of
        Missing \<Rightarrow> Inr []
      | Unreadable e \<Rightarrow> Inl (Wrapf ''read loaded legacy netfilter tables: %w'' [] e)
      | Contents tables \<Rightarrow>
          Inr (concat (map (\<lambda>name. if name = ''nat'' \<or> name = ''filter'' then name @ [CHR 0x0A] else [])
            (split_on CHR 0x0A tables))))"

section \<open>Commands\<close>

text \<open>The two hidden commands print what they find.\<close>

definition docker_firewall_driver_command :: "(int \<times> string result) result \<Rightarrow> string result" where
  "docker_firewall_driver_command response =
     (case dockerFirewallDriver response of Inl e \<Rightarrow> Inl e | Inr driver \<Rightarrow> Inr (driver @ [CHR 0x0A]))"

definition legacy_loaded_tables_command :: "file_read \<Rightarrow> string result" where
  "legacy_loaded_tables_command f = legacyLoadedTables f"

text \<open>\<^verbatim>\<open>filepath.Base\<close>, and whether the program runs as the connectivity check.\<close>

definition base_name :: "string \<Rightarrow> string" where
  "base_name path =
     (if path = [] then ''.''
      else let p = rev (dropWhile (\<lambda>c. c = CHR ''/'') (rev path))
           in if p = [] then ''/'' else rev (takeWhile (\<lambda>c. c \<noteq> CHR ''/'') (rev p)))"

definition runs_connectivity_check :: "string \<Rightarrow> bool" where
  "runs_connectivity_check arg0 \<longleftrightarrow> base_name arg0 \<in> {''connectivity-check'', ''ipsec-vxlan-connectivity-check''}"

section \<open>The start of the daemon\<close>

record app_flags =
  fl_test_charon :: bool
  fl_log :: string
  fl_pid_file :: string
  fl_file :: string
  fl_ipsec_config :: string
  fl_gcm :: bool
  fl_charon_log :: string
  fl_charon_launch :: bool
  fl_debug :: bool
  fl_listen :: string
  fl_local_ip :: string
  fl_metadata_url :: string
  fl_metadata_client_ip :: string
  fl_arp_interface :: string
  fl_xfrm_tunnel_source :: string
  fl_xfrm_netns_path :: string
  fl_sync_host_routes :: bool
  fl_firewall_backend :: string
  fl_backend :: string
  fl_use_metadata :: bool

text \<open>The values that the flags have when neither an argument nor a variable sets them.\<close>

definition default_flags :: app_flags where
  "default_flags = \<lparr>fl_test_charon = False, fl_log = [], fl_pid_file = [], fl_file = ''config.json'', fl_ipsec_config = ''.'',
     fl_gcm = True, fl_charon_log = [], fl_charon_launch = False, fl_debug = False, fl_listen = '':8111'', fl_local_ip = [],
     fl_metadata_url = [], fl_metadata_client_ip = [], fl_arp_interface = ''eth0'', fl_xfrm_tunnel_source = ''local'',
     fl_xfrm_netns_path = [], fl_sync_host_routes = False, fl_firewall_backend = [], fl_backend = ''ipsec'', fl_use_metadata = False\<rparr>"

text \<open>
  The flags of a start without arguments: each is taken from the first of its variables that is set.
  An empty variable sets a Boolean flag to false; one that is no Boolean is an error.
\<close>

definition env_first :: "(string \<Rightarrow> string option) \<Rightarrow> string list \<Rightarrow> string option" where
  "env_first lookup ks = Option.bind (find (\<lambda>k. lookup k \<noteq> None) ks) lookup"

definition env_flag :: "(string \<Rightarrow> string option) \<Rightarrow> string list \<Rightarrow> string \<Rightarrow> string" where
  "env_flag lookup ks d = (case env_first lookup ks of None \<Rightarrow> d | Some v \<Rightarrow> v)"

definition env_switch :: "(string \<Rightarrow> string option) \<Rightarrow> string list \<Rightarrow> bool option" where
  "env_switch lookup ks = (case env_first lookup ks of None \<Rightarrow> Some False | Some v \<Rightarrow> if v = [] then Some False else parseBool v)"

definition flags_from_env :: "(string \<Rightarrow> string option) \<Rightarrow> app_flags option" where
  "flags_from_env lookup =
     (case (env_switch lookup [''PASTURESTACK_NETWORK_SYNC_HOST_ROUTES'', ''RANCHER_NET_SYNC_HOST_ROUTES''],
            env_switch lookup [''PASTURESTACK_NETWORK_USE_METADATA'', ''RANCHER_NET_USE_METADATA'']) of
        (Some sync, Some useMetadata) \<Rightarrow> Some (default_flags\<lparr>
          fl_metadata_url := env_flag lookup [''PASTURESTACK_METADATA_URL'', ''RANCHER_METADATA_URL''] [],
          fl_metadata_client_ip := env_flag lookup [''PASTURESTACK_METADATA_CLIENT_IP'', ''RANCHER_METADATA_CLIENT_IP''] [],
          fl_arp_interface := env_flag lookup [''PASTURESTACK_NETWORK_ARP_INTERFACE'', ''RANCHER_NET_ARP_INTERFACE''] ''eth0'',
          fl_xfrm_tunnel_source := env_flag lookup [''PASTURESTACK_NETWORK_XFRM_TUNNEL_SOURCE'', ''RANCHER_NET_XFRM_TUNNEL_SOURCE''] ''local'',
          fl_xfrm_netns_path := env_flag lookup [''PASTURESTACK_NETWORK_XFRM_NETNS_PATH'', ''RANCHER_NET_XFRM_NETNS_PATH''] [],
          fl_sync_host_routes := sync,
          fl_firewall_backend := env_flag lookup [''PASTURESTACK_FIREWALL_BACKEND''] [],
          fl_backend := env_flag lookup [''PASTURESTACK_NETWORK_BACKEND'', ''RANCHER_NET_BACKEND''] ''ipsec'',
          fl_use_metadata := useMetadata\<rparr>)
      | _ \<Rightarrow> None)"

definition validateFirewallBackend :: "bool \<Rightarrow> string \<Rightarrow> go_error option" where
  "validateFirewallBackend sync mode =
     (if \<not> sync then None
      else if mode \<in> {''nftables'', ''iptables-nft'', ''iptables-legacy''} then None
      else Some (Errorf ''host route synchronization requires a resolved firewall backend, got %q'' [mode]))"

text \<open>Sixty looks at the file, a second apart; \<open>there\<close> says which of them finds it.\<close>

fun wait_loop :: "(nat \<Rightarrow> bool) \<Rightarrow> nat \<Rightarrow> nat \<Rightarrow> bool" where
  "wait_loop there i 0 = False"
| "wait_loop there i (Suc n) = (there i \<or> wait_loop there (Suc i) n)"

definition waitForFile :: "(nat \<Rightarrow> bool) \<Rightarrow> string \<Rightarrow> string result" where
  "waitForFile there file = (if wait_loop there 0 60 then Inr file else Inl (Errorf ''Failed to find %s'' [file]))"

datatype app_action =
    TestCharon
  | OpenLog string
  | WritePid string
  | NewMetadata string
  | NewMetadataWithClientIP string string
  | NewSimple string string
  | ReloadStore
  | NewVxlan
  | StartVxlan
  | StartIpsec Overlay bool string
  | ServeArp string
  | ServeHttp string
  | ReloadOverlay
  | NewHandler string
  | WatchMetadata

datatype app_end =
    Fatal go_error
  | Exited
  | Returned go_error
  | Waiting

text \<open>An action and what follows if it succeeds; otherwise how the program ends.\<close>

type_synonym app = "app_action list \<times> app_end"

definition attempt :: "(app_action \<Rightarrow> go_error option) \<Rightarrow> app_action \<Rightarrow> (go_error \<Rightarrow> app_end) \<Rightarrow> app \<Rightarrow> app" where
  "attempt ans a onErr next =
     (case ans a of Some e \<Rightarrow> ([a], onErr e) | None \<Rightarrow> (a # fst next, snd next))"

text \<open>An action that cannot fail, or whose failure does not matter.\<close>

definition perform :: "app_action \<Rightarrow> app \<Rightarrow> app" where
  "perform a next = (a # fst next, snd next)"

definition configured_overlay :: "app_flags \<Rightarrow> Overlay result" where
  "configured_overlay fl =
     (let ov = (NewOverlay (fl_ipsec_config fl))\<lparr>o_NetnsPath := fl_xfrm_netns_path fl, o_SyncHostRoutes := fl_sync_host_routes fl\<rparr>;
          blacklist = (if fl_gcm fl then [] else [''aes128gcm16''])
      in if fl_xfrm_tunnel_source fl = ''local'' then Inr (ov\<lparr>o_UseHostTunnelSource := False, o_Blacklist := blacklist\<rparr>)
         else if fl_xfrm_tunnel_source fl = ''host'' then Inr (ov\<lparr>o_UseHostTunnelSource := True, o_Blacklist := blacklist\<rparr>)
         else Inl (Errorf ''Invalid %s value %q'' [''xfrm-tunnel-source'', fl_xfrm_tunnel_source fl]))"

definition serve :: "(app_action \<Rightarrow> go_error option) \<Rightarrow> app_flags \<Rightarrow> app" where
  "serve ans fl =
     perform (ServeArp (fl_arp_interface fl)) (perform (ServeHttp (fl_listen fl))
       (attempt ans ReloadOverlay Returned
          (if fl_use_metadata fl
           then attempt ans (NewHandler (if fl_metadata_url fl = [] then DefaultMetadataURL else fl_metadata_url fl)) Returned
                  (perform WatchMetadata ([], Waiting))
           else ([], Waiting))))"

definition start_backend :: "(app_action \<Rightarrow> go_error option) \<Rightarrow> app_flags \<Rightarrow> app" where
  "start_backend ans fl =
     (if fl_backend fl = ''vxlan'' then attempt ans NewVxlan Returned (perform StartVxlan (serve ans fl))
      else case configured_overlay fl of
        Inl e \<Rightarrow> ([], Fatal e)
      | Inr ov \<Rightarrow>
          attempt ans (StartIpsec ov (fl_charon_launch fl) (fl_charon_log fl)) Fatal (serve ans fl))"

definition open_store :: "(app_action \<Rightarrow> go_error option) \<Rightarrow> (nat \<Rightarrow> bool) \<Rightarrow> app_flags \<Rightarrow> app \<Rightarrow> app" where
  "open_store ans there fl next =
     (if fl_use_metadata fl
      then attempt ans (if fl_metadata_client_ip fl \<noteq> []
             then NewMetadataWithClientIP (fl_metadata_url fl) (fl_metadata_client_ip fl)
             else NewMetadata (fl_metadata_url fl)) Returned next
      else case waitForFile there (fl_file fl) of
        Inl e \<Rightarrow> ([], Fatal e)
      | Inr f \<Rightarrow> perform (NewSimple f (fl_local_ip fl)) next)"

definition appMain :: "(app_action \<Rightarrow> go_error option) \<Rightarrow> (nat \<Rightarrow> bool) \<Rightarrow> app_flags \<Rightarrow> app" where
  "appMain ans there fl =
     (if fl_test_charon fl
      then attempt ans TestCharon (\<lambda>e. Fatal (Wrapf ''Failed to talk to charon: %v'' [] e)) ([], Exited)
      else (if fl_log fl = [] then id else attempt ans (OpenLog (fl_log fl)) (\<lambda>e. Fatal (Wrapf ''Failed to log to file %s: %v'' [fl_log fl] e)))
        ((if fl_pid_file fl = [] then id else attempt ans (WritePid (fl_pid_file fl)) (\<lambda>e. Fatal (Wrapf ''Failed to write pid file %s: %v'' [fl_pid_file fl] e)))
          (if fl_backend fl \<noteq> ''ipsec'' \<and> fl_backend fl \<noteq> ''vxlan'' then ([], Fatal (Errorf ''Invalid backend specified'' []))
           else case (if fl_backend fl = ''ipsec'' then validateFirewallBackend (fl_sync_host_routes fl) (fl_firewall_backend fl) else None) of
             Some e \<Rightarrow> ([], Returned e)
           | None \<Rightarrow> open_store ans there fl (attempt ans ReloadStore Returned (start_backend ans fl)))))"

section \<open>The program\<close>

text \<open>
  What the command-line library makes of the arguments: an error, a text that it has printed itself,
  one of the two hidden commands, or the start with the values of the flags. It is an argument of the
  model.
\<close>

datatype cli_result = CliFailed go_error | CliDone | DockerFirewallDriver | LegacyLoadedTables | StartDaemon app_flags

datatype main_result = MainFatal go_error | MainExit | MainPrinted string | MainChecker checker | MainDaemon app

definition main_program ::
  "'w port_env \<Rightarrow> (string \<Rightarrow> string) \<Rightarrow> (string \<Rightarrow> go_error option) \<Rightarrow> 'w \<Rightarrow> (string list \<Rightarrow> cli_result) \<Rightarrow>
   (int \<times> string result) result \<Rightarrow> file_read \<Rightarrow> (app_action \<Rightarrow> go_error option) \<Rightarrow> (nat \<Rightarrow> bool) \<Rightarrow> string \<Rightarrow> string list \<Rightarrow>
   main_result option" where
  "main_program penv getenv newClient w cli response tables ans there arg0 args =
     (if runs_connectivity_check arg0
      then (case Run penv getenv newClient args w of
              None \<Rightarrow> None
            | Some (RunFailed e) \<Rightarrow> Some (MainFatal e)
            | Some VersionPrinted \<Rightarrow> Some MainExit
            | Some (Serving ck) \<Rightarrow> Some (MainChecker ck))
      else Some (case cli (arg0 # args) of
              CliFailed e \<Rightarrow> MainFatal e
            | CliDone \<Rightarrow> MainExit
            | DockerFirewallDriver \<Rightarrow>
                (case docker_firewall_driver_command response of Inl e \<Rightarrow> MainFatal e | Inr out \<Rightarrow> MainPrinted out)
            | LegacyLoadedTables \<Rightarrow>
                (case legacy_loaded_tables_command tables of Inl e \<Rightarrow> MainFatal e | Inr out \<Rightarrow> MainPrinted out)
            | StartDaemon fl \<Rightarrow>
                (case snd (appMain ans there fl) of
                   Returned e \<Rightarrow> MainFatal e
                 | Fatal e \<Rightarrow> MainFatal e
                 | Exited \<Rightarrow> MainExit
                 | Waiting \<Rightarrow> MainDaemon (appMain ans there fl))))"

section \<open>What is started, and after what\<close>

lemma attempt_None [simp]: "ans a = None \<Longrightarrow> attempt ans a f n = (a # fst n, snd n)"
  and attempt_Some [simp]: "ans a = Some e \<Longrightarrow> attempt ans a f n = ([a], f e)"
  by (simp_all add: attempt_def)

lemma set_attempt: "x \<in> set (fst (attempt ans a f n)) \<longleftrightarrow> x = a \<or> ans a = None \<and> x \<in> set (fst n)"
  by (cases "ans a") auto

lemma set_perform: "x \<in> set (fst (perform a n)) \<longleftrightarrow> x = a \<or> x \<in> set (fst n)"
  by (simp add: perform_def)

text \<open>Everything that a start can do, in order, if nothing fails.\<close>

definition serve_actions :: "app_flags \<Rightarrow> app_action list" where
  "serve_actions fl = [ServeArp (fl_arp_interface fl), ServeHttp (fl_listen fl), ReloadOverlay] @
     (if fl_use_metadata fl
      then [NewHandler (if fl_metadata_url fl = [] then DefaultMetadataURL else fl_metadata_url fl), WatchMetadata] else [])"

definition backend_actions :: "app_flags \<Rightarrow> app_action list" where
  "backend_actions fl = (if fl_backend fl = ''vxlan'' then [NewVxlan, StartVxlan]
      else [StartIpsec (projr (configured_overlay fl)) (fl_charon_launch fl) (fl_charon_log fl)])"

definition store_action :: "app_flags \<Rightarrow> app_action" where
  "store_action fl = (if fl_use_metadata fl
      then (if fl_metadata_client_ip fl = [] then NewMetadata (fl_metadata_url fl)
            else NewMetadataWithClientIP (fl_metadata_url fl) (fl_metadata_client_ip fl))
      else NewSimple (fl_file fl) (fl_local_ip fl))"

definition expected_actions :: "app_flags \<Rightarrow> app_action list" where
  "expected_actions fl =
     (if fl_log fl = [] then [] else [OpenLog (fl_log fl)]) @
     ((if fl_pid_file fl = [] then [] else [WritePid (fl_pid_file fl)]) @
      (store_action fl # ReloadStore # backend_actions fl @ serve_actions fl))"

text \<open>The actions whose failure a start does not see: they cannot fail, only log it, or fail later in a goroutine.\<close>

fun sure_action :: "app_action \<Rightarrow> bool" where
  "sure_action (NewSimple f i) = True"
| "sure_action StartVxlan = True"
| "sure_action (ServeArp i) = True"
| "sure_action (ServeHttp l) = True"
| "sure_action WatchMetadata = True"
| "sure_action _ = False"

definition goes :: "(app_action \<Rightarrow> go_error option) \<Rightarrow> app_action \<Rightarrow> bool" where
  "goes ans a \<longleftrightarrow> sure_action a \<or> ans a = None"

text \<open>
  A program that follows a list of actions: it does an initial part of it, and waits in the end
  exactly if the condition holds and every action goes well.
\<close>

definition follows :: "(app_action \<Rightarrow> go_error option) \<Rightarrow> bool \<Rightarrow> app_action list \<Rightarrow> app \<Rightarrow> bool" where
  "follows ans c xs p \<longleftrightarrow> prefix (fst p) xs \<and> (snd p = Waiting \<longleftrightarrow> c \<and> list_all (goes ans) xs) \<and> (snd p = Waiting \<longrightarrow> fst p = xs)"

lemma follows_Nil: "follows ans True [] ([], Waiting)"
  by (simp add: follows_def)

lemma follows_stop: "\<not> c \<Longrightarrow> e \<noteq> Waiting \<Longrightarrow> follows ans c xs ([], e)"
  by (simp add: follows_def)

lemma follows_perform: "sure_action a \<Longrightarrow> follows ans c xs n \<Longrightarrow> follows ans c (a # xs) (perform a n)"
  by (auto simp: follows_def perform_def goes_def)

lemma follows_attempt:
  "\<not> sure_action a \<Longrightarrow> (\<And>e. onErr e \<noteq> Waiting) \<Longrightarrow> follows ans c xs n \<Longrightarrow> follows ans c (a # xs) (attempt ans a onErr n)"
  by (cases "ans a") (auto simp: follows_def goes_def)

lemma follows_optional:
  "\<not> sure_action a \<Longrightarrow> (\<And>e. onErr e \<noteq> Waiting) \<Longrightarrow> follows ans c xs n \<Longrightarrow>
   follows ans c ((if b then [] else [a]) @ xs) ((if b then id else attempt ans a onErr) n)"
  by (simp add: follows_attempt)

lemmas follow_rules = follows_Nil follows_perform follows_attempt

lemma serve_follows: "follows ans True (serve_actions fl) (serve ans fl)"
  by (cases "fl_use_metadata fl") (auto simp: serve_def serve_actions_def intro!: follow_rules)

lemma configured_overlay_ok:
  "fl_xfrm_tunnel_source fl \<in> {''local'', ''host''} \<longleftrightarrow> (\<exists>ov. configured_overlay fl = Inr ov)"
  by (auto simp: configured_overlay_def Let_def)

definition source_ok :: "app_flags \<Rightarrow> bool" where
  "source_ok fl \<longleftrightarrow> fl_backend fl = ''vxlan'' \<or> fl_xfrm_tunnel_source fl \<in> {''local'', ''host''}"

lemma start_backend_follows:
  "follows ans (source_ok fl) (backend_actions fl @ serve_actions fl) (start_backend ans fl)"
proof (cases "fl_backend fl = ''vxlan''")
  case True
  then show ?thesis
    using follows_attempt[OF _ _ follows_perform[OF _ serve_follows[of ans fl]], of NewVxlan Returned StartVxlan]
    by (simp add: start_backend_def source_ok_def backend_actions_def)
next
  case False
  show ?thesis
  proof (cases "configured_overlay fl")
    case (Inl e)
    then have "\<not> source_ok fl" using configured_overlay_ok[of fl] False by (simp add: source_ok_def)
    then show ?thesis using Inl False by (simp add: start_backend_def follows_stop)
  next
    case (Inr ov)
    then have "source_ok fl" using configured_overlay_ok[of fl] by (auto simp: source_ok_def)
    then show ?thesis using Inr False follows_attempt[OF _ _ serve_follows[of ans fl], of "StartIpsec ov (fl_charon_launch fl) (fl_charon_log fl)" Fatal]
      by (simp add: start_backend_def backend_actions_def)
  qed
qed

definition file_ok :: "(nat \<Rightarrow> bool) \<Rightarrow> app_flags \<Rightarrow> bool" where
  "file_ok there fl \<longleftrightarrow> fl_use_metadata fl \<or> wait_loop there 0 60"

lemma open_store_follows:
  assumes "follows ans c xs n"
  shows "follows ans (file_ok there fl \<and> c) (store_action fl # xs) (open_store ans there fl n)"
proof (cases "fl_use_metadata fl")
  case True
  then show ?thesis using follows_attempt[OF _ _ assms, of _ Returned] by (simp add: open_store_def file_ok_def store_action_def)
next
  case False
  then show ?thesis using follows_perform[OF _ assms, of "NewSimple (fl_file fl) (fl_local_ip fl)"]
    by (cases "wait_loop there 0 60") (simp_all add: open_store_def file_ok_def waitForFile_def follows_stop store_action_def)
qed

definition firewall_ok :: "app_flags \<Rightarrow> bool" where
  "firewall_ok fl \<longleftrightarrow> (fl_backend fl = ''vxlan'' \<or> fl_backend fl = ''ipsec'' \<and>
     (fl_sync_host_routes fl \<longrightarrow> fl_firewall_backend fl \<in> {''nftables'', ''iptables-nft'', ''iptables-legacy''}))"

lemma firewall_ok_iff:
  "firewall_ok fl \<longleftrightarrow> (fl_backend fl = ''ipsec'' \<or> fl_backend fl = ''vxlan'') \<and>
     (if fl_backend fl = ''ipsec'' then validateFirewallBackend (fl_sync_host_routes fl) (fl_firewall_backend fl) else None) = None"
  by (auto simp: firewall_ok_def validateFirewallBackend_def)

lemma follows_guarded:
  assumes "follows ans c xs n"
  shows "follows ans (firewall_ok fl \<and> c) xs
    (if fl_backend fl \<noteq> ''ipsec'' \<and> fl_backend fl \<noteq> ''vxlan'' then ([], Fatal (Errorf ''Invalid backend specified'' []))
     else case (if fl_backend fl = ''ipsec'' then validateFirewallBackend (fl_sync_host_routes fl) (fl_firewall_backend fl) else None) of
       Some e \<Rightarrow> ([], Returned e) | None \<Rightarrow> n)"
  using assms by (auto simp: firewall_ok_iff intro!: follows_stop split: option.split)

lemma appMain_follows:
  assumes "\<not> fl_test_charon fl"
  shows "follows ans (firewall_ok fl \<and> file_ok there fl \<and> source_ok fl) (expected_actions fl) (appMain ans there fl)"
proof -
  note b = follows_attempt[OF _ _ start_backend_follows[of ans fl], of ReloadStore Returned]
  note g = follows_guarded[OF open_store_follows[OF b, of there fl], of fl]
  note l = follows_optional[OF _ _ follows_optional[OF _ _ g]]
  show ?thesis unfolding appMain_def expected_actions_def using assms by (simp only: if_False) (rule l; simp)
qed

text \<open>Under which arguments and circumstances the program becomes the running daemon.\<close>

lemma daemon_runs_iff:
  "main_program penv getenv newClient w cli response tables ans there arg0 args = Some (MainDaemon p) \<longleftrightarrow>
     \<not> runs_connectivity_check arg0 \<and>
     (\<exists>fl. cli (arg0 # args) = StartDaemon fl \<and> p = appMain ans there fl \<and> \<not> fl_test_charon fl \<and>
        firewall_ok fl \<and> file_ok there fl \<and> source_ok fl \<and> list_all (goes ans) (expected_actions fl))"
proof -
  have t: "snd (appMain ans there fl) \<noteq> Waiting" if "fl_test_charon fl" for fl
    using that by (cases "ans TestCharon") (simp_all add: appMain_def)
  have w: "snd (appMain ans there fl) = Waiting \<longleftrightarrow> \<not> fl_test_charon fl \<and>
      firewall_ok fl \<and> file_ok there fl \<and> source_ok fl \<and> list_all (goes ans) (expected_actions fl)" for fl
    using appMain_follows[of fl ans there] t[of fl] by (auto simp: follows_def)
  show ?thesis
    by (cases "runs_connectivity_check arg0"; cases "cli (arg0 # args)")
      (auto simp: main_program_def w[symmetric] split: option.splits ck_run.splits sum.splits app_end.splits)
qed

lemma started_ipsec:
  assumes "StartIpsec ov launch log \<in> set (fst (appMain ans there fl))"
  shows "firewall_ok fl \<and> configured_overlay fl = Inr ov \<and> fl_backend fl \<noteq> ''vxlan''"
proof -
  have serve: "StartIpsec ov launch log \<notin> set (fst (serve ans fl))"
    by (auto simp: serve_def set_attempt set_perform)
  have b: "StartIpsec ov launch log \<in> set (fst (start_backend ans fl)) \<Longrightarrow> configured_overlay fl = Inr ov \<and> fl_backend fl \<noteq> ''vxlan''"
    using serve by (auto simp: start_backend_def set_attempt set_perform split: if_splits sum.splits)
  have o: "StartIpsec ov launch log \<in> set (fst (open_store ans there fl n)) \<Longrightarrow> StartIpsec ov launch log \<in> set (fst n)" for n
    by (auto simp: open_store_def set_attempt set_perform split: if_splits sum.splits)
  have "firewall_ok fl \<and> StartIpsec ov launch log \<in> set (fst (open_store ans there fl (attempt ans ReloadStore Returned (start_backend ans fl))))"
    using assms by (auto simp: appMain_def firewall_ok_iff set_attempt split: if_splits option.splits)
  then show ?thesis using o[of "attempt ans ReloadStore Returned (start_backend ans fl)"] b by (simp add: set_attempt)
qed

text \<open>
  C27. The start of the daemon, for all flags and whatever fails: it does an initial part of one fixed
  sequence of actions, in which the store is loaded before a backend is started, a backend is
  started before anything is served, and only then the overlay is configured; and it keeps running
  exactly if the flags are usable, the configuration file appears in time, and every action goes
  well. In particular no backend is started that would synchronise host routes without a resolved
  firewall backend.
\<close>

theorem app_start:
  assumes "\<not> fl_test_charon fl"
  shows "prefix (fst (appMain ans there fl)) (expected_actions fl) \<and>
    (snd (appMain ans there fl) = Waiting \<longleftrightarrow>
       firewall_ok fl \<and> file_ok there fl \<and> source_ok fl \<and> list_all (goes ans) (expected_actions fl)) \<and>
    (StartIpsec ov launch log \<in> set (fst (appMain ans there fl)) \<and> o_SyncHostRoutes ov \<longrightarrow>
       fl_firewall_backend fl \<in> {''nftables'', ''iptables-nft'', ''iptables-legacy''})"
proof (intro conjI impI)
  note f = appMain_follows[OF assms, of ans there]
  show "prefix (fst (appMain ans there fl)) (expected_actions fl)"
    "snd (appMain ans there fl) = Waiting \<longleftrightarrow>
       firewall_ok fl \<and> file_ok there fl \<and> source_ok fl \<and> list_all (goes ans) (expected_actions fl)"
    using f by (auto simp: follows_def)
  show "fl_firewall_backend fl \<in> {''nftables'', ''iptables-nft'', ''iptables-legacy''}"
    if "StartIpsec ov launch log \<in> set (fst (appMain ans there fl)) \<and> o_SyncHostRoutes ov"
    using that started_ipsec[of ov launch log ans there fl] by (auto simp: firewall_ok_def configured_overlay_def Let_def split: if_splits)
qed

definition demo_flags :: app_flags where
  "demo_flags = default_flags\<lparr>fl_pid_file := ''/var/run/overlay.pid'', fl_xfrm_tunnel_source := ''host'',
     fl_sync_host_routes := True, fl_firewall_backend := ''nftables'', fl_use_metadata := True\<rparr>"

theorem app_start_witness:
  "snd (appMain (\<lambda>_. None) (\<lambda>_. False) demo_flags) = Waiting \<and>
   snd (appMain (\<lambda>_. None) (\<lambda>_. False) (demo_flags\<lparr>fl_firewall_backend := []\<rparr>)) \<noteq> Waiting"
proof -
  have "list_all (goes (\<lambda>_. None)) xs" for xs by (simp add: goes_def list_all_iff)
  then show ?thesis
    using app_start[of demo_flags "\<lambda>_. None" "\<lambda>_. False" "NewOverlay []" True "[]"]
      app_start[of "demo_flags\<lparr>fl_firewall_backend := []\<rparr>" "\<lambda>_. None" "\<lambda>_. False" "NewOverlay []" True "[]"]
    by (simp add: demo_flags_def default_flags_def firewall_ok_def file_ok_def source_ok_def)
qed

text \<open>
  Docker's firewall driver is taken to be \<^verbatim>\<open>nftables\<close> exactly if Docker answers and names it, and
  \<^verbatim>\<open>iptables\<close> exactly if Docker answers and either names it or names none and is of a major version
  from 1 to 28. There is no other result.
\<close>

theorem docker_driver:
  "dockerFirewallDriver r = Inr d \<longleftrightarrow>
     (\<exists>text info. r = Inr (200, Inr text) \<and>
        decode_first (dec_struct False docker_info_fields) \<lparr>di_ServerVersion = [], di_FirewallBackend = None\<rparr> text = Inr info \<and>
        (d \<in> {''iptables'', ''nftables''} \<and> map_option fb_Driver (di_FirewallBackend info) = Some d \<or>
         d = ''iptables'' \<and> di_FirewallBackend info = None \<and>
           (\<exists>major rest n. cut CHR ''.'' (di_ServerVersion info) = (major, rest, True) \<and> atoi major = Some n \<and> n \<in> {1..28})))"
proof -
  have i: "driver_of_info info = Inr d \<longleftrightarrow>
      d \<in> {''iptables'', ''nftables''} \<and> map_option fb_Driver (di_FirewallBackend info) = Some d \<or>
      d = ''iptables'' \<and> di_FirewallBackend info = None \<and>
        (\<exists>major rest n. cut CHR ''.'' (di_ServerVersion info) = (major, rest, True) \<and> atoi major = Some n \<and> n \<in> {1..28})" for info
  proof (cases "di_FirewallBackend info")
    case None
    obtain major rest found where c: "cut CHR ''.'' (di_ServerVersion info) = (major, rest, found)" by (metis prod_cases3)
    show ?thesis by (cases "atoi major"; cases found) (auto simp: driver_of_info_def None c)
  next
    case (Some fb)
    then show ?thesis by (auto simp: driver_of_info_def)
  qed
  show ?thesis unfolding i[symmetric]
    by (auto simp: dockerFirewallDriver_def split: sum.splits prod.splits if_splits)
qed

end
