(* ===== verification/Topology.thy ===== *)
theory Topology
  imports Go_Json Go_Crypto Go_Flags
begin

text \<open>
  The offline topology planner (\<^verbatim>\<open>internal/topology\<close> and
  \<^verbatim>\<open>cmd/ipsec-vxlan-overlay-network\<close>): decoding of a topology document, its validation and
  normalization, and the plan with its digest. An IPv4 \<^verbatim>\<open>netip.Addr\<close> is the 32-bit word that
  the library keeps it as.
\<close>

section \<open>Data\<close>

definition InputSchema :: string where "InputSchema = ''pasturestack.overlay-topology/v1''"
definition PlanSchema :: string where "PlanSchema = ''pasturestack.overlay-topology-plan/v1''"
definition MaxInputBytes :: nat where "MaxInputBytes = 2097152"

record Node =
  n_ID :: string
  n_UnderlayAddress :: string
  n_OverlayAddress :: string

record VXLANConfig =
  vx_VNI :: int
  vx_UDPPort :: int
  vx_MTU :: int
  vx_InterfaceName :: string

record topology_Config =
  c_Schema :: string
  c_Backend :: string
  c_LocalNodeID :: string
  c_OverlayCIDR :: string
  c_Nodes :: "Node list"
  c_VXLAN :: "VXLANConfig option"

text \<open>A normalized configuration is one of the same shape, with the length of the prefix.\<close>

record normalizedConfig = topology_Config +
  nc_prefixBits :: nat

record Estimates =
  PeerRelationships :: int
  RouteEntries :: int
  NeighborEntries :: int
  ForwardingEntries :: int

record Safeguards =
  sg_Mode :: string
  sg_AppliesHostChanges :: bool
  sg_ReadsMetadata :: bool
  sg_AcceptsSecretMaterial :: bool
  sg_ProductionReady :: bool

record Plan =
  pl_Schema :: string
  pl_Backend :: string
  pl_NormalizedSHA256 :: string
  pl_AddressFamily :: string
  pl_OverlayPrefixBits :: int
  pl_NodeCount :: int
  pl_RemoteNodeCount :: int
  pl_EstimatedObjects :: Estimates
  pl_Safeguards :: Safeguards

section \<open>Addresses\<close>

text \<open>The big-endian word of four bytes, and its bytes (\<open>bytes_of\<close>).\<close>

definition be32 :: "byte list \<Rightarrow> 32 word" where
  "be32 b = word_of_nat (foldl (\<lambda>n x. 256 * n + unat x) 0 b)"

definition addr4_string :: "32 word \<Rightarrow> string" where "addr4_string w = show_ipv4 (bytes_of w)"

text \<open>\<^verbatim>\<open>netip.ParsePrefix\<close>; the length has no sign and no leading zero.\<close>

definition parsePrefix :: "string \<Rightarrow> (netip_addr \<times> nat) option" where
  "parsePrefix s =
     (case split_last CHR ''/'' s of
        None \<Rightarrow> None
      | Some (a, bitsStr) \<Rightarrow>
          (case parseAddr a of
             None \<Rightarrow> None
           | Some ip \<Rightarrow>
               if addr_zone ip \<noteq> [] \<or> (1 < length bitsStr \<and> \<not> (isDigit (hd bitsStr) \<and> hd bitsStr \<noteq> CHR ''0'')) then None
               else case atoi bitsStr of
                 None \<Rightarrow> None
               | Some bits \<Rightarrow> if bits < 0 \<or> int (addr_bits ip) < bits then None else Some (ip, nat bits)))"

definition masked :: "32 word \<Rightarrow> nat \<Rightarrow> 32 word" where
  "masked w bits = w AND NOT (mask (32 - bits))"

definition prefix_Contains :: "32 word \<Rightarrow> nat \<Rightarrow> 32 word \<Rightarrow> bool" where
  "prefix_Contains p bits w \<longleftrightarrow> drop_bit (32 - bits) (w XOR p) = 0"

definition prefix4_string :: "32 word \<Rightarrow> nat \<Rightarrow> string" where
  "prefix4_string p bits = addr4_string p @ ''/'' @ itoa bits"

definition isLoopback4 :: "32 word \<Rightarrow> bool" where "isLoopback4 w \<longleftrightarrow> drop_bit 24 w = 127"
definition isMulticast4 :: "32 word \<Rightarrow> bool" where "isMulticast4 w \<longleftrightarrow> drop_bit 28 w = 14"
definition isLinkLocal4 :: "32 word \<Rightarrow> bool" where "isLinkLocal4 w \<longleftrightarrow> drop_bit 16 w = 43518"

definition isGlobalUnicast4 :: "32 word \<Rightarrow> bool" where
  "isGlobalUnicast4 w \<longleftrightarrow> w \<noteq> 0 \<and> w \<noteq> 0xFFFFFFFF \<and> \<not> isLoopback4 w \<and> \<not> isMulticast4 w \<and> \<not> isLinkLocal4 w"

definition parseUsableIPv4 :: "string \<Rightarrow> 32 word option" where
  "parseUsableIPv4 value =
     (case parseAddr value of
        Some (Addr4 b) \<Rightarrow>
          let w = be32 b in if \<not> isGlobalUnicast4 w \<or> isLoopback4 w \<or> isLinkLocal4 w then None else Some w
      | _ \<Rightarrow> None)"

definition isNetworkOrBroadcast :: "32 word \<Rightarrow> nat \<Rightarrow> 32 word \<Rightarrow> bool" where
  "isNetworkOrBroadcast p bits w \<longleftrightarrow>
     (let first = masked p bits;
          last = first OR ucast (push_bit (32 - bits) (1 :: 64 word) - 1)
      in w = first \<or> w = last)"

section \<open>Normalization\<close>

definition lower_alpha :: "char \<Rightarrow> bool" where "lower_alpha c \<longleftrightarrow> 97 \<le> code c \<and> code c \<le> 122"

text \<open>The pattern \<^verbatim>\<open>^[a-z][a-z0-9-]{0,n}$\<close>.\<close>

definition name_pattern :: "nat \<Rightarrow> string \<Rightarrow> bool" where
  "name_pattern n s \<longleftrightarrow>
     (case s of
        [] \<Rightarrow> False
      | c # cs \<Rightarrow> lower_alpha c \<and> length cs \<le> n \<and> list_all (\<lambda>x. lower_alpha x \<or> isDigit x \<or> x = CHR ''-'') cs)"

definition validateVXLAN :: "VXLANConfig \<Rightarrow> go_error option" where
  "validateVXLAN c =
     (if vx_VNI c < 1 \<or> 16777215 < vx_VNI c then Some (Errorf ''vxlan.vni must be between 1 and 16777215'' [])
      else if vx_UDPPort c < 1024 \<or> 65535 < vx_UDPPort c
      then Some (Errorf ''vxlan.udp_port must be between 1024 and 65535'' [])
      else if vx_MTU c < 1280 \<or> 9000 < vx_MTU c then Some (Errorf ''vxlan.mtu must be between 1280 and 9000'' [])
      else if \<not> name_pattern 14 (vx_InterfaceName c) \<or> \<not> hasPrefix (vx_InterfaceName c) ''pasture-''
      then Some (Errorf ''vxlan.interface_name must be a lowercase pasture- name of at most 15 characters'' [])
      else None)"

record node_state =
  ns_index :: nat
  ns_ids :: "string list"
  ns_underlays :: "32 word list"
  ns_overlays :: "32 word list"
  ns_nodes :: "Node list"
  ns_localFound :: bool

definition node_error :: "string \<Rightarrow> node_state \<Rightarrow> go_error" where
  "node_error msg s = Errorf (''nodes[%d].'' @ msg) [itoa (ns_index s)]"

definition normalize_node ::
  "string \<Rightarrow> 32 word \<Rightarrow> nat \<Rightarrow> node_state \<Rightarrow> Node \<Rightarrow> node_state result" where
  "normalize_node localID p bits s node =
     (if \<not> name_pattern 62 (n_ID node) then Inl (node_error ''id is invalid'' s)
      else if n_ID node \<in> set (ns_ids s) then Inl (node_error ''id is duplicated'' s)
      else case parseUsableIPv4 (n_UnderlayAddress node) of
        None \<Rightarrow> Inl (node_error ''underlay_address is invalid'' s)
      | Some u \<Rightarrow>
          if prefix_Contains p bits u then Inl (node_error ''underlay_address overlaps overlay_cidr'' s)
          else if u \<in> set (ns_underlays s) then Inl (node_error ''underlay_address is duplicated'' s)
          else case parseUsableIPv4 (n_OverlayAddress node) of
            None \<Rightarrow> Inl (node_error ''overlay_address is not a usable address in overlay_cidr'' s)
          | Some v \<Rightarrow>
              if \<not> prefix_Contains p bits v \<or> isNetworkOrBroadcast p bits v
              then Inl (node_error ''overlay_address is not a usable address in overlay_cidr'' s)
              else if v \<in> set (ns_overlays s) then Inl (node_error ''overlay_address is duplicated'' s)
              else Inr \<lparr>ns_index = Suc (ns_index s), ns_ids = n_ID node # ns_ids s, ns_underlays = u # ns_underlays s,
                        ns_overlays = v # ns_overlays s,
                        ns_nodes = ns_nodes s @ [\<lparr>n_ID = n_ID node, n_UnderlayAddress = addr4_string u,
                                                  n_OverlayAddress = addr4_string v\<rparr>],
                        ns_localFound = (ns_localFound s \<or> n_ID node = localID)\<rparr>)"

fun normalize_nodes :: "string \<Rightarrow> 32 word \<Rightarrow> nat \<Rightarrow> node_state \<Rightarrow> Node list \<Rightarrow> node_state result" where
  "normalize_nodes localID p bits s [] = Inr s"
| "normalize_nodes localID p bits s (n # ns) =
     (case normalize_node localID p bits s n of
        Inl e \<Rightarrow> Inl e | Inr s' \<Rightarrow> normalize_nodes localID p bits s' ns)"

definition node_start :: node_state where
  "node_start = \<lparr>ns_index = 0, ns_ids = [], ns_underlays = [], ns_overlays = [], ns_nodes = [], ns_localFound = False\<rparr>"

definition backend_options :: "topology_Config \<Rightarrow> VXLANConfig option result" where
  "backend_options c =
     (if c_Backend c = ''ipsec'' then
        (case c_VXLAN c of
           Some _ \<Rightarrow> Inl (Errorf ''vxlan must be omitted for the ipsec backend'' [])
         | None \<Rightarrow> Inr None)
      else case c_VXLAN c of
        None \<Rightarrow> Inl (Errorf ''vxlan is required for the vxlan backend'' [])
      | Some v \<Rightarrow> (case validateVXLAN v of Some e \<Rightarrow> Inl e | None \<Rightarrow> Inr (Some v)))"

definition overlay_prefix :: "string \<Rightarrow> (32 word \<times> nat) result" where
  "overlay_prefix cidr =
     (case parsePrefix cidr of
        Some (Addr4 b, bits) \<Rightarrow>
          if masked (be32 b) bits \<noteq> be32 b then Inl (Errorf ''overlay_cidr must be a canonical IPv4 prefix'' [])
          else if bits < 8 \<or> 30 < bits then Inl (Errorf ''overlay_cidr prefix length must be between 8 and 30'' [])
          else Inr (be32 b, bits)
      | _ \<Rightarrow> Inl (Errorf ''overlay_cidr must be a canonical IPv4 prefix'' []))"

definition normalize :: "topology_Config \<Rightarrow> normalizedConfig result" where
  "normalize c =
     (if c_Schema c \<noteq> InputSchema then Inl (Errorf ''schema must be %q'' [InputSchema])
      else if c_Backend c \<noteq> ''ipsec'' \<and> c_Backend c \<noteq> ''vxlan'' then Inl (Errorf ''backend must be ipsec or vxlan'' [])
      else if \<not> name_pattern 62 (c_LocalNodeID c) then Inl (Errorf ''local_node_id is invalid'' [])
      else if length (c_Nodes c) < 2 \<or> 4096 < length (c_Nodes c)
      then Inl (Errorf ''nodes must contain between 2 and 4096 entries'' [])
      else case overlay_prefix (c_OverlayCIDR c) of
        Inl e \<Rightarrow> Inl e
      | Inr (p, bits) \<Rightarrow>
          (case normalize_nodes (c_LocalNodeID c) p bits node_start (c_Nodes c) of
             Inl e \<Rightarrow> Inl e
           | Inr s \<Rightarrow>
               if \<not> ns_localFound s then Inl (Errorf ''local_node_id does not match a node'' [])
               else case backend_options c of
                 Inl e \<Rightarrow> Inl e
               | Inr vxlan \<Rightarrow>
                   Inr \<lparr>c_Schema = c_Schema c, c_Backend = c_Backend c, c_LocalNodeID = c_LocalNodeID c,
                        c_OverlayCIDR = prefix4_string p bits, c_Nodes = sort_key n_ID (ns_nodes s),
                        c_VXLAN = vxlan, nc_prefixBits = bits\<rparr>))"

section \<open>The plan\<close>

definition enc_int :: "int \<Rightarrow> json" where "enc_int i = JNum (itoa_int i)"

definition enc_node :: "Node \<Rightarrow> json" where
  "enc_node n = JObj [(''id'', enc_string (n_ID n)), (''underlay_address'', enc_string (n_UnderlayAddress n)),
     (''overlay_address'', enc_string (n_OverlayAddress n))]"

definition enc_vxlan :: "VXLANConfig \<Rightarrow> json" where
  "enc_vxlan v = JObj [(''vni'', enc_int (vx_VNI v)), (''udp_port'', enc_int (vx_UDPPort v)),
     (''mtu'', enc_int (vx_MTU v)), (''interface_name'', enc_string (vx_InterfaceName v))]"

definition enc_config :: "'a topology_Config_scheme \<Rightarrow> json" where
  "enc_config c = JObj ([(''schema'', enc_string (c_Schema c)), (''backend'', enc_string (c_Backend c)),
     (''local_node_id'', enc_string (c_LocalNodeID c)), (''overlay_cidr'', enc_string (c_OverlayCIDR c)),
     (''nodes'', JArr (map enc_node (c_Nodes c)))] @
     (case c_VXLAN c of None \<Rightarrow> [] | Some v \<Rightarrow> [(''vxlan'', enc_vxlan v)]))"

definition zeroEstimates :: Estimates where
  "zeroEstimates = \<lparr>PeerRelationships = 0, RouteEntries = 0, NeighborEntries = 0, ForwardingEntries = 0\<rparr>"

definition BuildPlan :: "topology_Config \<Rightarrow> Plan result" where
  "BuildPlan config =
     (case normalize config of
        Inl e \<Rightarrow> Inl e
      | Inr n \<Rightarrow>
          let remote = int (length (c_Nodes n)) - 1;
              est = zeroEstimates\<lparr>PeerRelationships := remote, RouteEntries := remote\<rparr>
          in Inr \<lparr>pl_Schema = PlanSchema, pl_Backend = c_Backend n,
               pl_NormalizedSHA256 = hexString (sha256 (render (enc_config n))),
               pl_AddressFamily = ''ipv4'', pl_OverlayPrefixBits = int (nc_prefixBits n),
               pl_NodeCount = int (length (c_Nodes n)), pl_RemoteNodeCount = remote,
               pl_EstimatedObjects = (if c_Backend n = ''vxlan''
                  then est\<lparr>NeighborEntries := remote, ForwardingEntries := remote\<rparr> else est),
               pl_Safeguards = \<lparr>sg_Mode = ''audit-only'', sg_AppliesHostChanges = False, sg_ReadsMetadata = False,
                  sg_AcceptsSecretMaterial = False, sg_ProductionReady = False\<rparr>\<rparr>)"

section \<open>Decoding a document\<close>

definition zeroNode :: Node where
  "zeroNode = \<lparr>n_ID = [], n_UnderlayAddress = [], n_OverlayAddress = []\<rparr>"

definition zeroVXLAN :: VXLANConfig where
  "zeroVXLAN = \<lparr>vx_VNI = 0, vx_UDPPort = 0, vx_MTU = 0, vx_InterfaceName = []\<rparr>"

definition zeroTopology :: topology_Config where
  "zeroTopology = \<lparr>c_Schema = [], c_Backend = [], c_LocalNodeID = [], c_OverlayCIDR = [], c_Nodes = [], c_VXLAN = None\<rparr>"

definition node_fields :: "Node field list" where
  "node_fields =
     [field ''id'' dec_string n_ID n_ID_update,
      field ''underlay_address'' dec_string n_UnderlayAddress n_UnderlayAddress_update,
      field ''overlay_address'' dec_string n_OverlayAddress n_OverlayAddress_update]"

definition vxlan_fields :: "VXLANConfig field list" where
  "vxlan_fields =
     [field ''vni'' dec_int vx_VNI vx_VNI_update, field ''udp_port'' dec_int vx_UDPPort vx_UDPPort_update,
      field ''mtu'' dec_int vx_MTU vx_MTU_update,
      field ''interface_name'' dec_string vx_InterfaceName vx_InterfaceName_update]"

definition config_fields :: "topology_Config field list" where
  "config_fields =
     [field ''schema'' dec_string c_Schema c_Schema_update, field ''backend'' dec_string c_Backend c_Backend_update,
      field ''local_node_id'' dec_string c_LocalNodeID c_LocalNodeID_update,
      field ''overlay_cidr'' dec_string c_OverlayCIDR c_OverlayCIDR_update,
      field ''nodes'' (dec_list (dec_struct True node_fields) zeroNode) c_Nodes c_Nodes_update,
      field ''vxlan'' (dec_ptr (dec_struct True vxlan_fields) zeroVXLAN) c_VXLAN c_VXLAN_update]"

definition dec_config :: "topology_Config dec" where "dec_config = dec_struct True config_fields"

text \<open>
  The token scan for duplicate fields, over the document that the tokens spell: members are
  visited in order, a name is checked before its value is scanned.
\<close>

fun scanJSONValue :: "json \<Rightarrow> go_error option"
and scanArray :: "json list \<Rightarrow> go_error option"
and scanObject :: "string list \<Rightarrow> (string \<times> json) list \<Rightarrow> go_error option" where
  "scanJSONValue (JArr vs) = scanArray vs"
| "scanJSONValue (JObj ms) = scanObject [] ms"
| "scanJSONValue JNull = None"
| "scanJSONValue (JBool b) = None"
| "scanJSONValue (JNum s) = None"
| "scanJSONValue (JStr s) = None"
| "scanArray [] = None"
| "scanArray (v # vs) = (case scanJSONValue v of Some e \<Rightarrow> Some e | None \<Rightarrow> scanArray vs)"
| "scanObject seen [] = None"
| "scanObject seen ((k, v) # ms) =
     (if unquote k \<in> set seen then Some (Errorf ''duplicate field %q'' [unquote k])
      else case scanJSONValue v of
        Some e \<Rightarrow> Some e
      | None \<Rightarrow> scanObject (unquote k # seen) ms)"

text \<open>
  \<^verbatim>\<open>Decode\<close> on the bytes that the reader delivers. A text that does not start with a JSON document
  is an error of the scan or of the decoder; the model does not tell which.
\<close>

definition Decode :: "string result \<Rightarrow> topology_Config result" where
  "Decode input =
     (case input of
        Inl e \<Rightarrow> Inl (Wrapf ''read input: %w'' [] e)
      | Inr data \<Rightarrow>
          if MaxInputBytes < length data then Inl (Errorf ''input exceeds %d bytes'' [itoa MaxInputBytes])
          else case pvalue (Suc (length data)) maxNestingDepth data of
            None \<Rightarrow> Inl (Wrapf ''decode input: %w'' [] syntax_error)
          | Some (j, rest) \<Rightarrow>
              (case scanJSONValue j of
                 Some e \<Rightarrow> Inl (Wrapf ''decode input: %w'' [] e)
               | None \<Rightarrow>
                   (case dec_config j zeroTopology of
                      (_, Some e) \<Rightarrow> Inl (Wrapf ''decode input: %w'' [] e)
                    | (config, None) \<Rightarrow>
                        if skip_ws rest = [] then Inr config
                        else if pvalue (Suc (length rest)) maxNestingDepth rest = None
                        then Inl (Wrapf ''decode input: %w'' [] syntax_error)
                        else Inl (Errorf ''decode input: multiple JSON documents are not allowed'' []))))"

section \<open>The command\<close>

text \<open>The flags of the command with their defaults.\<close>

definition run_flags :: "flag_value gomap" where
  "run_flags = [(''file'', FString []), (''version'', FBool False)]"

datatype printed = Printed string | PlanPrinted Plan | Diagnosed go_error

text \<open>
  The exit code and what is printed. Opening and reading the file, reading standard input and
  writing the plan are arguments.
\<close>

definition run ::
  "string \<Rightarrow> (string \<Rightarrow> string result option) \<Rightarrow> string result \<Rightarrow> (Plan \<Rightarrow> bool) \<Rightarrow> string list \<Rightarrow> int \<times> printed list" where
  "run version openFile stdin writes args =
     (case parse_flag_set run_flags args of
        None \<Rightarrow> (2, [])
      | Some (flags, rest) \<Rightarrow>
          let filePath = flag_string flags ''file''; showVersion = flag_bool flags ''version''
          in if rest \<noteq> [] then (2, [Diagnosed (Errorf ''unexpected positional arguments'' [])])
          else if showVersion then (0, [Printed version])
          else case (if filePath = [] then Some stdin else openFile filePath) of
            None \<Rightarrow> (1, [Diagnosed (Errorf ''unable to open input file'' [])])
          | Some input \<Rightarrow>
              (case Decode input of
                 Inl e \<Rightarrow> (1, [Diagnosed (Wrapf ''invalid topology document: %v'' [] e)])
               | Inr config \<Rightarrow>
                   (case BuildPlan config of
                      Inl e \<Rightarrow> (1, [Diagnosed (Wrapf ''invalid topology: %v'' [] e)])
                    | Inr plan \<Rightarrow>
                        if writes plan then (0, [PlanPrinted plan])
                        else (1, [Diagnosed (Errorf ''unable to encode plan'' [])]))))"

end
