(* ===== verification/Topology_Valid.thy ===== *)
theory Topology_Valid
  imports Topology
begin

text \<open>
  What the topology planner guarantees: which configurations it accepts, that its plan does not
  depend on the order of the nodes, that normalization is idempotent, that the overlay has room
  for all nodes, and that a printed configuration is decoded to itself.
\<close>

section \<open>Words and bytes\<close>

lemma unat_of_nat_byte: "unat (word_of_nat n :: byte) = n mod 256"
  by (simp add: unat_of_nat)

lemma byte_le: "unat (x :: byte) \<le> 255"
  using unat_byte[of x] by simp

lemma byte_div: "y \<le> 255 \<Longrightarrow> (x * 256 + y) div 256 = (x :: nat)" "y \<le> 255 \<Longrightarrow> (x * 256 + y) mod 256 = y"
  by simp_all

lemma unat_be32:
  fixes a b c d :: byte
  shows "unat (be32 [a, b, c, d]) = ((unat a * 256 + unat b) * 256 + unat c) * 256 + unat d"
proof -
  have "((unat a * 256 + unat b) * 256 + unat c) * 256 + unat d < 4294967296"
    using byte_le[of a] byte_le[of b] byte_le[of c] byte_le[of d] by simp
  moreover have "n < 4294967296 \<Longrightarrow> unat (word_of_nat n :: 32 word) = n" for n by (simp add: unat_of_nat)
  moreover have "be32 [a, b, c, d] = word_of_nat (((unat a * 256 + unat b) * 256 + unat c) * 256 + unat d)"
    unfolding be32_def by (simp only: foldl.simps mult.commute[of 256] mult_0 mult_0_right add_0)
  ultimately show ?thesis by metis
qed

lemma bytes_of_4: "bytes_of w = [word_of_nat (unat w div 256 div 256 div 256), word_of_nat (unat w div 256 div 256),
    word_of_nat (unat w div 256), word_of_nat (unat w)]"
  by (simp add: bytes_of_def upt_rec div_mult2_eq[symmetric])

lemma bytes_of_be32:
  assumes "length b = 4"
  shows "bytes_of (be32 b) = b"
proof -
  obtain x y z u where b: "b = [x, y, z, u]" using assms by (auto simp: length_Suc_conv numeral_eq_Suc)
  have x: "unat x mod 256 = unat x" using byte_le[of x] by simp
  show ?thesis
    unfolding b bytes_of_4 unat_be32
    by (simp only: byte_div[OF byte_le] list.inject word_unat_eq_iff unat_of_nat_byte x simp_thms)
qed

lemma be32_bytes_of: "be32 (bytes_of w) = w"
proof -
  define n a b c where n: "n = unat w" and a: "a = n div 256" and b: "b = a div 256" and c: "c = b div 256"
  have "n < 4294967296" unfolding n using unsigned_less[of w] by simp
  then have "c < 256" unfolding a b c by (simp add: div_mult2_eq[symmetric] less_mult_imp_div_less)
  moreover have "n = 256 * a + n mod 256" "a = 256 * b + a mod 256" "b = 256 * c + b mod 256"
    unfolding a b c by simp_all
  ultimately have "((c mod 256 * 256 + b mod 256) * 256 + a mod 256) * 256 + n mod 256 = n"
    by (metis mod_less mult.commute)
  then show ?thesis
    by (simp only: bytes_of_4 word_unat_eq_iff unat_be32 unat_of_nat_byte n a b c)
qed

section \<open>Prefixes\<close>

lemma xor_zero_iff: "(x :: 'a::len word) XOR y = 0 \<longleftrightarrow> x = y"
  by (auto simp: bit_eq_iff bit_xor_iff)

lemma masked_multiple:
  assumes "masked p bits = p"
  shows "p AND mask (32 - bits) = 0" "unat p mod 2 ^ (32 - bits) = 0"
proof -
  have "p AND mask (32 - bits) = (p AND NOT (mask (32 - bits))) AND mask (32 - bits)"
    using assms by (simp add: masked_def)
  also have "\<dots> = 0" by (simp add: bit_eq_iff bit_and_iff bit_not_iff)
  finally show z: "p AND mask (32 - bits) = 0" .
  then have "take_bit (32 - bits) p = 0" by (simp add: take_bit_eq_mask)
  then have "take_bit (32 - bits) (unat p) = 0" by (metis unsigned_take_bit_eq unsigned_0)
  then show "unat p mod 2 ^ (32 - bits) = 0" by (simp only: take_bit_eq_mod)
qed

lemma same_block:
  fixes p w k :: nat
  assumes "p mod k = 0" "0 < k"
  shows "w div k = p div k \<longleftrightarrow> p \<le> w \<and> w < p + k"
proof -
  obtain q where q: "p = k * q" using assms(1) by auto
  show ?thesis
  proof
    assume "w div k = p div k"
    then have "w div k = q" using assms(2) by (simp add: q)
    then show "p \<le> w \<and> w < p + k"
      using assms(2) by (metis q add.commute div_mult_mod_eq le_add1 mod_less_divisor mult.commute nat_add_left_cancel_less)
  next
    assume "p \<le> w \<and> w < p + k"
    then obtain r where "w = k * q + r" "r < k" using q by (metis le_Suc_ex nat_add_left_cancel_less)
    then show "w div k = p div k" using assms(2) by (simp add: q)
  qed
qed

lemma contains_iff:
  assumes "masked p bits = p"
  shows "prefix_Contains p bits w \<longleftrightarrow> unat p \<le> unat w \<and> unat w < unat p + 2 ^ (32 - bits)"
proof -
  have "prefix_Contains p bits w \<longleftrightarrow> drop_bit (32 - bits) w = drop_bit (32 - bits) p"
    by (simp add: prefix_Contains_def xor_zero_iff)
  also have "\<dots> \<longleftrightarrow> unat w div 2 ^ (32 - bits) = unat p div 2 ^ (32 - bits)"
  proof -
    have "drop_bit (32 - bits) w = drop_bit (32 - bits) p \<longleftrightarrow> drop_bit (32 - bits) (unat w) = drop_bit (32 - bits) (unat p)"
      by (simp only: word_unat_eq_iff unat_drop_bit_eq)
    then show ?thesis by (simp only: drop_bit_eq_div)
  qed
  finally show ?thesis using same_block[OF masked_multiple(2)[OF assms]] by simp
qed


lemma broadcast_word:
  assumes "masked p bits = p" "0 < bits"
  shows "unat (masked p bits OR ucast (push_bit (32 - bits) (1 :: 64 word) - 1)) = unat p + 2 ^ (32 - bits) - 1"
proof -
  let ?h = "32 - bits" and ?m = "mask (32 - bits) :: 32 word"
  have "(push_bit ?h (1 :: 64 word) - 1) = mask ?h" by (simp add: mask_eq_decr_exp push_bit_of_1)
  moreover have "ucast (mask ?h :: 64 word) = ?m"
    using assms(2) by (simp add: bit_eq_iff bit_ucast_iff bit_mask_iff)
  ultimately have "masked p bits OR ucast (push_bit ?h (1 :: 64 word) - 1) = p OR ?m" using assms(1) by simp
  also have "\<dots> = p + ?m" using word_plus_and_or[of p ?m] masked_multiple(1)[OF assms(1)] by simp
  finally have e: "masked p bits OR ucast (push_bit ?h (1 :: 64 word) - 1) = p + ?m" .
  have um: "unat ?m = 2 ^ ?h - 1"
  proof -
    have "uint ?m = 2 ^ ?h - 1" by (simp only: uint_mask_eq) (simp add: min_absorb2 mask_eq_exp_minus_1)
    then show ?thesis by (simp add: unat_eq_nat_uint nat_diff_distrib nat_power_eq)
  qed
  obtain q where q: "unat p = 2 ^ ?h * q" using masked_multiple(2)[OF assms(1)] by auto
  have "unat p < 2 ^ ?h * 2 ^ bits" if "bits \<le> 32" 
    using unsigned_less[of p] that by (simp add: power_add[symmetric])
  then have "unat p + (2 ^ ?h - 1) < 2 ^ 32"
  proof (cases "bits \<le> 32")
    case True
    then have "q < 2 ^ bits" using \<open>bits \<le> 32 \<Longrightarrow> unat p < 2 ^ ?h * 2 ^ bits\<close> q by simp
    then have "2 ^ ?h * Suc q \<le> 2 ^ ?h * 2 ^ bits" by (intro mult_le_mono2) simp
    also have "\<dots> = (2 :: nat) ^ 32" using True by (simp add: power_add[symmetric])
    finally have "unat p + 2 ^ ?h \<le> 2 ^ 32" using q by simp
    moreover have "0 < (2 :: nat) ^ ?h" by simp
    ultimately show ?thesis by linarith
  next
    case False
    then show ?thesis using unsigned_less[of p] by simp
  qed
  then show ?thesis unfolding e using um by (simp add: unat_word_ariths(1))
qed


lemma usable_iff:
  assumes "masked p bits = p" "0 < bits"
  shows "prefix_Contains p bits w \<and> \<not> isNetworkOrBroadcast p bits w \<longleftrightarrow>
    unat p < unat w \<and> unat w < unat p + 2 ^ (32 - bits) - 1"
proof -
  have "isNetworkOrBroadcast p bits w \<longleftrightarrow> unat w = unat p \<or> unat w = unat p + 2 ^ (32 - bits) - 1"
    unfolding isNetworkOrBroadcast_def Let_def using broadcast_word[OF assms] assms(1) by (metis word_unat_eq_iff)
  then show ?thesis by (auto simp: contains_iff[OF assms(1)])
qed

section \<open>Which nodes are accepted\<close>

definition underlay :: "Node \<Rightarrow> 32 word" where "underlay n = the (parseUsableIPv4 (n_UnderlayAddress n))"
definition overlay :: "Node \<Rightarrow> 32 word" where "overlay n = the (parseUsableIPv4 (n_OverlayAddress n))"

definition valid_node :: "32 word \<Rightarrow> nat \<Rightarrow> Node \<Rightarrow> bool" where
  "valid_node p bits n \<longleftrightarrow> name_pattern 62 (n_ID n) \<and>
     parseUsableIPv4 (n_UnderlayAddress n) \<noteq> None \<and> parseUsableIPv4 (n_OverlayAddress n) \<noteq> None \<and>
     (unat (underlay n) < unat p \<or> unat p + 2 ^ (32 - bits) \<le> unat (underlay n)) \<and>
     unat p < unat (overlay n) \<and> unat (overlay n) < unat p + 2 ^ (32 - bits) - 1"

definition norm_node :: "Node \<Rightarrow> Node" where
  "norm_node n = \<lparr>n_ID = n_ID n, n_UnderlayAddress = addr4_string (underlay n), n_OverlayAddress = addr4_string (overlay n)\<rparr>"

definition fresh_node :: "node_state \<Rightarrow> Node \<Rightarrow> bool" where
  "fresh_node s n \<longleftrightarrow> n_ID n \<notin> set (ns_ids s) \<and> underlay n \<notin> set (ns_underlays s) \<and> overlay n \<notin> set (ns_overlays s)"

definition add_node :: "string \<Rightarrow> node_state \<Rightarrow> Node \<Rightarrow> node_state" where
  "add_node L s n = \<lparr>ns_index = Suc (ns_index s), ns_ids = n_ID n # ns_ids s, ns_underlays = underlay n # ns_underlays s,
     ns_overlays = overlay n # ns_overlays s, ns_nodes = ns_nodes s @ [norm_node n],
     ns_localFound = (ns_localFound s \<or> n_ID n = L)\<rparr>"

lemma normalize_node_Inr:
  assumes "masked p bits = p" "0 < bits"
  shows "normalize_node L p bits s n = Inr s' \<longleftrightarrow> valid_node p bits n \<and> fresh_node s n \<and> s' = add_node L s n"
proof -
  have o: "\<not> prefix_Contains p bits v \<or> isNetworkOrBroadcast p bits v \<longleftrightarrow>
      \<not> (unat p < unat v \<and> unat v < unat p + 2 ^ (32 - bits) - 1)" for v
    using usable_iff[OF assms, of v] by blast
  show ?thesis
    unfolding normalize_node_def o
    unfolding contains_iff[OF assms(1)]
    by (auto simp: valid_node_def fresh_node_def add_node_def norm_node_def underlay_def overlay_def split: option.split)
qed

lemma normalize_nodes_Inr:
  assumes "masked p bits = p" "0 < bits"
  shows "normalize_nodes L p bits s ns = Inr s' \<longleftrightarrow>
    list_all (valid_node p bits) ns \<and> list_all (fresh_node s) ns \<and>
    distinct (map n_ID ns) \<and> distinct (map underlay ns) \<and> distinct (map overlay ns) \<and>
    s' = foldl (add_node L) s ns"
proof (induction ns arbitrary: s)
  case (Cons n ns)
  have f: "list_all (fresh_node (add_node L s n)) ns \<longleftrightarrow> list_all (fresh_node s) ns \<and>
      n_ID n \<notin> n_ID ` set ns \<and> underlay n \<notin> underlay ` set ns \<and> overlay n \<notin> overlay ` set ns"
    by (auto simp: list_all_iff fresh_node_def add_node_def image_iff; metis)
  show ?case
  proof (cases "normalize_node L p bits s n")
    case (Inl e)
    then have "\<not> (valid_node p bits n \<and> fresh_node s n)"
      using normalize_node_Inr[OF assms, of L s n] by (metis sum.distinct(1))
    then show ?thesis by (auto simp: Inl)
  next
    case (Inr s1)
    then have "valid_node p bits n" "fresh_node s n" "s1 = add_node L s n"
      using normalize_node_Inr[OF assms, of L s n] by simp_all
    then show ?thesis by (simp add: Inr Cons.IH f) blast
  qed
qed (auto simp: list_all_iff)

lemma foldl_add_node:
  "ns_nodes (foldl (add_node L) s ns) = ns_nodes s @ map norm_node ns"
  "ns_localFound (foldl (add_node L) s ns) \<longleftrightarrow> ns_localFound s \<or> L \<in> n_ID ` set ns"
  by (induction ns arbitrary: s) (auto simp: add_node_def)

text \<open>The nodes of a valid topology over a prefix.\<close>

definition valid_nodes :: "32 word \<Rightarrow> nat \<Rightarrow> Node list \<Rightarrow> bool" where
  "valid_nodes p bits ns \<longleftrightarrow> list_all (valid_node p bits) ns \<and>
     distinct (map n_ID ns) \<and> distinct (map underlay ns) \<and> distinct (map overlay ns)"

lemma overlay_prefix_Inr:
  assumes "overlay_prefix s = Inr (p, bits)"
  shows "masked p bits = p" "8 \<le> bits" "bits \<le> 30"
  using assms unfolding overlay_prefix_def
  by (auto split: option.splits netip_addr.splits prod.splits if_splits)

text \<open>A configuration is valid over a prefix with these backend options.\<close>

definition valid_config :: "topology_Config \<Rightarrow> 32 word \<Rightarrow> nat \<Rightarrow> VXLANConfig option \<Rightarrow> bool" where
  "valid_config c p bits vx \<longleftrightarrow>
     c_Schema c = InputSchema \<and> (c_Backend c = ''ipsec'' \<or> c_Backend c = ''vxlan'') \<and>
     2 \<le> length (c_Nodes c) \<and> length (c_Nodes c) \<le> 4096 \<and> c_LocalNodeID c \<in> n_ID ` set (c_Nodes c) \<and>
     overlay_prefix (c_OverlayCIDR c) = Inr (p, bits) \<and> valid_nodes p bits (c_Nodes c) \<and> backend_options c = Inr vx"

definition normalized :: "topology_Config \<Rightarrow> 32 word \<Rightarrow> nat \<Rightarrow> VXLANConfig option \<Rightarrow> normalizedConfig" where
  "normalized c p bits vx =
     \<lparr>c_Schema = c_Schema c, c_Backend = c_Backend c, c_LocalNodeID = c_LocalNodeID c,
      c_OverlayCIDR = prefix4_string p bits, c_Nodes = sort_key n_ID (map norm_node (c_Nodes c)),
      c_VXLAN = vx, nc_prefixBits = bits\<rparr>"

lemma normalize_Inr:
  "normalize c = Inr n \<longleftrightarrow> (\<exists>p bits vx. valid_config c p bits vx \<and> n = normalized c p bits vx)"
proof -
  have nodes: "(\<exists>s. normalize_nodes L p bits node_start ns = Inr s \<and> ns_localFound s \<and> f (ns_nodes s)) \<longleftrightarrow>
      valid_nodes p bits ns \<and> L \<in> n_ID ` set ns \<and> f (map norm_node ns)"
    if "masked p bits = p" "0 < bits" for L p bits ns f
    using foldl_add_node[of L node_start ns]
    by (auto simp: normalize_nodes_Inr[OF that] valid_nodes_def list_all_iff fresh_node_def node_start_def)
  have local: "name_pattern 62 L" if "valid_nodes p bits ns" "L \<in> n_ID ` set ns" for L p bits ns
    using that by (auto simp: valid_nodes_def list_all_iff valid_node_def)
  show ?thesis
  proof (cases "overlay_prefix (c_OverlayCIDR c)")
    case (Inl e)
    then show ?thesis by (auto simp: normalize_def valid_config_def)
  next
    case (Inr pb)
    obtain p bits where pb: "pb = (p, bits)" by (cases pb)
    have m: "masked p bits = p" "0 < bits" using overlay_prefix_Inr[of "c_OverlayCIDR c" p bits] Inr pb by auto
    let ?r = "\<lambda>nodes vx. \<lparr>c_Schema = c_Schema c, c_Backend = c_Backend c, c_LocalNodeID = c_LocalNodeID c,
        c_OverlayCIDR = prefix4_string p bits, c_Nodes = sort_key n_ID nodes, c_VXLAN = vx, nc_prefixBits = bits\<rparr>"
    have "normalize c = Inr n \<longleftrightarrow> c_Schema c = InputSchema \<and> (c_Backend c = ''ipsec'' \<or> c_Backend c = ''vxlan'') \<and>
        name_pattern 62 (c_LocalNodeID c) \<and> 2 \<le> length (c_Nodes c) \<and> length (c_Nodes c) \<le> 4096 \<and>
        (\<exists>s. normalize_nodes (c_LocalNodeID c) p bits node_start (c_Nodes c) = Inr s \<and> ns_localFound s \<and>
           (\<exists>vx. backend_options c = Inr vx \<and> n = ?r (ns_nodes s) vx))"
      by (auto simp: normalize_def Inr pb split: sum.splits)
    also have "\<dots> \<longleftrightarrow> (\<exists>vx. valid_config c p bits vx \<and> n = normalized c p bits vx)"
      using nodes[OF m, of "c_LocalNodeID c" "c_Nodes c" "\<lambda>ns. \<exists>vx. backend_options c = Inr vx \<and> n = ?r ns vx"] local
      by (auto simp: valid_config_def normalized_def Inr pb)
    also have "\<dots> \<longleftrightarrow> (\<exists>p bits vx. valid_config c p bits vx \<and> n = normalized c p bits vx)"
      by (auto simp: valid_config_def Inr pb)
    finally show ?thesis .
  qed
qed


section \<open>Acceptance\<close>

text \<open>The plan of a normalized topology.\<close>

definition plan_of :: "normalizedConfig \<Rightarrow> Plan" where
  "plan_of n = (let r = int (length (c_Nodes n)) - 1; v = (if c_Backend n = ''vxlan'' then r else 0) in
     \<lparr>pl_Schema = PlanSchema, pl_Backend = c_Backend n, pl_NormalizedSHA256 = hexString (sha256 (render (enc_config n))),
      pl_AddressFamily = ''ipv4'', pl_OverlayPrefixBits = int (nc_prefixBits n), pl_NodeCount = int (length (c_Nodes n)),
      pl_RemoteNodeCount = r,
      pl_EstimatedObjects = \<lparr>PeerRelationships = r, RouteEntries = r, NeighborEntries = v, ForwardingEntries = v\<rparr>,
      pl_Safeguards = \<lparr>sg_Mode = ''audit-only'', sg_AppliesHostChanges = False, sg_ReadsMetadata = False,
        sg_AcceptsSecretMaterial = False, sg_ProductionReady = False\<rparr>\<rparr>)"

lemma BuildPlan_eq: "BuildPlan c = (case normalize c of Inl e \<Rightarrow> Inl e | Inr n \<Rightarrow> Inr (plan_of n))"
  by (simp add: BuildPlan_def plan_of_def zeroEstimates_def Let_def split: sum.split)

lemma BuildPlan_Inr:
  "BuildPlan c = Inr plan \<longleftrightarrow> (\<exists>p bits vx. valid_config c p bits vx \<and> plan = plan_of (normalized c p bits vx))"
proof -
  have "BuildPlan c = Inr plan \<longleftrightarrow> (\<exists>n. normalize c = Inr n \<and> plan = plan_of n)"
    by (auto simp: BuildPlan_eq split: sum.splits)
  then show ?thesis unfolding normalize_Inr by blast
qed

text \<open>
  C30. Exactly the valid topologies get a plan, and it is the plan of the normalized topology: the
  schema and the backend are known; there are between 2 and 4096 nodes and the local node is one
  of them; the overlay is a canonical IPv4 prefix of 8 to 30 bits; identifiers, underlay addresses
  and overlay addresses are each distinct; underlay addresses lie outside the prefix and overlay
  addresses strictly between its network and its broadcast address, as numbers; and the VXLAN
  section is absent for IPsec and present and valid for VXLAN. Every other topology is an error.
\<close>

theorem plan_accepts:
  "(case BuildPlan c of
      Inr plan \<Rightarrow> \<exists>p bits vx. valid_config c p bits vx \<and> plan = plan_of (normalized c p bits vx)
    | Inl _ \<Rightarrow> \<nexists>p bits vx. valid_config c p bits vx)"
proof (cases "BuildPlan c")
  case (Inl e)
  have "\<not> valid_config c p bits vx" for p bits vx
  proof
    assume "valid_config c p bits vx"
    then have "BuildPlan c = Inr (plan_of (normalized c p bits vx))" using BuildPlan_Inr by blast
    with Inl show False by simp
  qed
  then show ?thesis by (simp add: Inl)
next
  case (Inr plan)
  then show ?thesis using BuildPlan_Inr[of c plan] by simp
qed

text \<open>The overlay has room for its nodes.\<close>

lemma nodes_fit:
  assumes "valid_nodes p bits ns"
  shows "length ns \<le> 2 ^ (32 - bits) - 2"
proof -
  let ?f = "\<lambda>n. unat (overlay n)"
  have "inj_on ?f (set ns)" "distinct ns"
    using assms by (auto simp: valid_nodes_def distinct_map inj_on_def word_unat_eq_iff[symmetric])
  then have "length ns = card (?f ` set ns)" by (simp add: card_image distinct_card)
  also have "\<dots> \<le> card {unat p <..< unat p + 2 ^ (32 - bits) - 1}"
    using assms by (intro card_mono) (auto simp: valid_nodes_def list_all_iff valid_node_def)
  finally show ?thesis by simp
qed


lemma norm_node_simps [simp]:
  "n_ID (norm_node n) = n_ID n" "n_UnderlayAddress (norm_node n) = addr4_string (underlay n)"
  "n_OverlayAddress (norm_node n) = addr4_string (overlay n)"
  by (simp_all add: norm_node_def)

lemma sort_key_mset:
  assumes "mset xs = mset ys" "inj_on f (set xs)"
  shows "sort_key f xs = sort_key f ys"
  using assms by (intro sort_key_inj_key_eq) simp_all

lemma valid_nodes_mset: "mset ns = mset ns' \<Longrightarrow> valid_nodes p bits ns \<Longrightarrow> valid_nodes p bits ns'"
  unfolding valid_nodes_def
  by (metis list_all_iff mset_eq_imp_distinct_iff mset_map set_mset_mset)

lemma sort_norm_nodes:
  assumes "mset ns = mset ns'" "distinct (map n_ID ns)"
  shows "sort_key n_ID (map norm_node ns) = sort_key n_ID (map norm_node ns')"
proof (rule sort_key_mset)
  show "mset (map norm_node ns) = mset (map norm_node ns')" using assms(1) by (metis mset_map)
  show "inj_on n_ID (set (map norm_node ns))"
    using assms(2) by (auto simp: inj_on_def distinct_map)
qed

lemma backend_options_nodes [simp]: "backend_options (c\<lparr>c_Nodes := ns\<rparr>) = backend_options c"
  by (simp add: backend_options_def)

lemma plan_reordered:
  assumes "mset (c_Nodes c) = mset nodes'" "BuildPlan c = Inr plan"
  shows "BuildPlan (c\<lparr>c_Nodes := nodes'\<rparr>) = Inr plan"
proof -
  obtain p bits vx where v: "valid_config c p bits vx" "plan = plan_of (normalized c p bits vx)"
    using assms(2) BuildPlan_Inr by blast
  have vn: "valid_nodes p bits (c_Nodes c)" using v(1) by (simp add: valid_config_def)
  have "length nodes' = length (c_Nodes c)" "set nodes' = set (c_Nodes c)"
    using assms(1) by (metis size_mset, metis set_mset_mset)
  then have "valid_config (c\<lparr>c_Nodes := nodes'\<rparr>) p bits vx"
    using v(1) valid_nodes_mset[OF assms(1) vn] by (simp add: valid_config_def)
  moreover have "normalized (c\<lparr>c_Nodes := nodes'\<rparr>) p bits vx = normalized c p bits vx"
    using sort_norm_nodes[OF assms(1)] vn by (simp add: normalized_def valid_nodes_def)
  ultimately show ?thesis using v(2) BuildPlan_Inr by metis
qed

text \<open>
  C32. The plan, its digest included, does not depend on the order in which the nodes are listed:
  a topology and every rearrangement of its nodes are accepted together, with the same plan.
\<close>

theorem plan_order_invariant:
  assumes "mset (c_Nodes c) = mset nodes'"
  shows "BuildPlan c = Inr plan \<longleftrightarrow> BuildPlan (c\<lparr>c_Nodes := nodes'\<rparr>) = Inr plan"
proof
  show "BuildPlan c = Inr plan \<Longrightarrow> BuildPlan (c\<lparr>c_Nodes := nodes'\<rparr>) = Inr plan"
    by (rule plan_reordered[OF assms])
  assume "BuildPlan (c\<lparr>c_Nodes := nodes'\<rparr>) = Inr plan"
  from plan_reordered[OF _ this, of "c_Nodes c"] assms show "BuildPlan c = Inr plan" by simp
qed

section \<open>Normalization is idempotent\<close>

lemma parse_addr4: "parseAddr (addr4_string w) = Some (Addr4 (bytes_of w))"
  by (simp add: addr4_string_def)

lemma usable_addr4:
  "parseUsableIPv4 s = Some w \<Longrightarrow> parseUsableIPv4 (addr4_string w) = Some w"
  by (auto simp: parseUsableIPv4_def parse_addr4 be32_bytes_of Let_def split: option.splits netip_addr.splits if_splits)

lemma norm_node_idem:
  assumes "valid_node p bits n"
  shows "valid_node p bits (norm_node n)" "underlay (norm_node n) = underlay n" "overlay (norm_node n) = overlay n"
    "norm_node (norm_node n) = norm_node n"
proof -
  have u: "parseUsableIPv4 (addr4_string (underlay n)) = Some (underlay n)" "parseUsableIPv4 (addr4_string (overlay n)) = Some (overlay n)"
    using assms usable_addr4 by (auto simp: valid_node_def underlay_def overlay_def)
  then show e: "underlay (norm_node n) = underlay n" "overlay (norm_node n) = overlay n"
    by (simp_all add: underlay_def[of "norm_node n"] overlay_def[of "norm_node n"])
  show "valid_node p bits (norm_node n)" using assms u e by (auto simp: valid_node_def)
  show "norm_node (norm_node n) = norm_node n" unfolding norm_node_def[of "norm_node n"] e by (simp add: norm_node_def)
qed


lemma prefix_length_text: "8 \<le> bits \<Longrightarrow> bits \<le> 30 \<Longrightarrow>
  atoi (itoa bits) = Some (int bits) \<and> isDigit (hd (itoa bits)) \<and> (1 < length (itoa bits) \<longrightarrow> hd (itoa bits) \<noteq> CHR ''0'')"
proof -
  have "list_all (\<lambda>b. atoi (itoa b) = Some (int b) \<and> isDigit (hd (itoa b)) \<and> (1 < length (itoa b) \<longrightarrow> hd (itoa b) \<noteq> CHR ''0'')) [8..<31]"
    by code_simp
  note c = this[unfolded list_all_iff set_upt, THEN bspec, of bits]
  show "8 \<le> bits \<Longrightarrow> bits \<le> 30 \<Longrightarrow> ?thesis" by (rule c) simp
qed

lemma overlay_prefix_string:
  assumes "masked p bits = p" "8 \<le> bits" "bits \<le> 30"
  shows "overlay_prefix (prefix4_string p bits) = Inr (p, bits)"
proof -
  have "split_last CHR ''/'' (prefix4_string p bits) = Some (addr4_string p, itoa bits)"
    unfolding prefix4_string_def using split_last_append[of "CHR ''/''" "itoa bits" "addr4_string p"] by simp
  then have "parsePrefix (prefix4_string p bits) = Some (Addr4 (bytes_of p), bits)"
    using prefix_length_text[OF assms(2,3)] assms(3) by (auto simp: parsePrefix_def parse_addr4)
  then show ?thesis using assms by (simp add: overlay_prefix_def be32_bytes_of)
qed

lemma valid_norm_nodes: "valid_nodes p bits ns \<Longrightarrow> valid_nodes p bits (map norm_node ns)"
  using norm_node_idem(1-3)[of p bits]
  by (auto simp: valid_nodes_def list_all_iff comp_def cong: map_cong)

lemma backend_options_Inr: "backend_options c = Inr vx \<Longrightarrow> c_VXLAN c = vx"
  by (auto simp: backend_options_def split: if_splits option.splits)

text \<open>
  Normalization is a projection: the normalized topology, read as a configuration again, is
  accepted and is its own normal form. Addresses, prefix and order have one spelling, so equal
  topologies have equal digests.
\<close>

theorem normalize_idempotent:
  assumes "normalize c = Inr n"
  shows "normalize (topology_Config.truncate n) = Inr n"
proof -
  obtain p bits vx where v: "valid_config c p bits vx" "n = normalized c p bits vx" using assms normalize_Inr by blast
  let ?ns = "map norm_node (c_Nodes c)" and ?c = "topology_Config.truncate n"
  have vn: "valid_nodes p bits (c_Nodes c)" and pf: "masked p bits = p" "8 \<le> bits" "bits \<le> 30"
    using v(1) overlay_prefix_Inr by (auto simp: valid_config_def)
  have t: "c_Schema ?c = c_Schema c" "c_Backend ?c = c_Backend c" "c_LocalNodeID ?c = c_LocalNodeID c"
    "c_OverlayCIDR ?c = prefix4_string p bits" "c_Nodes ?c = sort_key n_ID ?ns" "c_VXLAN ?c = c_VXLAN c"
    using backend_options_Inr v by (simp_all add: topology_Config.defs normalized_def valid_config_def)
  have sv: "valid_nodes p bits (sort_key n_ID ?ns)"
    by (rule valid_nodes_mset[OF _ valid_norm_nodes[OF vn]]) simp
  have ok: "valid_config ?c p bits vx"
    using v(1) sv by (auto simp: valid_config_def t overlay_prefix_string[OF pf] backend_options_def image_image)
  have "map norm_node (sort_key n_ID ?ns) = sort_key n_ID ?ns"
    using vn norm_node_idem(4) by (intro map_idI) (auto simp: valid_nodes_def list_all_iff)
  moreover have "sort_key n_ID (sort_key n_ID ?ns) = sort_key n_ID ?ns"
    using sv by (intro sort_key_mset) (auto simp: valid_nodes_def distinct_map)
  ultimately have "normalized ?c p bits vx = normalized c p bits vx" unfolding normalized_def t by simp
  then show ?thesis using ok normalize_Inr v(2) by metis
qed

section \<open>An example\<close>

definition example_topology :: topology_Config where
  "example_topology = \<lparr>c_Schema = InputSchema, c_Backend = ''vxlan'', c_LocalNodeID = ''node-a'', c_OverlayCIDR = ''10.42.0.0/16'',
     c_Nodes = [\<lparr>n_ID = ''node-b'', n_UnderlayAddress = ''192.0.2.20'', n_OverlayAddress = ''10.42.0.2''\<rparr>,
                \<lparr>n_ID = ''node-a'', n_UnderlayAddress = ''192.0.2.10'', n_OverlayAddress = ''10.42.0.1''\<rparr>],
     c_VXLAN = Some \<lparr>vx_VNI = 1042, vx_UDPPort = 4789, vx_MTU = 1400, vx_InterfaceName = ''pasture-vx0''\<rparr>\<rparr>"

lemma example_normalized: obtains n where "normalize example_topology = Inr n"
proof -
  have "\<not> (case normalize example_topology of Inl _ \<Rightarrow> True | Inr _ \<Rightarrow> False)" by code_simp
  then show thesis using that by (auto split: sum.splits)
qed

lemma example_plan: obtains plan where "BuildPlan example_topology = Inr plan"
  using example_normalized that by (metis BuildPlan_eq sum.simps(6))


theorem plan_order_invariant_witness:
  "\<exists>plan. BuildPlan (example_topology\<lparr>c_Nodes := rev (c_Nodes example_topology)\<rparr>) = Inr plan"
proof -
  obtain plan where p: "BuildPlan example_topology = Inr plan" by (rule example_plan)
  show ?thesis using plan_order_invariant[of example_topology "rev (c_Nodes example_topology)" plan] p by auto
qed

theorem normalize_idempotent_witness:
  "\<exists>n. normalize example_topology = Inr n \<and> normalize (topology_Config.truncate n) = Inr n"
proof -
  obtain n where n: "normalize example_topology = Inr n" by (rule example_normalized)
  show ?thesis using normalize_idempotent[OF n] n by blast
qed

end
