(* ===== verification/Topology_Decode.thy ===== *)
theory Topology_Decode
  imports Topology_Valid
begin

text \<open>
  Decoding of topology documents: a printed configuration is decoded to itself, duplicate and
  unknown fields are rejected, and the command run on a valid document prints its plan.
\<close>

section \<open>Numbers\<close>

lemma num_ok_itoa: "num_ok (itoa n)"
proof (cases "n = 0")
  case True
  have "num_ok (itoa 0)" by code_simp
  then show ?thesis by (simp only: True)
next
  case False
  obtain c cs where s: "itoa n = c # cs" by (cases "itoa n") auto
  have d: "list_all isDigit (itoa n)" by simp
  then have "isDigit c" "c \<noteq> CHR ''0''" "c \<noteq> CHR ''-''"
    using itoa_no_leading_zero[OF False] by (auto simp: s isDigit_def)
  moreover have "digits (itoa n) = itoa n" "dropWhile isDigit (itoa n) = []" "dropWhile isDigit cs = []"
    using d by (simp_all add: digits_def list_all_iff s)
  ultimately show ?thesis by (simp add: num_ok_def scan_num_def scan_int_def scan_frac_def scan_exp_def s del: dropWhile_eq_Nil_conv)
qed

lemma num_ok_neg: "num_ok s \<Longrightarrow> hd s \<noteq> CHR ''-'' \<Longrightarrow> num_ok (CHR ''-'' # s)"
  by (cases s) (auto simp: num_ok_def scan_num_def Let_def scan_int_def split: option.splits if_splits prod.splits)

lemma itoa_head: "isDigit (hd (itoa n))" "hd (itoa n) \<noteq> CHR ''-''"
proof -
  obtain c cs where s: "itoa n = c # cs" by (cases "itoa n") auto
  have "isDigit c" using itoa_digits[of n] by (simp add: s)
  then show "isDigit (hd (itoa n))" "hd (itoa n) \<noteq> CHR ''-''" by (auto simp: s isDigit_def)
qed

lemma num_ok_itoa_int: "num_ok (itoa_int i)"
  using num_ok_itoa itoa_head by (simp add: itoa_int_def num_ok_neg)

definition int64_ok :: "int \<Rightarrow> bool" where "int64_ok i \<longleftrightarrow> - (2 ^ 63) \<le> i \<and> i < 2 ^ 63"

lemma parse_int64_itoa: "int64_ok i \<Longrightarrow> parse_int64 (itoa_int i) = Some i"
proof (cases "i < 0")
  case True
  then show "int64_ok i \<Longrightarrow> ?thesis"
    by (simp add: itoa_int_def parse_int64_def int64_ok_def)
next
  case False
  obtain c cs where s: "itoa (nat i) = c # cs" by (cases "itoa (nat i)") auto
  have "c \<noteq> CHR ''-''" using itoa_head(2)[of "nat i"] by (simp add: s)
  then have "(case itoa (nat i) of [] \<Rightarrow> False | c # x \<Rightarrow> c = CHR ''-'') \<longleftrightarrow> False" by (simp add: s)
  then show "int64_ok i \<Longrightarrow> ?thesis"
    using False by (simp add: itoa_int_def parse_int64_def int64_ok_def)
qed

lemma dec_int_enc: "int64_ok i \<Longrightarrow> dec_int (enc_int i) cur = (i, None)"
  by (simp add: dec_int_def enc_int_def parse_int64_itoa)

section \<open>Structures\<close>

lemma find_fields [simp]:
  "find_field node_fields ''id'' = Some (field ''id'' dec_string n_ID n_ID_update)"
  "find_field node_fields ''underlay_address'' = Some (field ''underlay_address'' dec_string n_UnderlayAddress n_UnderlayAddress_update)"
  "find_field node_fields ''overlay_address'' = Some (field ''overlay_address'' dec_string n_OverlayAddress n_OverlayAddress_update)"
  "find_field vxlan_fields ''vni'' = Some (field ''vni'' dec_int vx_VNI vx_VNI_update)"
  "find_field vxlan_fields ''udp_port'' = Some (field ''udp_port'' dec_int vx_UDPPort vx_UDPPort_update)"
  "find_field vxlan_fields ''mtu'' = Some (field ''mtu'' dec_int vx_MTU vx_MTU_update)"
  "find_field vxlan_fields ''interface_name'' = Some (field ''interface_name'' dec_string vx_InterfaceName vx_InterfaceName_update)"
  "find_field config_fields ''schema'' = Some (field ''schema'' dec_string c_Schema c_Schema_update)"
  "find_field config_fields ''backend'' = Some (field ''backend'' dec_string c_Backend c_Backend_update)"
  "find_field config_fields ''local_node_id'' = Some (field ''local_node_id'' dec_string c_LocalNodeID c_LocalNodeID_update)"
  "find_field config_fields ''overlay_cidr'' = Some (field ''overlay_cidr'' dec_string c_OverlayCIDR c_OverlayCIDR_update)"
  "find_field config_fields ''nodes'' =
     Some (field ''nodes'' (dec_list (dec_struct True node_fields) zeroNode) c_Nodes c_Nodes_update)"
  "find_field config_fields ''vxlan'' =
     Some (field ''vxlan'' (dec_ptr (dec_struct True vxlan_fields) zeroVXLAN) c_VXLAN c_VXLAN_update)"
  by (simp_all add: node_fields_def vxlan_fields_def config_fields_def find_field_def)

definition node_utf8 :: "Node \<Rightarrow> bool" where
  "node_utf8 n \<longleftrightarrow> utf8_ok (n_ID n) \<and> utf8_ok (n_UnderlayAddress n) \<and> utf8_ok (n_OverlayAddress n)"

definition vxlan_ok :: "VXLANConfig \<Rightarrow> bool" where
  "vxlan_ok v \<longleftrightarrow> int64_ok (vx_VNI v) \<and> int64_ok (vx_UDPPort v) \<and> int64_ok (vx_MTU v) \<and> utf8_ok (vx_InterfaceName v)"

definition config_utf8 :: "topology_Config \<Rightarrow> bool" where
  "config_utf8 c \<longleftrightarrow> list_all utf8_ok [c_Schema c, c_Backend c, c_LocalNodeID c, c_OverlayCIDR c] \<and>
     list_all node_utf8 (c_Nodes c) \<and> (case c_VXLAN c of None \<Rightarrow> True | Some v \<Rightarrow> vxlan_ok v)"

lemma dec_node_enc: "node_utf8 n \<Longrightarrow> dec_struct True node_fields (enc_node n) zeroNode = (n, None)"
  by (simp add: dec_struct_def enc_node_def node_utf8_def zeroNode_def struct_eval)

lemma dec_vxlan_enc: "vxlan_ok v \<Longrightarrow> dec_struct True vxlan_fields (enc_vxlan v) zeroVXLAN = (v, None)"
  by (simp add: dec_struct_def enc_vxlan_def vxlan_ok_def zeroVXLAN_def struct_eval dec_int_enc)

lemma dec_nodes_enc:
  "list_all node_utf8 ns \<Longrightarrow>
   dec_list (dec_struct True node_fields) zeroNode (JArr (map enc_node ns)) [] = (ns, None)"
proof -
  have "list_all node_utf8 ns \<Longrightarrow> dec_elems (dec_struct True node_fields) zeroNode (map enc_node ns) [] = (ns, None)"
    by (induction ns) (simp_all add: dec_node_enc)
  then show "list_all node_utf8 ns \<Longrightarrow> ?thesis" by (simp add: dec_list_def dec_slice_def)
qed

lemma dec_config_enc: "config_utf8 c \<Longrightarrow> dec_config (enc_config c) zeroTopology = (c, None)"
proof (cases "c_VXLAN c")
  case None
  then show "config_utf8 c \<Longrightarrow> ?thesis"
    by (simp add: dec_config_def dec_struct_def enc_config_def config_utf8_def zeroTopology_def struct_eval dec_nodes_enc)
next
  case (Some v)
  have "enc_vxlan v \<noteq> JNull" by (simp add: enc_vxlan_def)
  then have "dec_ptr (dec_struct True vxlan_fields) zeroVXLAN (enc_vxlan v) None =
      (let (x, e) = dec_struct True vxlan_fields (enc_vxlan v) zeroVXLAN in (Some x, e))"
    by (simp add: dec_ptr_def enc_vxlan_def)
  with Some show "config_utf8 c \<Longrightarrow> ?thesis"
    by (simp add: dec_config_def dec_struct_def[of True config_fields] enc_config_def config_utf8_def zeroTopology_def
        struct_eval dec_nodes_enc dec_vxlan_enc)
qed


section \<open>Documents\<close>

fun no_duplicates :: "json \<Rightarrow> bool" where
  "no_duplicates (JArr vs) \<longleftrightarrow> list_all no_duplicates vs"
| "no_duplicates (JObj ms) \<longleftrightarrow> distinct (map (\<lambda>(k, v). unquote k) ms) \<and> list_all (\<lambda>(k, v). no_duplicates v) ms"
| "no_duplicates _ \<longleftrightarrow> True"

lemma scan_None_iff:
  "scanJSONValue j = None \<longleftrightarrow> no_duplicates j"
  "scanArray vs = None \<longleftrightarrow> list_all no_duplicates vs"
  "scanObject seen ms = None \<longleftrightarrow>
     distinct (map (\<lambda>(k, v). unquote k) ms) \<and> list_all (\<lambda>(k, v). unquote k \<notin> set seen \<and> no_duplicates v) ms"
proof (induction j and vs and seen ms rule: scanJSONValue_scanArray_scanObject.induct)
  case (2 ms)
  then show ?case by (simp add: list_all_iff split_def)
next
  case (10 seen k v ms)
  then show ?case
    by (auto simp: list_all_iff split_def image_iff split: option.split; force)
qed (auto split: option.split)

lemma json_parse_prefix:
  "json_parse data = Some j \<longleftrightarrow>
    (\<exists>rest. pvalue (Suc (length data)) maxNestingDepth data = Some (j, rest) \<and> skip_ws rest = [])"
  by (auto simp: json_parse_def split: option.splits if_splits)


lemma json_ok_config [simp]: "json_ok (enc_config c)"
  by (auto simp: enc_config_def enc_node_def enc_vxlan_def enc_int_def num_ok_itoa_int list_all_iff
      str_ok_plain plain_char_def split: option.split)

lemma depth_config: "depth (enc_config c) \<le> maxNestingDepth"
proof -
  have "foldr (\<lambda>v. max (depth v)) (map enc_node ns) 0 \<le> 1" for ns
    by (induction ns) (simp_all add: enc_node_def)
  from le_trans[OF this, of 9998] show ?thesis
    by (auto simp: enc_config_def enc_vxlan_def enc_int_def maxNestingDepth_def split: option.split)
qed

lemma no_duplicates_config: "no_duplicates (enc_config c)"
  by (auto simp: enc_config_def enc_node_def enc_vxlan_def enc_int_def list_all_iff plain_char_def split: option.split)

lemma decode_printed_config:
  assumes "config_utf8 c" "length (render (enc_config c)) \<le> MaxInputBytes"
  shows "Decode (Inr (render (enc_config c))) = Inr c"
proof -
  have "json_parse (render (enc_config c)) = Some (enc_config c)" by (simp add: json_parse_render depth_config)
  then obtain rest where "pvalue (Suc (length (render (enc_config c)))) maxNestingDepth (render (enc_config c)) = Some (enc_config c, rest)"
      "skip_ws rest = []"
    unfolding json_parse_prefix by blast
  then show ?thesis
    using assms no_duplicates_config[of c]
    by (simp add: Decode_def scan_None_iff(1)[symmetric] dec_config_enc del: pvalue.simps render.simps)
qed

text \<open>
  C34. Round trip: the document printed for a configuration whose strings are UTF-8 and whose numbers
  fit into 64 bits is decoded to that configuration, unless it is longer than 2 MiB.
\<close>

theorem decode_printed:
  assumes "config_utf8 c" "length (render (enc_config c)) \<le> MaxInputBytes"
  shows "Decode (Inr (render (enc_config c))) = Inr c"
  using decode_printed_config[OF assms] .

lemma example_topology_ok: "config_utf8 example_topology" "length (render (enc_config example_topology)) \<le> MaxInputBytes"
  by code_simp+

theorem decode_printed_witness:
  "Decode (Inr (render (enc_config example_topology))) = Inr example_topology"
  by (rule decode_printed) (rule example_topology_ok)+

text \<open>
  The command: on a valid topology, printed to standard input or to a file named by the
  \<^verbatim>\<open>-file\<close> flag, it exits with 0 and prints exactly the plan of that topology; on an invalid
  one it exits with 1 and prints no plan.
\<close>

theorem run_plans:
  assumes "config_utf8 c" "length (render (enc_config c)) \<le> MaxInputBytes"
    and "openFile f = Some (Inr (render (enc_config c)))" "f \<noteq> []"
    and "args = [] \<and> input = Inr (render (enc_config c)) \<or> args = [''-file'', f] \<or> args = [''--file='' @ f]"
  shows "run version openFile input (\<lambda>_. True) args =
      (case BuildPlan c of
         Inr plan \<Rightarrow> (0, [PlanPrinted plan])
       | Inl e \<Rightarrow> (1, [Diagnosed (Wrapf ''invalid topology: %v'' [] e)]))"
proof -
  have "\<exists>fs. parse_flag_set run_flags args = Some (fs, []) \<and> flag_string fs ''file'' = (if args = [] then [] else f) \<and>
      \<not> flag_bool fs ''version''"
    using assms(5) by (auto simp: parse_flag_set.simps cut_def run_flags_def set_flag_def flag_string_def flag_bool_def Let_def)
  then show ?thesis
    using assms(3-5) by (auto simp: run_def Let_def decode_printed_config[OF assms(1,2)] split: sum.split)
qed

theorem run_plans_witness:
  "\<exists>plan. run ''v1'' (\<lambda>_. Some (Inr (render (enc_config example_topology)))) (Inl (EnvError ''closed'')) (\<lambda>_. True)
     [''-file'', ''topology.json''] = (0, [PlanPrinted plan])"
proof -
  obtain plan where p: "BuildPlan example_topology = Inr plan" by (rule example_plan)
  have "run ''v1'' (\<lambda>_. Some (Inr (render (enc_config example_topology)))) (Inl (EnvError ''closed'')) (\<lambda>_. True)
      [''-file'', ''topology.json''] = (0, [PlanPrinted plan])"
    by (subst run_plans[OF example_topology_ok, where f = "''topology.json''"]) (simp_all add: p)
  then show ?thesis by blast
qed

definition two_spellings :: string where
  "two_spellings = ''{'' @ render (JStr ''backend'') @ '':'' @ render (JStr ''ipsec'') @ '','' @
     render (JStr ''Backend'') @ '':'' @ render (JStr ''vxlan'') @ ''}''"

text \<open>
  Names are compared exactly by the duplicate check but without regard to case by the decoder: two
  spellings of one field pass the check, and the last one wins.
\<close>

theorem duplicate_check_case_sensitive:
  "Decode (Inr two_spellings) = Inr (zeroTopology\<lparr>c_Backend := ''vxlan''\<rparr>)"
  by code_simp

end
