(* ===== verification/Ipsec_Wf.thy ===== *)
theory Ipsec_Wf
  imports Ipsec_System
begin

text \<open>
  The well-formedness of the overlay object: its fields are maps with distinct keys, and what is
  queued about former local addresses is queued for known hosts only, under addresses that parse
  and with identities that are no patterns. Every operation keeps it, on every branch.
\<close>

definition queue_wf :: "string gomap \<Rightarrow> bool" where
  "queue_wf q \<longleftrightarrow> gomap_ok q \<and> (\<forall>a i. map_of q a = Some i \<longrightarrow> parseIP a \<noteq> [] \<and> \<not> hasPrefix i ''%'')"

definition stale_wf :: "string gomap gomap \<Rightarrow> bool" where
  "stale_wf m \<longleftrightarrow> gomap_ok m \<and> (\<forall>h q. map_of m h = Some q \<longrightarrow> q \<noteq> [] \<and> queue_wf q)"

definition overlay_wf :: "Overlay \<Rightarrow> bool" where
  "overlay_wf ov \<longleftrightarrow> gomap_ok (o_keyAttempt ov) \<and> gomap_ok (o_hostAttempt ov) \<and> gomap_ok (o_initiating ov) \<and>
     gomap_ok (o_keys ov) \<and> gomap_ok (o_hosts ov) \<and> stale_wf (o_staleLocal ov) \<and>
     (\<forall>h. map_of (o_staleLocal ov) h \<noteq> None \<longrightarrow> map_of (o_hosts ov) h \<noteq> None)"

named_theorems wf_ops \<open>operations that keep the overlay well-formed\<close>

definition wf_op :: "(Overlay \<Rightarrow> 'w \<Rightarrow> 'e \<times> Overlay \<times> 'w) \<Rightarrow> bool" where
  "wf_op f \<longleftrightarrow> (\<forall>ov w. overlay_wf ov \<longrightarrow> overlay_wf (fst (snd (f ov w))))"

lemma wf_opI: "(\<And>ov w e ov' w'. overlay_wf ov \<Longrightarrow> f ov w = (e, ov', w') \<Longrightarrow> overlay_wf ov') \<Longrightarrow> wf_op f"
  unfolding wf_op_def by (metis prod.collapse)

lemma wf_opD: "wf_op f \<Longrightarrow> overlay_wf ov \<Longrightarrow> f ov w = (e, ov', w') \<Longrightarrow> overlay_wf ov'"
  unfolding wf_op_def by (metis fst_conv snd_conv)

section \<open>The queue of former addresses\<close>

lemma stale_wf_Nil [simp]: "stale_wf []"
  by (simp add: stale_wf_def)

lemma stale_wf_mdel: "stale_wf m \<Longrightarrow> stale_wf (mdel h m)"
  by (auto simp: stale_wf_def split: if_splits)

lemma map_of_filter_keys: "map_of (filter (\<lambda>(k, _). P k) m) k = (if P k then map_of m k else None)"
  by (induction m) auto

lemma stale_wf_filter: "stale_wf m \<Longrightarrow> stale_wf (filter (\<lambda>(h, _). P h) m)"
  by (simp add: stale_wf_def map_of_filter_keys gomap_ok_def distinct_map_filter)

lemma queue_wf_mput: "queue_wf q \<Longrightarrow> parseIP a \<noteq> [] \<Longrightarrow> \<not> hasPrefix i ''%'' \<Longrightarrow> queue_wf (mput a i q)"
  by (auto simp: queue_wf_def split: if_splits)

lemma stale_wf_mput: "stale_wf m \<Longrightarrow> queue_wf q \<Longrightarrow> q \<noteq> [] \<Longrightarrow> stale_wf (mput h q m)"
  by (auto simp: stale_wf_def split: if_splits)

lemma queue_stale_wf:
  assumes "stale_wf m"
  shows "stale_wf (queue_stale h old new m)" "map_of (queue_stale h old new m) h' \<noteq> None \<Longrightarrow> h' = h \<or> map_of m h' \<noteq> None"
proof -
  obtain previous e1 current e2 where u: "unmarshal dec_identity zeroIdentity old = (previous, e1)"
    "unmarshal dec_identity zeroIdentity new = (current, e2)" by (metis prod.exhaust)
  have q: "queue_wf (mgetd [] m h)"
    using assms by (auto simp: stale_wf_def queue_wf_def mgetd_def split: option.split)
  have "stale_wf (mput h (mput (LocalAgentIP previous) (previous_id previous) (mgetd [] m h)) m)"
    if "transition_proof h previous current" "\<not> hasPrefix (previous_id previous) ''%''"
    using assms q that by (intro stale_wf_mput queue_wf_mput) (simp_all add: transition_proof_def mput_def update_nonempty)
  then show "stale_wf (queue_stale h old new m)" using assms by (simp add: queue_stale_def u)
  show "map_of (queue_stale h old new m) h' \<noteq> None \<Longrightarrow> h' = h \<or> map_of m h' \<noteq> None"
    by (auto simp: queue_stale_def u split: if_splits)
qed

section \<open>Operations\<close>

lemma same_but_handle_wf: "same_but_handle ov ov' \<Longrightarrow> overlay_wf ov \<Longrightarrow> overlay_wf ov'"
  by (cases ov; cases ov') (simp add: same_but_handle_def overlay_wf_def)

lemma loadSharedKey_wf [wf_ops]: "wf_op (loadSharedKey env a)"
  by (rule wf_opI) (auto simp: loadSharedKey_def Let_def overlay_wf_def split: if_splits prod.splits option.splits)

lemma loadHostConnection_wf:
  assumes "loadHostConnection env h conf fp hosts stale w = (e, hosts', stale', w')"
    "gomap_ok hosts" "stale_wf stale" "\<forall>h. map_of stale h \<noteq> None \<longrightarrow> map_of hosts h \<noteq> None"
  shows "gomap_ok hosts' \<and> stale_wf stale' \<and> (\<forall>h. map_of stale' h \<noteq> None \<longrightarrow> map_of hosts' h \<noteq> None)"
proof (cases "hosts' = hosts \<and> stale' = stale")
  case False
  then have "hosts' = mput h fp hosts" "stale' = queue_stale h (mgetd [] hosts h) fp stale"
    using assms(1) by (auto simp: loadHostConnection_def split: if_splits prod.splits option.splits)
  then show ?thesis using queue_stale_wf[OF assms(3), of h "mgetd [] hosts h" fp] assms(2,4) by auto
qed (use assms in simp)

lemma addHostConnection_wf: "wf_op (addHostConnection env db e)"
proof (rule wf_opI)
  fix ov w err ov' w'
  assume ov: "overlay_wf ov" and r: "addHostConnection env db e ov w = (err, ov', w')"
  let ?ov1 = "ov\<lparr>o_hostAttempt := mput (HostIpAddress e) True (o_hostAttempt ov)\<rparr>"
  have ov1: "overlay_wf ?ov1" using ov by (simp add: overlay_wf_def)
  have "ov' = ?ov1 \<or> (\<exists>conf fp e' w1 hosts' stale' w2.
      loadHostConnection env (HostIpAddress e) conf fp (o_hosts ?ov1) (o_staleLocal ?ov1) w1 = (e', hosts', stale', w2) \<and>
      ov' = ?ov1\<lparr>o_hosts := hosts', o_staleLocal := stale'\<rparr>)"
    using r by (auto simp: addHostConnection_def Let_def split: sum.splits prod.splits option.splits if_splits) blast
  then show "overlay_wf ov'"
    using ov1 loadHostConnection_wf[where hosts = "o_hosts ?ov1" and stale = "o_staleLocal ?ov1"] by (fastforce simp: overlay_wf_def)
qed

lemma addHost_wf [wf_ops]: "wf_op (addHost env db e)"
proof (rule wf_opI)
  fix ov w err ov' w'
  assume ov: "overlay_wf ov" and r: "addHost env db e ov w = (err, ov', w')"
  obtain e1 ov1 w1 where l: "loadSharedKey env (HostIpAddress e) ov w = (e1, ov1, w1)" by (metis prod_cases3)
  note wf_opD[OF loadSharedKey_wf ov l]
  then show "overlay_wf ov'" using r wf_opD[OF addHostConnection_wf, of ov1 env db e w1] by (cases e1) (auto simp: addHost_def l)
qed

lemma removeHosts_wf [wf_ops]: "wf_op (removeHosts env ro)"
proof (rule wf_opI)
  fix ov w err ov' w'
  assume ov: "overlay_wf ov" and r: "removeHosts env ro ov w = (err, ov', w')"
  have st: "overlay_wf (fst (snd (removeHosts_step env s x)))" if "overlay_wf (fst (snd s))" for s x
    using that stale_wf_mdel by (cases s) (auto simp: removeHosts_step_def Let_def overlay_wf_def split: if_splits prod.splits option.splits)
  have "overlay_wf (fst (snd (foldl (removeHosts_step env) (None, ov, w) xs)))" for xs
    by (rule foldl_preserves[where P = "\<lambda>s. overlay_wf (fst (snd s))"]) (simp_all add: ov st)
  then show "overlay_wf ov'" using r by (metis removeHosts_def fst_conv snd_conv)
qed

lemma reap_phase_wf [wf_ops]: "wf_op (reap_phase env db hosts)"
proof (rule wf_opI)
  fix ov w err ov' w'
  assume ov: "overlay_wf ov" and r: "reap_phase env db hosts ov w = (err, ov', w')"
  have "ov' = ov \<or> ov' = ov\<lparr>o_staleLocal := filter (\<lambda>(h, _). \<not> mtest hosts h) (o_staleLocal ov)\<rparr>"
    using r by (auto simp: reap_phase_def reapStaleLocalSAs_def split: if_splits prod.splits option.splits sum.splits)
  then show "overlay_wf ov'"
    using ov stale_wf_filter[of "o_staleLocal ov" "\<lambda>h. \<not> mtest hosts h"] map_of_filter_keys[of "\<lambda>h. \<not> mtest hosts h" "o_staleLocal ov"]
    by (auto simp: overlay_wf_def split: if_splits)
qed

lemma policy_phases_wf [wf_ops]:
  "wf_op (deletePolicies env ro E)" "wf_op (addPolicies env ro A)" "wf_op (syncHostRoutes env ro hr)"
  "wf_op (\<lambda>ov w. case f w of (err, w') \<Rightarrow> (err, ov, w'))"
  by (rule wf_opI, (erule (1) deletePolicies_same[THEN same_but_handle_wf, rotated] addPolicies_same[THEN same_but_handle_wf, rotated]
        syncHostRoutes_same[THEN same_but_handle_wf, rotated] | simp split: prod.splits))+

lemma loadConns_wf [wf_ops]: "wf_op (loadConns env)"
proof -
  have "gomap_ok (foldl (\<lambda>m (k, _). if hasPrefix k ''conn-'' then mput (trimPrefix k ''conn-'') [] m else m) m xs)" if "gomap_ok m" for m xs
    by (rule foldl_preserves) (use that in \<open>auto split: prod.split\<close>)
  then show ?thesis
    by (intro wf_opI) (auto simp: loadConns_def overlay_wf_def split: prod.splits option.splits sum.splits)
qed

lemma schedule_wf:
  assumes "overlay_wf ov" "scheduleInitiatesLocked ro hosts ov = (targets, ov')"
  shows "overlay_wf ov'"
proof -
  have "gomap_ok (foldl (\<lambda>m h. mput h True m) m xs)" if "gomap_ok m" for m and xs :: "string list"
    by (rule foldl_preserves) (use that in auto)
  then show ?thesis using assms by (auto simp: scheduleInitiatesLocked_def Let_def overlay_wf_def)
qed

section \<open>Configuration and steps\<close>

lemma phase_wf: "wf_op f \<Longrightarrow> overlay_wf (fst (snd s)) \<Longrightarrow> overlay_wf (fst (snd (phase f s)))"
  unfolding phase_def wf_op_def by (cases s) (simp split: option.split)

lemma conf_call_wf: "wf_op f \<Longrightarrow> overlay_wf (cf_overlay c) \<Longrightarrow> overlay_wf (cf_overlay (snd (conf_call f c)))"
  unfolding conf_call_def wf_op_def by (simp split: prod.split) (metis fst_conv snd_conv)

lemma configure_entry_wf: "overlay_wf (cf_overlay c) \<Longrightarrow> overlay_wf (cf_overlay (configure_entry env db c e))"
proof -
  assume c: "overlay_wf (cf_overlay c)"
  have 1: "overlay_wf (cf_overlay (with_key env e c))"
    using c conf_call_wf[OF loadSharedKey_wf c] by (simp add: with_key_def)
  have 2: "overlay_wf (cf_overlay (with_host env db e c'))" if "overlay_wf (cf_overlay c')" for c'
    using that conf_call_wf[OF addHost_wf that, of env db e] by (simp add: with_host_def split: prod.split) (metis snd_conv)
  have 3: "cf_overlay (with_rules db e c') = cf_overlay c'" for c'
    by (simp add: with_rules_def split: prod.split)
  show ?thesis using 1 2 by (simp add: configure_entry_eq Let_def 3)
qed

lemma configure_wf:
  assumes "overlay_wf ov" "configure env ro db ov w = (err, targets, ov', w')"
  shows "overlay_wf ov'"
proof -
  have l: "overlay_wf ov2" if ov1: "overlay_wf ov1" and r: "configure_loaded env ro db ov1 w1 = (err, targets, ov2, w2)" for ov1 w1 ov2 w2
  proof -
    let ?ov = "ov1\<lparr>o_keyAttempt := [], o_hostAttempt := []\<rparr>"
    have s: "overlay_wf ?ov" using ov1 by (simp add: overlay_wf_def)
    obtain rr ovg wg where g: "getRules env ?ov w1 = (rr, ovg, wg)" by (metis prod_cases3)
    have st: "overlay_wf (cf_overlay (configure_start env ?ov w1))"
      unfolding configure_start_def g Let_def prod.case
      by (rule conf_call_wf[OF loadSharedKey_wf]) (simp add: same_but_handle_wf[OF getRules_same[OF g] s])
    define c where "c = foldl (configure_entry env db) (configure_start env ?ov w1) (v_Entries db)"
    have c: "overlay_wf (cf_overlay c)"
      unfolding c_def by (rule foldl_preserves[where P = "\<lambda>c. overlay_wf (cf_overlay c)", OF st]) (rule configure_entry_wf)
    have p: "overlay_wf (fst (snd (later_phases env ro db c)))"
      unfolding later_phases_def by (intro phase_wf wf_ops) (simp add: c)
    show ?thesis by (cases rule: configure_loaded_cases[OF r c_def]) (use p schedule_wf in auto)
  qed
  obtain e t w1 where r: "Templates_Reload env (o_templates ov) w = (e, t, w1)" by (metis prod_cases3)
  have "overlay_wf (ov\<lparr>o_templates := t\<rparr>)" using assms(1) by (simp add: overlay_wf_def)
  then show ?thesis using assms(2) l[of "ov\<lparr>o_templates := t\<rparr>" w1] by (cases e) (auto simp: configure_def r)
qed

lemma ipsec_step_wf: "ipsec_step env s s' \<Longrightarrow> overlay_wf (sys_overlay s) \<Longrightarrow> overlay_wf (sys_overlay s')"
proof (induction rule: ipsec_step.induct)
  case (configured ro db s err targets ov' w')
  then show ?case using configure_wf by simp
next
  case (healthScheduled ro missing s targets ov')
  then show ?case using schedule_wf by simp
next
  case (connsLoaded s err ov' w')
  then show ?case using wf_opD[OF loadConns_wf] by simp
qed (simp_all add: overlay_wf_def markDone_def)

lemma reachable_wf:
  assumes "(ipsec_step env)\<^sup>*\<^sup>* \<lparr>sys_overlay = (NewOverlay dir)\<lparr>o_NetnsPath := np, o_SyncHostRoutes := sr,
      o_UseHostTunnelSource := ht, o_Blacklist := bl\<rparr>, sys_jobs = [], sys_world = w\<rparr> s"
  shows "overlay_wf (sys_overlay s)"
  using assms
proof (induction rule: rtranclp_induct)
  case base
  then show ?case by (simp add: overlay_wf_def NewOverlay_def)
qed (rule ipsec_step_wf)

text \<open>
  C9. The overlay object is well-formed in every state that any interleaving of configurations,
  health checks, reloads of connections and goroutines can reach from a new overlay: its maps have
  distinct keys; a former local address is queued only for a host the overlay knows, is an address
  that parses, and its identity is no pattern.
\<close>

theorem overlay_well_formed:
  assumes "(ipsec_step env)\<^sup>*\<^sup>* \<lparr>sys_overlay = (NewOverlay dir)\<lparr>o_NetnsPath := np, o_SyncHostRoutes := sr,
      o_UseHostTunnelSource := ht, o_Blacklist := bl\<rparr>, sys_jobs = [], sys_world = w\<rparr> s"
  shows "overlay_wf (sys_overlay s)"
  by (rule reachable_wf[OF assms])

theorem overlay_well_formed_witness:
  "\<exists>s. (ipsec_step example_env)\<^sup>*\<^sup>* \<lparr>sys_overlay = NewOverlay ''/etc/ipsec'', sys_jobs = [], sys_world = example_stale\<rparr> s \<and>
     sys_jobs s \<noteq> [] \<and> overlay_wf (sys_overlay s)"
proof -
  let ?ov = "(NewOverlay ''/etc/ipsec'')\<lparr>o_NetnsPath := [], o_SyncHostRoutes := False, o_UseHostTunnelSource := False, o_Blacklist := []\<rparr>"
    and ?m = "[(''192.0.2.20'', True)]"
  let ?s = "\<lparr>sys_overlay = ?ov, sys_jobs = [], sys_world = example_stale\<rparr>"
  have ov: "?ov = NewOverlay ''/etc/ipsec''" by (simp add: NewOverlay_def)
  obtain ts ov' where sch: "scheduleInitiatesLocked (\<lambda>_ ks. ks) ?m (sys_overlay ?s) = (ts, ov')" by (metis prod.exhaust)
  have t: "fst (scheduleInitiatesLocked (\<lambda>_ ks. ks) ?m ?ov) = [''192.0.2.20'']" by code_simp
  have k: "valid_order (\<lambda>_ ks. ks)" "gomap_ok ?m" by (simp_all add: gomap_ok_def)
  let ?s' = "?s\<lparr>sys_overlay := ov', sys_jobs := sys_jobs ?s @ spawn ts\<rparr>"
  have st: "(ipsec_step example_env)\<^sup>*\<^sup>* ?s ?s'" using ipsec_step.healthScheduled[OF k sch] by blast
  show ?thesis using overlay_well_formed[OF st] st sch t unfolding ov by (intro exI[of _ ?s']) (auto simp: spawn_def)
qed

end
