(* ===== verification/Daemon_System.thy ===== *)
theory Daemon_System
  imports Daemon Ipsec_Wf
begin

text \<open>
  The daemon as a whole, with the IPsec backend: a store that is reloaded, the overlay with its
  goroutines and the kernel. The locale \<open>reloadable_store\<close> is what the backend relies on in a store
  beside its interface; both stores are interpretations of it. The steps are requests over HTTP,
  notifications of changes, ticks of the health monitor, and, more finely, reloads of the store
  and the locked sections of the backend in any order.
\<close>

section \<open>What the backends read of a store\<close>

definition simple_view :: "Simple \<Rightarrow> store_view" where
  "simple_view s = \<lparr>v_LocalHostIp = Simple_LocalHostIpAddress s, v_LocalIp = Simple_LocalIpAddress s,
     v_Entries = Simple_Entries s, v_PeerEntries = Simple_PeerEntriesMap s\<rparr>"

definition metadata_view :: "MetadataStore \<Rightarrow> store_view" where
  "metadata_view ms = \<lparr>v_LocalHostIp = MS_LocalHostIpAddress ms, v_LocalIp = MS_LocalIpAddress ms,
     v_Entries = MS_Entries ms, v_PeerEntries = MS_PeerEntriesMap ms\<rparr>"

section \<open>Stores that are reloaded\<close>

text \<open>The argument of a reload is what it finds outside: files, or the answers of the metadata service.\<close>

locale reloadable_store =
  overlay_store inv local_host is_remote all_entries remote_map nonpeer_map peer_map
  for inv :: "'s \<Rightarrow> bool" and local_host is_remote all_entries remote_map nonpeer_map peer_map +
  fixes reload :: "'a \<Rightarrow> 's \<Rightarrow> go_error option \<times> 's"
    and view :: "'s \<Rightarrow> store_view"
  assumes reload_inv: "inv s \<Longrightarrow> inv (snd (reload x s))"
    and view_host: "v_LocalHostIp (view s) = local_host s"
    and view_entries: "v_Entries (view s) = all_entries s"
begin

definition elsewhere_entries :: "'s \<Rightarrow> entry list" where
  "elsewhere_entries s = filter (\<lambda>e. HostIpAddress e \<noteq> local_host s) (all_entries s)"

lemma remote_entries_view: "remote_entries (view s) (v_Entries (view s)) = elsewhere_entries s"
  by (simp add: remote_entries_def view_host view_entries elsewhere_entries_def)

text \<open>After a reload without an error, tunnels exist for exactly the entries on other hosts.\<close>

lemma reload_tunnels:
  assumes k: "xfrm_kernel env table" "policy_frame env table" "valid_order ro"
    and t: "inj_on selector (table w)" "inj_on toKey {p \<in> table w. managed_dir p}"
    and r: "Overlay_Reload env ro (reload x) view d ov w = (None, targets, d', ov', w')" and i: "inv d"
  shows "inv d'" "reload x d = (None, d')"
    "managed_keys (table w') = toKey ` set (rules_list (localTunnelAddress ov (view d')) (elsewhere_entries d'))"
    "dom (map_of (o_hosts ov')) = HostIpAddress ` set (elsewhere_entries d')"
    "e \<in> set (elsewhere_entries d') \<Longrightarrow> \<exists>ps. entry_policies (localTunnelAddress ov (view d')) e = Inr ps"
proof -
  obtain content w1 where c: "reload x d = (None, d')"
      "env_ReadFile env (path_join (tm_ConfigDir (o_templates ov)) pskFile) w = (Inr content, w1)"
      "configure env ro (view d') (ov\<lparr>o_psk := trimSpace content\<rparr>) w1 = (None, targets, ov', w')"
    using r by (auto simp: Overlay_Reload_def split: prod.splits option.splits sum.splits)
  show "reload x d = (None, d')" by (rule c(1))
  show "inv d'" using reload_inv[OF i, of x] c(1) by simp
  have w1: "table w1 = table w" using policy_frameD(9)[OF k(2) c(2)] .
  have la: "localTunnelAddress (ov\<lparr>o_psk := trimSpace content\<rparr>) (view d') = localTunnelAddress ov (view d')"
    by (simp add: localTunnelAddress_def)
  show "managed_keys (table w') = toKey ` set (rules_list (localTunnelAddress ov (view d')) (elsewhere_entries d'))"
    using configured_policies[OF k _ _ c(3), unfolded w1 la remote_entries_view] t by simp
  show "dom (map_of (o_hosts ov')) = HostIpAddress ` set (elsewhere_entries d')"
    using configured_hosts[OF k(3) c(3)] by (auto simp: remote_hosts_def remote_entries_view dom_def)
  show "\<exists>ps. entry_policies (localTunnelAddress ov (view d')) e = Inr ps" if "e \<in> set (elsewhere_entries d')"
    using configured_entries[OF c(3)] that by (simp add: remote_entries_view la)
qed

text \<open>So the ARP proxy draws traffic only to addresses for which there are policies and a connection.\<close>

lemma proxied_is_tunnelled:
  assumes k: "xfrm_kernel env table" "policy_frame env table" "valid_order ro"
    and t: "inj_on selector (table w)" "inj_on toKey {p \<in> table w. managed_dir p}"
    and r: "Overlay_Reload env ro (reload x) view d ov w = (None, targets, d', ov', w')" and i: "inv d"
    and a: "is_remote d' a"
  shows "\<exists>e \<in> set (elsewhere_entries d'). ipNoCidr e = a \<and> HostIpAddress e \<in> dom (map_of (o_hosts ov')) \<and>
    (\<exists>ps. entry_policies (localTunnelAddress ov (view d')) e = Inr ps \<and> toKey ` set ps \<subseteq> managed_keys (table w'))"
proof -
  note f = reload_tunnels[OF k t r i]
  obtain e where e: "e \<in> set (all_entries d')" "ipNoCidr e = a" "HostIpAddress e \<noteq> local_host d'"
    using a is_remote_law[OF f(1)] by blast
  then have m: "e \<in> set (elsewhere_entries d')" by (simp add: elsewhere_entries_def)
  obtain ps where ps: "entry_policies (localTunnelAddress ov (view d')) e = Inr ps" using f(5)[OF m] by blast
  have "set ps \<subseteq> set (rules_list (localTunnelAddress ov (view d')) (elsewhere_entries d'))"
    using m ps by (force simp: rules_list_def)
  then have "toKey ` set ps \<subseteq> managed_keys (table w')" unfolding f(3) by (rule image_mono)
  moreover have "HostIpAddress e \<in> dom (map_of (o_hosts ov'))" unfolding f(4) using m by simp
  ultimately show ?thesis using e(2) m ps by (intro bexI[of _ e] conjI exI[of _ ps])
qed

end

interpretation simple_reloads: reloadable_store simple_inv Simple_LocalHostIpAddress Simple_IsRemote Simple_Entries
  Simple_RemoteEntriesMap Simple_RemoteNonPeerEntriesMap Simple_PeerEntriesMap Simple_Reload simple_view
  by unfold_locales (simp_all add: Simple_Reload_inv simple_view_def)

interpretation metadata_reloads: reloadable_store ms_inv MS_LocalHostIpAddress MS_IsRemote MS_Entries
  MS_RemoteEntriesMap MS_RemoteNonPeerEntriesMap MS_PeerEntriesMap MetadataStore_Reload metadata_view
  by unfold_locales (simp_all add: MetadataStore_Reload_inv metadata_view_def)

section \<open>The backends behind their interface\<close>

text \<open>
  The interface \<^verbatim>\<open>backend.Backend\<close>: a backend is started once and reloaded at any time. A fatal error
  of \<^verbatim>\<open>Start\<close> ends the process and is \<open>Err\<close>. The goroutines that \<^verbatim>\<open>Start\<close> launches act through the
  steps below.
\<close>

record 's Backend =
  Backend_Start :: "bool \<Rightarrow> string \<Rightarrow> 's \<Rightarrow> 's outcome"
  Backend_Reload :: "'s \<Rightarrow> (go_error option \<times> 's) outcome"

definition ipsec_Backend ::
  "'w ipsec_env \<Rightarrow> map_order \<Rightarrow> ('d \<Rightarrow> go_error option \<times> 'd) \<Rightarrow> ('d \<Rightarrow> store_view) \<Rightarrow> ('d, 'w) ipsec_state Backend" where
  "ipsec_Backend env ro sreload view =
     \<lparr>Backend_Start = (\<lambda>launch logFile (d, ov, jobs, w).
        case Overlay_Start env launch logFile ov w of
          (_, Some e, _, _) \<Rightarrow> Err e
        | (_, None, ov', w') \<Rightarrow> Ok (d, ov', jobs, w')),
      Backend_Reload = ipsec_Reload env ro sreload view\<rparr>"

definition vxlan_Backend ::
  "'w vx_env \<Rightarrow> map_order \<Rightarrow> ('d \<Rightarrow> go_error option \<times> 'd) \<Rightarrow> ('d \<Rightarrow> vx_db) \<Rightarrow> (entry gomap \<Rightarrow> 'd \<Rightarrow> 'd) \<Rightarrow> ('d, 'w) vxlan_state Backend" where
  "vxlan_Backend env ro sreload view setPeers =
     \<lparr>Backend_Start = (\<lambda>launch logFile (d, ov, w).
        case vx_Start env ro (view d) ov w of
          Ok (db', ov', w') \<Rightarrow> Ok (setPeers (d_PeerEntries db') d, ov', w')
        | Err e \<Rightarrow> Err e
        | Panic m \<Rightarrow> Panic m),
      Backend_Reload = vxlan_Reload env ro sreload view setPeers\<rparr>"

text \<open>
  How \<^verbatim>\<open>appMain\<close> brings a backend up: it is started, then the ARP proxy and the HTTP server run, whose
  requests (\<open>other\<close>) may come first, and then it is reloaded; an error of this reload ends the daemon.
\<close>

definition bring_up :: "'s Backend \<Rightarrow> bool \<Rightarrow> string \<Rightarrow> ('s \<Rightarrow> 's) \<Rightarrow> 's \<Rightarrow> 's outcome" where
  "bring_up b launch logFile other s =
     (case Backend_Start b launch logFile s of
        Err e \<Rightarrow> Err e
      | Panic m \<Rightarrow> Panic m
      | Ok s1 \<Rightarrow>
          (case Backend_Reload b (other s1) of
             Ok (None, s2) \<Rightarrow> Ok s2 | Ok (Some e, _) \<Rightarrow> Err e | Err e \<Rightarrow> Err e | Panic m \<Rightarrow> Panic m))"

section \<open>The daemon's steps\<close>

abbreviation sys_of :: "('d, 'w) ipsec_state \<Rightarrow> 'w ipsec_sys" where
  "sys_of s \<equiv> (case s of (d, ov, jobs, w) \<Rightarrow> \<lparr>sys_overlay = ov, sys_jobs = jobs, sys_world = w\<rparr>)"

inductive daemon_step ::
  "'w ipsec_env \<Rightarrow> ('a \<Rightarrow> 'd \<Rightarrow> go_error option \<times> 'd) \<Rightarrow> ('d \<Rightarrow> store_view) \<Rightarrow> ('d, 'w) ipsec_state \<Rightarrow> ('d, 'w) ipsec_state \<Rightarrow> bool"
  for env reload view where
  requested: "\<lbrakk>valid_order ro; srv_serve (ipsec_Reload env ro (reload x) view) path s = Ok (reply, s')\<rbrakk> \<Longrightarrow> daemon_step env reload view s s'"
| notified: "\<lbrakk>valid_order ro; OnChangeHandler (ipsec_Reload env ro (reload x) view) s = Ok s'\<rbrakk> \<Longrightarrow> daemon_step env reload view s s'"
| ticked: "\<lbrakk>valid_order ro; sys_of s' = health_tick env ro (view (fst s)) (sys_of s); fst s' = fst s\<rbrakk> \<Longrightarrow> daemon_step env reload view s s'"
| store_reloaded: "daemon_step env reload view (d, s) (snd (reload x d), s)"
| backend_stepped: "ipsec_step env (sys_of s) (sys_of s') \<Longrightarrow> fst s' = fst s \<Longrightarrow> daemon_step env reload view s s'"

text \<open>A reload of the backend is a reload of the store followed by steps of the backend.\<close>

lemma reload_steps:
  assumes "valid_order ro" "ipsec_Reload env ro sreload view s = Ok (err, s')"
  shows "fst s' = snd (sreload (fst s)) \<and> (ipsec_step env)\<^sup>*\<^sup>* (sys_of s) (sys_of s')"
proof -
  obtain d ov jobs w where s: "s = (d, ov, jobs, w)" by (metis prod_cases4)
  obtain e1 targets d1 ov1 w2 where o: "Overlay_Reload env ro sreload view d ov w = (e1, targets, d1, ov1, w2)" by (metis prod_cases5)
  have s': "s' = (d1, ov1, jobs @ spawn targets, w2)" using assms(2) by (simp add: ipsec_Reload_def s o)
  obtain e2 d2 where l: "sreload d = (e2, d2)" by (metis prod.exhaust)
  obtain c w1 where f: "env_ReadFile env (path_join (tm_ConfigDir (o_templates ov)) pskFile) w = (c, w1)" by (metis prod.exhaust)
  let ?s0 = "\<lparr>sys_overlay = ov, sys_jobs = jobs, sys_world = w\<rparr>" and ?s1 = "\<lparr>sys_overlay = ov, sys_jobs = jobs, sys_world = w1\<rparr>"
  have st1: "ipsec_step env ?s0 ?s1" using ipsec_step.worldChanged[of env ?s0 w1] by simp
  consider "e2 \<noteq> None" | e where "e2 = None" "c = Inl e" | content where "e2 = None" "c = Inr content" by (cases e2; cases c) auto
  then show ?thesis
  proof cases
    case 1
    then show ?thesis using o by (auto simp: Overlay_Reload_def l s s' spawn_def)
  next
    case 2
    then have "d1 = d2 \<and> ov1 = ov \<and> targets = [] \<and> w2 = w1" using o by (simp add: Overlay_Reload_def l f)
    then show ?thesis using st1 by (auto simp: s s' l spawn_def)
  next
    case 3
    let ?ov = "ov\<lparr>o_psk := trimSpace content\<rparr>"
    have d: "d1 = d2" "configure env ro (view d2) ?ov w1 = (e1, targets, ov1, w2)"
      using o 3 by (simp_all add: Overlay_Reload_def l f split: prod.splits)
    have st2: "ipsec_step env ?s1 (?s1\<lparr>sys_overlay := ?ov\<rparr>)" using ipsec_step.keyRead[of env ?s1 "trimSpace content"] by simp
    have st3: "ipsec_step env (?s1\<lparr>sys_overlay := ?ov\<rparr>) \<lparr>sys_overlay = ov1, sys_jobs = jobs @ spawn targets, sys_world = w2\<rparr>"
      using ipsec_step.configured[OF assms(1), of env "view d2" "?s1\<lparr>sys_overlay := ?ov\<rparr>"] d(2) by simp
    show ?thesis using st1 st2 st3 by (simp add: s s' l d(1))
  qed
qed

lemma served_steps:
  assumes "srv_serve reload path s = Ok (reply, s')"
  shows "s' = s \<or> (\<exists>err. reload s = Ok (err, s'))"
  using assms
  by (auto simp: srv_serve_def srv_ping_def srv_reload_def split: routing.splits srv_handler.splits outcome.splits prod.splits option.splits)

text \<open>Bringing up the IPsec backend consists of steps of the daemon.\<close>

lemma started_steps:
  assumes "Backend_Start (ipsec_Backend env ro sreload view) launch logFile s = Ok s'"
  shows "daemon_step env reload view s s'"
proof -
  obtain d ov jobs w where s: "s = (d, ov, jobs, w)" by (metis prod_cases4)
  obtain ov' w' where l: "loadConns env ov w = (None, ov', w')" and s': "s' = (d, ov', jobs, w')"
    using assms by (auto simp: ipsec_Backend_def s Overlay_Start_def Let_def split: prod.splits option.splits)
  show ?thesis
    using ipsec_step.connsLoaded[of env "sys_of s" None ov' w'] l
    by (intro daemon_step.backend_stepped) (simp_all add: s s')
qed

lemma bring_up_steps:
  assumes "valid_order ro" "\<And>s. (daemon_step env reload view)\<^sup>*\<^sup>* s (other s)"
    and "bring_up (ipsec_Backend env ro (reload x) view) launch logFile other s = Ok s'"
  shows "(daemon_step env reload view)\<^sup>*\<^sup>* s s'"
proof -
  obtain s1 where s1: "Backend_Start (ipsec_Backend env ro (reload x) view) launch logFile s = Ok s1"
      "ipsec_Reload env ro (reload x) view (other s1) = Ok (None, s')"
    using assms(3) by (auto simp: bring_up_def ipsec_Backend_def split: outcome.splits option.splits)
  have "daemon_step env reload view (other s1) s'"
    by (rule daemon_step.notified[where x = x, OF assms(1)]) (simp add: OnChangeHandler_def s1(2))
  with started_steps[OF s1(1)] assms(2)[of s1] show ?thesis
    by (meson converse_rtranclp_into_rtranclp rtranclp.rtrancl_into_rtrancl)
qed

context reloadable_store
begin

lemma daemon_step_inv:
  assumes "daemon_step env reload view s s'" "inv (fst s)"
  shows "inv (fst s') \<and> (ipsec_step env)\<^sup>*\<^sup>* (sys_of s) (sys_of s')"
  using assms
proof (induction rule: daemon_step.induct)
  case (requested ro x path s reply s')
  from served_steps[OF requested(2)] show ?case
  proof
    assume "\<exists>err. ipsec_Reload env ro (reload x) view s = Ok (err, s')"
    then obtain err where "ipsec_Reload env ro (reload x) view s = Ok (err, s')" ..
    from reload_steps[OF requested(1) this] show ?thesis using reload_inv[OF requested(3), of x] by simp
  qed (use requested in simp)
next
  case (notified ro x s s')
  then obtain err where "ipsec_Reload env ro (reload x) view s = Ok (err, s')"
    by (auto simp: OnChangeHandler_def split: outcome.splits prod.splits)
  from reload_steps[OF notified(1) this] show ?case using reload_inv[OF notified(3), of x] by simp
next
  case (ticked ro s' s)
  then show ?case using health_tick_steps[OF ticked(1), of env "sys_of s" "view (fst s)"] by simp
next
  case (store_reloaded d s x)
  then show ?case using reload_inv by (cases s) simp
next
  case (backend_stepped s s')
  then show ?case by simp
qed

lemma daemon_inv:
  assumes "(daemon_step env reload view)\<^sup>*\<^sup>* s s'" "inv (fst s)"
  shows "inv (fst s') \<and> (ipsec_step env)\<^sup>*\<^sup>* (sys_of s) (sys_of s')"
  using assms
proof (induction rule: rtranclp_induct)
  case (step y z)
  then show ?case using daemon_step_inv[OF step(2)] by (auto intro: rtranclp_trans)
qed simp

end

end
