(* ===== verification/Vxlan_Kernel.thy ===== *)
theory Vxlan_Kernel
  imports Vxlan_Overlay
begin

text \<open>
  Facts about the operations of the VXLAN backend: the difference of two entry maps, the MAC
  address of an overlay address, and what adding and deleting one entry does to the kernel's
  tables, under the documented behaviour of netlink.
\<close>

section \<open>Differences\<close>

lemma diff_fold:
  assumes "distinct (map fst xs)" "foldl diff_step (tmp, d) xs = (tmp', d')"
  shows "map_of tmp' ip = (if map_of xs ip = None then map_of tmp ip else None) \<and>
    map_of (toAdd d') ip = (if map_of xs ip \<noteq> None \<and> map_of tmp ip = None then map_of xs ip else map_of (toAdd d) ip) \<and>
    map_of (toUpd d') ip = (if map_of xs ip \<noteq> None \<and> map_of tmp ip \<noteq> None \<and> map_of tmp ip \<noteq> map_of xs ip
       then map_of xs ip else map_of (toUpd d) ip) \<and>
    map_of (noop d') ip = (if map_of xs ip \<noteq> None \<and> map_of tmp ip = map_of xs ip
       then map_of xs ip else map_of (noop d) ip) \<and>
    (gomap_ok tmp \<longrightarrow> gomap_ok tmp') \<and> (gomap_ok (toAdd d) \<longrightarrow> gomap_ok (toAdd d')) \<and>
    (gomap_ok (toUpd d) \<longrightarrow> gomap_ok (toUpd d')) \<and> (gomap_ok (noop d) \<longrightarrow> gomap_ok (noop d'))"
  using assms
proof (induction xs arbitrary: tmp d)
  case (Cons x xs)
  obtain k e where x: "x = (k, e)" by (cases x)
  obtain tmp1 d1 where s: "diff_step (tmp, d) (k, e) = (tmp1, d1)" by (metis prod.exhaust)
  have k: "map_of xs k = None" using Cons.prems(1) by (simp add: x map_of_eq_None_iff)
  have "foldl diff_step (tmp1, d1) xs = (tmp', d')" "distinct (map fst xs)" using Cons.prems by (simp_all add: x s)
  note ih = Cons.IH[OF this(2,1)]
  show ?case
  proof (cases "map_of tmp k")
    case None
    then have "tmp1 = tmp" "d1 = d\<lparr>toAdd := mput k e (toAdd d)\<rparr>" using s by (simp_all add: diff_step_def)
    then show ?thesis using ih None k by (auto simp: x)
  next
    case (Some old)
    then have "tmp1 = mdel k tmp"
      "d1 = (if e \<noteq> old then d\<lparr>toUpd := mput k e (toUpd d)\<rparr> else d\<lparr>noop := mput k e (noop d)\<rparr>)"
      using s by (auto simp: diff_step_def)
    then show ?thesis using ih Some k by (auto simp: x)
  qed
qed simp

definition diff_spec :: "entry gomap \<Rightarrow> entry gomap \<Rightarrow> entriesDiff \<Rightarrow> bool" where
  "diff_spec old new d \<longleftrightarrow>
     (\<forall>ip. map_of (toAdd d) ip = (if map_of old ip = None then map_of new ip else None) \<and>
           map_of (toDel d) ip = (if map_of new ip = None then map_of old ip else None) \<and>
           map_of (toUpd d) ip = (if map_of old ip \<noteq> None \<and> map_of new ip \<noteq> map_of old ip then map_of new ip else None) \<and>
           map_of (noop d) ip = (if map_of new ip = map_of old ip then map_of new ip else None))"

lemma calculateDiff_spec:
  assumes "valid_order ro" "gomap_ok new"
  shows "diff_spec old new (calculateDiffOfEntries ro old new)"
    "gomap_ok (toAdd (calculateDiffOfEntries ro old new))" "gomap_ok (toUpd (calculateDiffOfEntries ro old new))"
    "gomap_ok (noop (calculateDiffOfEntries ro old new))"
    "gomap_ok old \<Longrightarrow> gomap_ok (toDel (calculateDiffOfEntries ro old new))"
proof -
  let ?d0 = "\<lparr>toAdd = [], toDel = [], toUpd = [], noop = []\<rparr> :: entriesDiff"
  obtain tmp d where f: "foldl diff_step (old, ?d0) (go_range ro 7 new) = (tmp, d)" by (metis prod.exhaust)
  note df = diff_fold[OF distinct_go_range[OF assms] f, unfolded map_of_go_range[OF assms]]
  have c: "calculateDiffOfEntries ro old new = d\<lparr>toDel := tmp\<rparr>" by (simp add: calculateDiffOfEntries_def f)
  show "diff_spec old new (calculateDiffOfEntries ro old new)"
    unfolding diff_spec_def c using df by auto
  show "gomap_ok (toAdd (calculateDiffOfEntries ro old new))" "gomap_ok (toUpd (calculateDiffOfEntries ro old new))"
    "gomap_ok (noop (calculateDiffOfEntries ro old new))"
    "gomap_ok old \<Longrightarrow> gomap_ok (toDel (calculateDiffOfEntries ro old new))"
    unfolding c using df by auto
qed

text \<open>
  The difference of two entry maps, whatever the order in which they are visited: the additions
  are the new entries at new addresses, the deletions the old entries at addresses that are gone,
  the updates the new entries at addresses whose entry changed, and the rest is unchanged. The
  four maps have disjoint addresses and no other addresses.
\<close>

theorem diff_partition:
  assumes "valid_order ro" "gomap_ok old" "gomap_ok new"
  shows "diff_spec old new (calculateDiffOfEntries ro old new) \<and>
    (let d = calculateDiffOfEntries ro old new
     in dom (map_of (toAdd d)) \<union> dom (map_of (toUpd d)) \<union> dom (map_of (noop d)) = dom (map_of new) \<and>
        dom (map_of (toDel d)) \<union> dom (map_of (toUpd d)) \<union> dom (map_of (noop d)) = dom (map_of old) \<and>
        dom (map_of (toAdd d)) \<inter> dom (map_of (toUpd d)) = {} \<and> dom (map_of (toAdd d)) \<inter> dom (map_of (noop d)) = {} \<and>
        dom (map_of (toUpd d)) \<inter> dom (map_of (noop d)) = {} \<and> dom (map_of (toDel d)) \<inter> dom (map_of new) = {})"
proof -
  let ?d = "calculateDiffOfEntries ro old new"
  have s: "diff_spec old new ?d" by (rule calculateDiff_spec(1)[OF assms(1,3)])
  note eqs = s[unfolded diff_spec_def, rule_format]
  have mem: "ip \<in> dom (map_of (toAdd ?d)) \<longleftrightarrow> map_of old ip = None \<and> map_of new ip \<noteq> None"
    "ip \<in> dom (map_of (toDel ?d)) \<longleftrightarrow> map_of new ip = None \<and> map_of old ip \<noteq> None"
    "ip \<in> dom (map_of (toUpd ?d)) \<longleftrightarrow> map_of old ip \<noteq> None \<and> map_of new ip \<noteq> None \<and> map_of new ip \<noteq> map_of old ip"
    "ip \<in> dom (map_of (noop ?d)) \<longleftrightarrow> map_of new ip \<noteq> None \<and> map_of new ip = map_of old ip"
    "ip \<in> dom (map_of new) \<longleftrightarrow> map_of new ip \<noteq> None" "ip \<in> dom (map_of old) \<longleftrightarrow> map_of old ip \<noteq> None" for ip
    using eqs[of ip] unfolding domIff by simp_all
  show ?thesis unfolding Let_def set_eq_iff Un_iff Int_iff empty_iff mem
    by (intro conjI allI s; metis)
qed

section \<open>MAC addresses\<close>

lemma parseMAC_range: "parseMAC vxlanMACRange = Some [0x0E, 0, 0, 0, 0, 0]"
  by code_simp

lemma getMAC_v4: "length b = 4 \<Longrightarrow> getMACAddressForVxlanIP vxlanMACRange (v4InV6Prefix @ b) = Ok (0x0E # 0 # b)"
proof -
  assume l: "length b = 4"
  then obtain x y z u where b: "b = [x, y, z, u]" by (auto simp: length_Suc_conv numeral_eq_Suc)
  show ?thesis using l by (simp add: getMACAddressForVxlanIP_def parseMAC_range b numeral_eq_Suc)
qed

lemma getMAC_cases:
  "getMACAddressForVxlanIP vxlanMACRange ip = (if to4 ip = [] then Panic ''index out of range'' else Ok (0x0E # 0 # to4 ip))"
proof (cases "to4 ip = []")
  case False
  then have l: "length (to4 ip) = 4" by (auto simp: to4_def split: if_splits)
  then obtain x y z u where b: "to4 ip = [x, y, z, u]" by (auto simp: length_Suc_conv numeral_eq_Suc)
  show ?thesis by (simp add: getMACAddressForVxlanIP_def parseMAC_range b numeral_eq_Suc)
qed (simp add: getMACAddressForVxlanIP_def parseMAC_range)

text \<open>
  The MAC address of an overlay address \<^verbatim>\<open>a.b.c.d\<close> is \<^verbatim>\<open>0E:00:a:b:c:d\<close>; different IPv4
  addresses have different MAC addresses. For an IPv6 address the computation panics, and it is the
  first thing the backend does with its own address.
\<close>

theorem mac_of_address:
  "getMACAddressForVxlanIP vxlanMACRange ip =
     (if to4 ip = [] then Panic ''index out of range'' else Ok (0x0E # 0 # to4 ip)) \<and>
   (case vx_NewOverlay localIP of
      Ok ov \<Rightarrow> vi_mac (vo_v ov) = 0x0E # 0 # to4 (parseIP localIP) \<and> length (vi_mac (vo_v ov)) = 6
    | Err _ \<Rightarrow> parseIP localIP = []
    | Panic _ \<Rightarrow> length (parseIP localIP) = 16 \<and> to4 (parseIP localIP) = [])"
proof -
  have "length (to4 (parseIP localIP)) = 4" if "to4 (parseIP localIP) \<noteq> []"
    using that by (auto simp: to4_def split: if_splits)
  then show ?thesis
    using length_parseIP[of localIP]
    by (cases "parseIP localIP = []"; cases "to4 (parseIP localIP) = []")
      (auto simp: getMAC_cases vx_NewOverlay_def getDefaultVxlanInterfaceInfo_def GetMyVTEPInfo_def Let_def)
qed


section \<open>The kernel's tables\<close>

text \<open>
  What the kernel keeps for the overlay: routes, ARP entries by address, and forwarding entries by
  MAC address and destination.
\<close>

datatype kobj = KRoute ipnet | KArp go_ip | KFdb "byte list" go_ip

definition route_obj :: "vx_route \<Rightarrow> kobj" where "route_obj r = KRoute (vr_Dst r)"

definition neigh_obj :: "neigh \<Rightarrow> kobj" where
  "neigh_obj n = (if ne_Family n = AF_BRIDGE then KFdb (ne_HardwareAddr n) (ne_IP n) else KArp (ne_IP n))"

text \<open>An operation that adds what is absent and fails otherwise, and one that removes what is present.\<close>

definition inserts :: "('w \<Rightarrow> kobj set) \<Rightarrow> kobj \<Rightarrow> ('w \<Rightarrow> go_error option \<times> 'w) \<Rightarrow> bool" where
  "inserts table x f \<longleftrightarrow> (\<forall>w. if x \<in> table w then fst (f w) \<noteq> None \<and> table (snd (f w)) = table w
     else fst (f w) = None \<and> table (snd (f w)) = insert x (table w))"

definition removes :: "('w \<Rightarrow> kobj set) \<Rightarrow> kobj \<Rightarrow> ('w \<Rightarrow> go_error option \<times> 'w) \<Rightarrow> bool" where
  "removes table x f \<longleftrightarrow> (\<forall>w. if x \<in> table w then fst (f w) = None \<and> table (snd (f w)) = table w - {x}
     else fst (f w) \<noteq> None \<and> table (snd (f w)) = table w)"

text \<open>
  The behaviour of netlink that the backend relies on: the interface is found, adding a route or
  a forwarding entry fails if it exists, appending an ARP entry always succeeds, and deleting
  fails if there is nothing to delete.
\<close>

definition vx_kernel :: "'w vx_env \<Rightarrow> ('w \<Rightarrow> kobj set) \<Rightarrow> bool" where
  "vx_kernel env table \<longleftrightarrow>
     (\<forall>name w. (\<exists>l. fst (vx_LinkByName env name w) = Inr l) \<and> table (snd (vx_LinkByName env name w)) = table w) \<and>
     (\<forall>r. inserts table (route_obj r) (vx_RouteAdd env r) \<and> removes table (route_obj r) (vx_RouteDel env r)) \<and>
     (\<forall>n w. fst (vx_NeighAppend env n w) = None \<and> table (snd (vx_NeighAppend env n w)) = insert (neigh_obj n) (table w)) \<and>
     (\<forall>n. inserts table (neigh_obj n) (vx_NeighAdd env n) \<and> removes table (neigh_obj n) (vx_NeighDel env n))"

definition peer_objs :: "peerVxlanEntry \<Rightarrow> kobj set" where
  "peer_objs p = {KRoute (pe_ipnet p), KArp (pe_ip p), KFdb (pe_vtepMAC p) (pe_hostIP p)}"

lemma vx_kernelD:
  assumes "vx_kernel env table"
  shows "\<exists>l w'. vx_LinkByName env name w = (Inr l, w') \<and> table w' = table w"
    "inserts table (route_obj r) (vx_RouteAdd env r)" "removes table (route_obj r) (vx_RouteDel env r)"
    "inserts table (neigh_obj n) (vx_NeighAdd env n)" "removes table (neigh_obj n) (vx_NeighDel env n)"
    "fst (vx_NeighAppend env n w) = None" "table (snd (vx_NeighAppend env n w)) = insert (neigh_obj n) (table w)"
proof -
  obtain l where "fst (vx_LinkByName env name w) = Inr l" "table (snd (vx_LinkByName env name w)) = table w"
    using assms unfolding vx_kernel_def by blast
  then show "\<exists>l w'. vx_LinkByName env name w = (Inr l, w') \<and> table w' = table w"
    by (cases "vx_LinkByName env name w") auto
qed (use assms in \<open>simp_all add: vx_kernel_def\<close>)

text \<open>Looking up the interface first makes no difference.\<close>

definition with_link :: "('w \<Rightarrow> int result \<times> 'w) \<Rightarrow> (int \<Rightarrow> 'w \<Rightarrow> go_error option \<times> 'w) \<Rightarrow> 'w \<Rightarrow> go_error option \<times> 'w" where
  "with_link look op w = (case look w of (Inl e, w1) \<Rightarrow> (Some e, w1) | (Inr l, w1) \<Rightarrow> op l w1)"

lemma with_link_kernel:
  assumes "vx_kernel env table"
  obtains l w' where "with_link (vx_LinkByName env name) op w = op l w'" "table w' = table w"
  using vx_kernelD(1)[OF assms, of name w] by (auto simp: with_link_def)

lemma with_link_inserts:
  assumes "vx_kernel env table" "\<And>l. inserts table x (op l)"
  shows "inserts table x (with_link (vx_LinkByName env name) op)"
  unfolding inserts_def
proof
  fix w
  obtain l w' where l: "with_link (vx_LinkByName env name) op w = op l w'" "table w' = table w"
    using with_link_kernel[OF assms(1)] by metis
  show "if x \<in> table w then fst (with_link (vx_LinkByName env name) op w) \<noteq> None \<and> table (snd (with_link (vx_LinkByName env name) op w)) = table w
    else fst (with_link (vx_LinkByName env name) op w) = None \<and> table (snd (with_link (vx_LinkByName env name) op w)) = insert x (table w)"
    using assms(2)[of l, unfolded inserts_def, THEN spec, of w'] unfolding l .
qed

lemma with_link_removes:
  assumes "vx_kernel env table" "\<And>l. removes table x (op l)"
  shows "removes table x (with_link (vx_LinkByName env name) op)"
  unfolding removes_def
proof
  fix w
  obtain l w' where l: "with_link (vx_LinkByName env name) op w = op l w'" "table w' = table w"
    using with_link_kernel[OF assms(1)] by metis
  show "if x \<in> table w then fst (with_link (vx_LinkByName env name) op w) = None \<and> table (snd (with_link (vx_LinkByName env name) op w)) = table w - {x}
    else fst (with_link (vx_LinkByName env name) op w) \<noteq> None \<and> table (snd (with_link (vx_LinkByName env name) op w)) = table w"
    using assms(2)[of l, unfolded removes_def, THEN spec, of w'] unfolding l .
qed

lemma neigh_op_link:
  "neigh_op env op family name ip mac = with_link (vx_LinkByName env name)
     (\<lambda>l. op \<lparr>ne_IP = ip, ne_HardwareAddr = mac, ne_LinkIndex = l, ne_State = 128, ne_Flags = 2, ne_Family = family\<rparr>)"
  by (simp add: fun_eq_iff neigh_op_def with_link_def)

lemma route_op_link:
  "route_op env op d via name = (if name = [] then op \<lparr>vr_Dst = d, vr_Gw = via, vr_LinkIndex = 0\<rparr>
     else with_link (vx_LinkByName env name) (\<lambda>l. op \<lparr>vr_Dst = d, vr_Gw = via, vr_LinkIndex = l\<rparr>))"
  by (auto simp: fun_eq_iff route_op_def with_link_def findVxlanInterface_def Let_def split: prod.split sum.split)

lemma entry_ops_kernel:
  assumes "vx_kernel env table"
  shows "inserts table (KRoute d) (addRoute env d via name)" "removes table (KRoute d) (delRoute env d via name)"
    "removes table (KArp ip) (delARPEntry env name ip mac)"
    "inserts table (KFdb mac ip) (addVxlanForwardingEntry env name mac ip)"
    "removes table (KFdb mac ip) (deleteVxlanForwardingEntry env name mac ip)"
proof -
  note k = vx_kernelD[OF assms]
  have r: "inserts table (KRoute d) (vx_RouteAdd env \<lparr>vr_Dst = d, vr_Gw = via, vr_LinkIndex = l\<rparr>)"
    "removes table (KRoute d) (vx_RouteDel env \<lparr>vr_Dst = d, vr_Gw = via, vr_LinkIndex = l\<rparr>)" for l
    using k(2,3)[of "\<lparr>vr_Dst = d, vr_Gw = via, vr_LinkIndex = l\<rparr>"] by (simp_all add: route_obj_def)
  show "inserts table (KRoute d) (addRoute env d via name)" "removes table (KRoute d) (delRoute env d via name)"
    unfolding addRoute_def delRoute_def route_op_link using r with_link_inserts[OF assms] with_link_removes[OF assms]
    by (cases "name = []"; simp)+
  have n: "neigh_obj \<lparr>ne_IP = ip, ne_HardwareAddr = mac, ne_LinkIndex = l, ne_State = 128, ne_Flags = 2, ne_Family = f\<rparr> =
      (if f = AF_BRIDGE then KFdb mac ip else KArp ip)" for l f
    by (simp add: neigh_obj_def)
  have b: "(0 :: int) \<noteq> AF_BRIDGE" by (simp add: AF_BRIDGE_def)
  show "removes table (KArp ip) (delARPEntry env name ip mac)"
    unfolding delARPEntry_def neigh_op_link
    by (rule with_link_removes[OF assms]) (use k(5) n b in metis)
  have e: "addVxlanForwardingEntry env name mac ip = neigh_op env (vx_NeighAdd env) AF_BRIDGE name ip mac"
    "deleteVxlanForwardingEntry env name mac ip = neigh_op env (vx_NeighDel env) AF_BRIDGE name ip mac"
    by (simp_all add: fun_eq_iff addVxlanForwardingEntry_def deleteVxlanForwardingEntry_def)
  show "inserts table (KFdb mac ip) (addVxlanForwardingEntry env name mac ip)"
    unfolding e neigh_op_link by (rule with_link_inserts[OF assms]) (use k(4) n in metis)
  show "removes table (KFdb mac ip) (deleteVxlanForwardingEntry env name mac ip)"
    unfolding e neigh_op_link by (rule with_link_removes[OF assms]) (use k(5) n in metis)
qed

lemma addARP_kernel:
  assumes "vx_kernel env table"
  shows "fst (addARPEntry env name ip mac w) = None" "table (snd (addARPEntry env name ip mac w)) = insert (KArp ip) (table w)"
proof -
  obtain l w' where l: "addARPEntry env name ip mac w =
      vx_NeighAppend env \<lparr>ne_IP = ip, ne_HardwareAddr = mac, ne_LinkIndex = l, ne_State = 128, ne_Flags = 2, ne_Family = 0\<rparr> w'"
      "table w' = table w"
    unfolding addARPEntry_def neigh_op_link by (rule with_link_kernel[OF assms])
  show "fst (addARPEntry env name ip mac w) = None" "table (snd (addARPEntry env name ip mac w)) = insert (KArp ip) (table w)"
    unfolding l(1) using vx_kernelD(6,7)[OF assms] l(2) by (simp_all add: neigh_obj_def AF_BRIDGE_def)
qed

lemma peer_add_kernel:
  assumes "vx_kernel env table" "peer_objs p \<inter> table w = {}"
  shows "\<exists>w'. peer_add env p w = (None, w') \<and> table w' = table w \<union> peer_objs p"
proof -
  note k = entry_ops_kernel[OF assms(1)]
  obtain w1 where 1: "addRoute env (pe_ipnet p) [] (pe_intfName p) w = (None, w1)" "table w1 = insert (KRoute (pe_ipnet p)) (table w)"
    using k(1)[of "pe_ipnet p" "[]" "pe_intfName p", unfolded inserts_def, THEN spec, of w] assms(2)
    by (auto simp: peer_objs_def prod_eq_iff split: if_splits)
  obtain w2 where 2: "addARPEntry env (pe_intfName p) (pe_ip p) (pe_vtepMAC p) w1 = (None, w2)" "table w2 = insert (KArp (pe_ip p)) (table w1)"
    using addARP_kernel[OF assms(1), of "pe_intfName p" "pe_ip p" "pe_vtepMAC p" w1] by (metis prod.collapse)
  have "KFdb (pe_vtepMAC p) (pe_hostIP p) \<notin> table w2" using 1(2) 2(2) assms(2) by (auto simp: peer_objs_def)
  then obtain w3 where 3: "addVxlanForwardingEntry env (pe_intfName p) (pe_vtepMAC p) (pe_hostIP p) w2 = (None, w3)"
      "table w3 = insert (KFdb (pe_vtepMAC p) (pe_hostIP p)) (table w2)"
    using k(4)[of "pe_vtepMAC p" "pe_hostIP p" "pe_intfName p", unfolded inserts_def, THEN spec, of w2]
    by (auto simp: prod_eq_iff)
  show ?thesis by (auto simp: peer_add_def andThen_def 1 2 3 peer_objs_def)
qed

lemma removes_present: "removes table x f \<Longrightarrow> x \<in> table w \<Longrightarrow> \<exists>w'. f w = (None, w') \<and> table w' = table w - {x}"
  unfolding removes_def by (metis prod.collapse)

lemma peer_del_kernel:
  assumes "vx_kernel env table" "peer_objs p \<subseteq> table w"
  shows "\<exists>w'. peer_del env p w = (None, w') \<and> table w' = table w - peer_objs p"
proof -
  note k = entry_ops_kernel[OF assms(1)]
  obtain w1 where 1: "delRoute env (pe_ipnet p) [] (pe_intfName p) w = (None, w1)" "table w1 = table w - {KRoute (pe_ipnet p)}"
    using removes_present[OF k(2)[of "pe_ipnet p" "[]" "pe_intfName p"], of w] assms(2) by (auto simp: peer_objs_def)
  obtain w2 where 2: "delARPEntry env (pe_intfName p) (pe_ip p) (pe_vtepMAC p) w1 = (None, w2)" "table w2 = table w1 - {KArp (pe_ip p)}"
    using removes_present[OF k(3)[of "pe_ip p" "pe_intfName p" "pe_vtepMAC p"], of w1] assms(2) 1(2) by (auto simp: peer_objs_def)
  obtain w3 where 3: "deleteVxlanForwardingEntry env (pe_intfName p) (pe_vtepMAC p) (pe_hostIP p) w2 = (None, w3)"
      "table w3 = table w2 - {KFdb (pe_vtepMAC p) (pe_hostIP p)}"
    using removes_present[OF k(5)[of "pe_vtepMAC p" "pe_hostIP p" "pe_intfName p"], of w2] assms(2) 1(2) 2(2) by (auto simp: peer_objs_def)
  show ?thesis by (auto simp: peer_del_def andThen_def 1 2 3 peer_objs_def)
qed

section \<open>The objects of an entry\<close>

definition objs_of :: "string \<Rightarrow> entry \<Rightarrow> kobj set" where
  "objs_of name e = (case newPeerVxlanEntry name e of Ok p \<Rightarrow> peer_objs p | _ \<Rightarrow> {})"

definition plain_peer :: "string \<Rightarrow> entry \<Rightarrow> bool" where
  "plain_peer name e \<longleftrightarrow> \<not> Self e \<and> (case newPeerVxlanEntry name e of Ok _ \<Rightarrow> True | _ \<Rightarrow> False)"

lemma parseCIDR_ip:
  assumes "parseCIDR s = Some (ip, n)"
  obtains a where "parseAddr (split_head CHR ''/'' s) = Some a" "ip = as16 a"
  using assms unfolding parseCIDR_def cut_eq_split_head[symmetric]
  by (auto split: prod.splits if_splits option.splits simp: Let_def)

definition plain_remote :: "entry \<Rightarrow> bool" where
  "plain_remote e \<longleftrightarrow> parseCIDR (IpAddress e) \<noteq> None \<and> ParseIPNet (ipNoCidr e @ ''/32'') \<noteq> None"

definition remote_objs :: "entry \<Rightarrow> kobj set" where
  "remote_objs e =
     (case (parseCIDR (IpAddress e), ParseIPNet (ipNoCidr e @ ''/32'')) of
        (Some (ip, _), Some ipn) \<Rightarrow> {KRoute ipn, KArp ip}
      | _ \<Rightarrow> {})"

text \<open>Every object belongs to one overlay address: the objects of entries with different addresses are different.\<close>

definition overlay_ip :: "entry \<Rightarrow> go_ip" where
  "overlay_ip e = (case parseCIDR (IpAddress e) of None \<Rightarrow> [] | Some (ip, _) \<Rightarrow> ip)"

fun owner :: "kobj \<Rightarrow> go_ip" where
  "owner (KRoute n) = net_ip n"
| "owner (KArp ip) = ip"
| "owner (KFdb mac _) = v4InV6Prefix @ drop 2 mac"

lemma parse_entry:
  assumes "parseCIDR (IpAddress e) = Some (ip, n)" "ParseIPNet (ipNoCidr e @ ''/32'') = Some ipn"
  shows "net_ip ipn = ip" "length ip = 16" "overlay_ip e = ip"
proof -
  obtain a where a: "parseAddr (ipNoCidr e) = Some a" "ip = as16 a"
    using parseCIDR_ip[OF assms(1)] by (auto simp: ipNoCidr_def)
  obtain ip' n' where p: "parseCIDR (ipNoCidr e @ ''/32'') = Some (ip', n')" "ipn = IPNet ip' (net_mask n')"
    using assms(2) by (auto simp: ParseIPNet_def)
  have "split_head CHR ''/'' (ipNoCidr e @ ''/32'') = ipNoCidr e" by (simp add: ipNoCidr_def)
  then have "ip' = as16 a" using parseCIDR_ip[OF p(1)] a(1) by auto
  then show "net_ip ipn = ip" using p a by simp
  show "length ip = 16" unfolding a(2) by (rule parseAddr_cases[OF a(1)]) simp_all
  show "overlay_ip e = ip" by (simp add: overlay_ip_def assms(1))
qed

lemma v4_bytes: "length ip = 16 \<Longrightarrow> to4 ip \<noteq> [] \<Longrightarrow> v4InV6Prefix @ to4 ip = ip"
  by (auto simp: to4_def split: if_splits) (metis append_take_drop_id)

lemma newPeer_Ok:
  assumes "newPeerVxlanEntry name e = Ok p"
  shows "\<exists>n. parseCIDR (IpAddress e) = Some (pe_ip p, n)" "ParseIPNet (ipNoCidr e @ ''/32'') = Some (pe_ipnet p)"
    "to4 (pe_ip p) \<noteq> []" "pe_vtepMAC p = 0x0E # 0 # to4 (pe_ip p)"
proof -
  obtain ip n where 1: "parseCIDR (IpAddress e) = Some (ip, n)"
    using assms by (cases "parseCIDR (IpAddress e)") (auto simp: newPeerVxlanEntry_def)
  obtain ipn where 2: "ParseIPNet (ipNoCidr e @ ''/32'') = Some ipn"
    using assms 1 by (cases "ParseIPNet (ipNoCidr e @ ''/32'')") (auto simp: newPeerVxlanEntry_def)
  have 3: "to4 ip \<noteq> []" using assms by (auto simp: newPeerVxlanEntry_def 1 2 getMAC_cases split: if_splits)
  have "pe_ip p = ip" "pe_ipnet p = ipn" "pe_vtepMAC p = 0x0E # 0 # to4 ip"
    using assms 3 by (auto simp: newPeerVxlanEntry_def 1 2 getMAC_cases Let_def split: if_splits)
  then show "\<exists>n. parseCIDR (IpAddress e) = Some (pe_ip p, n)" "ParseIPNet (ipNoCidr e @ ''/32'') = Some (pe_ipnet p)"
    "to4 (pe_ip p) \<noteq> []" "pe_vtepMAC p = 0x0E # 0 # to4 (pe_ip p)"
    using 1 2 3 by auto
qed

lemma plain_peerD:
  assumes "plain_peer name e"
  obtains p n where "\<not> Self e" "newPeerVxlanEntry name e = Ok p" "objs_of name e = peer_objs p"
    "parseCIDR (IpAddress e) = Some (pe_ip p, n)" "overlay_ip e = pe_ip p" "to4 (pe_ip p) \<noteq> []"
proof -
  obtain p where p: "\<not> Self e" "newPeerVxlanEntry name e = Ok p" "objs_of name e = peer_objs p"
    using assms by (auto simp: plain_peer_def objs_of_def split: outcome.splits)
  obtain n where n: "parseCIDR (IpAddress e) = Some (pe_ip p, n)" using newPeer_Ok(1)[OF p(2)] by blast
  then show thesis using that p parse_entry(3)[OF n newPeer_Ok(2)[OF p(2)]] newPeer_Ok(3)[OF p(2)] by blast
qed

lemma owner_objs_of:
  assumes "x \<in> objs_of name e"
  shows "owner x = overlay_ip e"
proof -
  obtain p where p: "newPeerVxlanEntry name e = Ok p" "x \<in> peer_objs p" using assms by (auto simp: objs_of_def split: outcome.splits)
  note n = newPeer_Ok[OF p(1)]
  obtain m where "parseCIDR (IpAddress e) = Some (pe_ip p, m)" using n(1) by blast
  note o = parse_entry[OF this n(2)]
  show ?thesis using p(2) o v4_bytes[OF o(2) n(3)] by (auto simp: peer_objs_def n(4))
qed

lemma owner_remote_objs: "x \<in> remote_objs e \<Longrightarrow> owner x = overlay_ip e"
  using parse_entry by (auto simp: remote_objs_def split: option.splits)

text \<open>A container on another host is reached through the overlay address of that host's peer, which a map gives.\<close>

definition v4_mapping :: "go_ip gomap \<Rightarrow> bool" where
  "v4_mapping m = list_all (\<lambda>(h, ip). to4 ip \<noteq> []) m"

definition routed :: "go_ip gomap \<Rightarrow> entry \<Rightarrow> bool" where
  "routed m e \<longleftrightarrow> HostIpAddress e \<noteq> [] \<and> map_of m (HostIpAddress e) \<noteq> None"

lemma newRemote_Ok:
  assumes "plain_remote e" "v4_mapping m"
  shows "\<exists>r. newRemoteVxlanEntry name e m = Ok r \<and> (re_via r \<noteq> [] \<longleftrightarrow> routed m e) \<and>
    remote_objs e = {KRoute (re_ipnet r), KArp (re_ip r)}"
proof -
  let ?via = "if HostIpAddress e \<noteq> [] then mgetd [] m (HostIpAddress e) else []"
  obtain ip n ipn where p: "parseCIDR (IpAddress e) = Some (ip, n)" "ParseIPNet (ipNoCidr e @ ''/32'') = Some ipn"
    using assms(1) by (auto simp: plain_remote_def)
  have t: "to4 v \<noteq> []" if "map_of m h = Some v" for h v
    using assms(2) map_of_SomeD[OF that] by (auto simp: v4_mapping_def list_all_iff)
  have r: "?via \<noteq> [] \<longleftrightarrow> routed m e" using t by (force simp: routed_def mgetd_def to4_def split: option.splits)
  have "to4 ?via \<noteq> []" if "?via \<noteq> []"
    using that t by (auto simp: mgetd_def split: option.splits if_splits)
  then have "newRemoteVxlanEntry name e m =
      Ok \<lparr>re_intfName = name, re_ip = ip, re_ipnet = ipn, re_via = ?via, re_vtepMAC = (if ?via = [] then [] else 0x0E # 0 # to4 ?via)\<rparr>"
    by (simp add: newRemoteVxlanEntry_def p getMAC_cases Let_def)
  then show ?thesis using r by (simp add: remote_objs_def p)
qed

lemma remote_add_kernel:
  assumes "vx_kernel env table" "{KRoute (re_ipnet r), KArp (re_ip r)} \<inter> table w = {}"
  shows "\<exists>w'. remote_add env r w = (None, w') \<and> table w' = table w \<union> {KRoute (re_ipnet r), KArp (re_ip r)}"
proof -
  obtain w1 where 1: "addRoute env (re_ipnet r) [] (re_intfName r) w = (None, w1)" "table w1 = insert (KRoute (re_ipnet r)) (table w)"
    using entry_ops_kernel(1)[OF assms(1), of "re_ipnet r" "[]" "re_intfName r", unfolded inserts_def, THEN spec, of w] assms(2)
    by (auto simp: prod_eq_iff)
  show ?thesis using addARP_kernel[OF assms(1), of "re_intfName r" "re_ip r" "re_vtepMAC r" w1]
    by (auto simp: remote_add_def andThen_def 1 prod_eq_iff)
qed

lemma remote_del_kernel:
  assumes "vx_kernel env table" "{KRoute (re_ipnet r), KArp (re_ip r)} \<subseteq> table w"
  shows "\<exists>w'. remote_del env r w = (None, w') \<and> table w' = table w - {KRoute (re_ipnet r), KArp (re_ip r)}"
proof -
  note k = entry_ops_kernel[OF assms(1)]
  obtain w1 where 1: "delRoute env (re_ipnet r) [] (re_intfName r) w = (None, w1)" "table w1 = table w - {KRoute (re_ipnet r)}"
    using removes_present[OF k(2)[of "re_ipnet r" "[]" "re_intfName r"], of w] assms(2) by auto
  obtain w2 where 2: "delARPEntry env (re_intfName r) (re_ip r) (re_vtepMAC r) w1 = (None, w2)" "table w2 = table w1 - {KArp (re_ip r)}"
    using removes_present[OF k(3)[of "re_ip r" "re_intfName r" "re_vtepMAC r"], of w1] assms(2) 1(2) by auto
  show ?thesis by (auto simp: remote_del_def andThen_def 1 2)
qed

section \<open>A kernel\<close>

text \<open>Tables as a set, with the documented errors: the hypotheses about the kernel can hold.\<close>

definition ins :: "kobj \<Rightarrow> kobj set \<Rightarrow> go_error option \<times> kobj set" where
  "ins x w = (if x \<in> w then (Some EEXIST, w) else (None, insert x w))"

definition rem :: "kobj \<Rightarrow> kobj set \<Rightarrow> go_error option \<times> kobj set" where
  "rem x w = (if x \<in> w then (None, w - {x}) else (Some (EnvError ''no such process''), w))"

definition set_env :: "kobj set vx_env" where
  "set_env = \<lparr>vx_LinkByName = \<lambda>_ w. (Inr 7, w), vx_LinkAdd = \<lambda>_ w. (None, w), vx_LinkSetHardwareAddr = \<lambda>_ _ w. (None, w),
     vx_LinkSetUp = \<lambda>_ w. (None, w), vx_LinkDel = \<lambda>_ w. (None, w), vx_RouteAdd = \<lambda>r. ins (route_obj r),
     vx_RouteDel = \<lambda>r. rem (route_obj r), vx_NeighAppend = \<lambda>n w. (None, insert (neigh_obj n) w),
     vx_NeighAdd = \<lambda>n. ins (neigh_obj n), vx_NeighDel = \<lambda>n. rem (neigh_obj n), vx_Exec = \<lambda>_ _ w. (([], None), w)\<rparr>"

lemma set_env_kernel: "vx_kernel set_env id"
  by (simp add: vx_kernel_def set_env_def inserts_def removes_def ins_def rem_def)

end
