(* ===== verification/Vxlan_Sync.thy ===== *)
theory Vxlan_Sync
  imports Vxlan_Kernel
begin

text \<open>
  What the VXLAN backend guarantees about the kernel. Peers and remote containers are reconciled by
  the same scheme, the locale \<open>reconciler\<close>: the difference to what is remembered is added and
  deleted entry by entry. It is interpreted for both, and composed to the state of the kernel after
  one and after any number of configurations. The last section is about failures half-way.
\<close>

section \<open>Reconciling a set of entries\<close>

text \<open>The kernel objects of a set of entries, and what is remembered after a round.\<close>

definition wired :: "(entry \<Rightarrow> kobj set) \<Rightarrow> entry gomap \<Rightarrow> kobj set" where
  "wired objs m = (\<Union>ip. case map_of m ip of None \<Rightarrow> {} | Some e \<Rightarrow> objs e)"

definition kept :: "(entry \<Rightarrow> bool) \<Rightarrow> entry gomap \<Rightarrow> entry gomap \<Rightarrow> string \<Rightarrow> entry option" where
  "kept addable old new ip =
     (case map_of new ip of
        None \<Rightarrow> None
      | Some e \<Rightarrow> (case map_of old ip of Some e' \<Rightarrow> Some e' | None \<Rightarrow> if addable e then Some e else None))"

text \<open>Entries under the address they have, no two of which have an object in common.\<close>

definition entries_ok :: "(entry \<Rightarrow> bool) \<Rightarrow> (entry \<Rightarrow> kobj set) \<Rightarrow> entry gomap \<Rightarrow> entry gomap \<Rightarrow> bool" where
  "entries_ok good objs old new \<longleftrightarrow> gomap_ok old \<and> gomap_ok new \<and>
     (\<forall>x \<in> set (old @ new). good (snd x) \<and> ipNoCidr (snd x) = fst x) \<and>
     (\<forall>x \<in> set (old @ new). \<forall>y \<in> set (old @ new). fst x \<noteq> fst y \<longrightarrow> objs (snd x) \<inter> objs (snd y) = {})"

text \<open>The scheme itself: the unchanged entries are kept, then come the additions, the deletions and the updates.\<close>

definition reconcile ::
  "map_order \<Rightarrow> nat \<Rightarrow> ('w entries_state \<Rightarrow> string \<times> entry \<Rightarrow> 'w entries_state outcome) \<Rightarrow>
   ('w entries_state \<Rightarrow> string \<times> entry \<Rightarrow> 'w entries_state outcome) \<Rightarrow>
   (entry gomap \<Rightarrow> entry gomap \<Rightarrow> string \<times> entry \<Rightarrow> entry gomap) \<Rightarrow>
   entriesDiff \<Rightarrow> entry gomap \<Rightarrow> 'w \<Rightarrow> 'w entries_state outcome" where
  "reconcile ro k add_step del_step upd_step diff old w =
     (case each add_step (foldl keep_noop [] (go_range ro k (noop diff)), w) (go_range ro (k + 1) (toAdd diff)) of
        Err e \<Rightarrow> Err e
      | Panic m \<Rightarrow> Panic m
      | Ok s1 \<Rightarrow>
          (case each del_step s1 (go_range ro (k + 2) (toDel diff)) of
             Err e \<Rightarrow> Err e
           | Panic m \<Rightarrow> Panic m
           | Ok (p2, w2) \<Rightarrow> Ok (foldl (upd_step old) p2 (go_range ro (k + 3) (toUpd diff)), w2)))"

lemma handlePeerEntries_reconcile:
  "handlePeerEntries env ro diff ov w =
     (case reconcile ro 9 (add_peer_step env (vi_name (vo_v ov))) (del_peer_step env (vi_name (vo_v ov))) upd_peer_step
         diff (vo_prevPeerEntries ov) w of
        Ok (p, w') \<Rightarrow> Ok (ov\<lparr>vo_prevPeerEntries := p\<rparr>, w') | Err e \<Rightarrow> Err e | Panic m \<Rightarrow> Panic m)"
proof (cases "each (add_peer_step env (vi_name (vo_v ov))) (foldl keep_noop [] (go_range ro 9 (noop diff)), w) (go_range ro 10 (toAdd diff))")
  case (Ok s1)
  then show ?thesis
    by (cases "each (del_peer_step env (vi_name (vo_v ov))) s1 (go_range ro 11 (toDel diff))") (auto simp: handlePeerEntries_def reconcile_def)
qed (simp_all add: handlePeerEntries_def reconcile_def)

lemma handleNonPeerRemoteEntries_reconcile:
  "handleNonPeerRemoteEntries env ro diff pm ov w =
     (case reconcile ro 13 (add_remote_step env (vi_name (vo_v ov)) pm) (del_remote_step env (vi_name (vo_v ov)) pm) upd_remote_step
         diff (vo_prevNonPeerRemoteEntries ov) w of
        Ok (p, w') \<Rightarrow> Ok (ov\<lparr>vo_prevNonPeerRemoteEntries := p\<rparr>, w') | Err e \<Rightarrow> Err e | Panic m \<Rightarrow> Panic m)"
proof (cases "each (add_remote_step env (vi_name (vo_v ov)) pm) (foldl keep_noop [] (go_range ro 13 (noop diff)), w) (go_range ro 14 (toAdd diff))")
  case (Ok s1)
  then show ?thesis
    by (cases "each (del_remote_step env (vi_name (vo_v ov)) pm) s1 (go_range ro 15 (toDel diff))") (auto simp: handleNonPeerRemoteEntries_def reconcile_def)
qed (simp_all add: handleNonPeerRemoteEntries_def reconcile_def)

lemma in_wired: "x \<in> wired objs m \<longleftrightarrow> (\<exists>ip e. map_of m ip = Some e \<and> x \<in> objs e)"
  unfolding wired_def by (auto split: option.splits)

lemma kept_Some: "kept addable old new ip = Some e \<longleftrightarrow>
    map_of new ip \<noteq> None \<and> map_of old ip = Some e \<or> map_of old ip = None \<and> map_of new ip = Some e \<and> addable e"
  by (auto simp: kept_def split: option.splits)

lemma mem_go_range:
  assumes "valid_order ro" "gomap_ok m"
  shows "x \<in> set (go_range ro k m) \<longleftrightarrow> map_of m (fst x) = Some (snd x)"
  using map_of_eq_Some_iff[OF distinct_go_range[OF assms, of k], of "fst x" "snd x"] map_of_go_range[OF assms, of k]
  by simp

lemma map_of_keep_noop:
  "list_all (\<lambda>x. ipNoCidr (snd x) = fst x) xs \<Longrightarrow> distinct (map fst xs) \<Longrightarrow>
   map_of (foldl keep_noop m xs) ip = (if map_of xs ip = None then map_of m ip else map_of xs ip)"
proof (induction xs arbitrary: m)
  case (Cons x xs)
  obtain k e where x: "x = (k, e)" by (cases x)
  have "map_of xs k = None" using Cons.prems(2) by (simp add: x map_of_eq_None_iff)
  then show ?case using Cons by (auto simp: x keep_noop_def)
qed simp

lemma map_of_filter_snd:
  "distinct (map fst xs) \<Longrightarrow> map_of (filter (\<lambda>x. P (snd x)) xs) k =
     (case map_of xs k of None \<Rightarrow> None | Some v \<Rightarrow> if P v then Some v else None)"
  by (induction xs) (auto simp: map_of_eq_None_iff split: option.splits dest: map_of_SomeD)

lemma gomap_ok_keep_noop: "gomap_ok m \<Longrightarrow> gomap_ok (foldl keep_noop m xs)"
  by (induction xs arbitrary: m) (simp_all add: keep_noop_def)

lemma entries_okD:
  assumes "entries_ok good objs old new"
  shows "gomap_ok old" "gomap_ok new"
    "map_of old ip = Some e \<or> map_of new ip = Some e \<Longrightarrow> good e \<and> ipNoCidr e = ip"
    "map_of old ip = Some e \<or> map_of new ip = Some e \<Longrightarrow> map_of old ip' = Some e' \<or> map_of new ip' = Some e' \<Longrightarrow>
       ip \<noteq> ip' \<Longrightarrow> objs e \<inter> objs e' = {}"
proof -
  have mem: "(ip, e) \<in> set (old @ new)" if "map_of old ip = Some e \<or> map_of new ip = Some e" for ip e
    using that by (auto dest: map_of_SomeD)
  show "gomap_ok old" "gomap_ok new" using assms by (simp_all add: entries_ok_def)
  show "good e \<and> ipNoCidr e = ip" if "map_of old ip = Some e \<or> map_of new ip = Some e"
    using assms mem[OF that] unfolding entries_ok_def by fastforce
  show "objs e \<inter> objs e' = {}"
    if "map_of old ip = Some e \<or> map_of new ip = Some e" "map_of old ip' = Some e' \<or> map_of new ip' = Some e'" "ip \<noteq> ip'"
    using assms mem[OF that(1)] mem[OF that(2)] that(3) unfolding entries_ok_def by (metis fst_conv snd_conv)
qed

text \<open>
  The interface between the scheme and the entries: what adding, deleting and updating one proper
  entry does. An entry that cannot be added now is passed over.
\<close>

locale reconciler =
  fixes table :: "'w \<Rightarrow> kobj set"
    and add_step del_step :: "'w entries_state \<Rightarrow> string \<times> entry \<Rightarrow> 'w entries_state outcome"
    and upd_step :: "entry gomap \<Rightarrow> entry gomap \<Rightarrow> string \<times> entry \<Rightarrow> entry gomap"
    and good addable :: "entry \<Rightarrow> bool"
    and objs :: "entry \<Rightarrow> kobj set"
  assumes add_law: "good e \<Longrightarrow> addable e \<Longrightarrow> objs e \<inter> table w = {} \<Longrightarrow>
      \<exists>w'. add_step (prev, w) (ip, e) = Ok (mput (ipNoCidr e) e prev, w') \<and> table w' = table w \<union> objs e"
    and skip_law: "good e \<Longrightarrow> \<not> addable e \<Longrightarrow> add_step s (ip, e) = Ok s"
    and del_law: "good e \<Longrightarrow> objs e \<subseteq> table w \<Longrightarrow>
      \<exists>w'. del_step (prev, w) (ip, e) = Ok (prev, w') \<and> table w' = table w - objs e"
    and upd_law: "good e \<Longrightarrow> upd_step old prev (ip, e) = mput (ipNoCidr e) (mgetd zeroEntry old (ipNoCidr e)) prev"
begin

abbreviation objs_in :: "(string \<times> entry) list \<Rightarrow> kobj set" where "objs_in xs \<equiv> (\<Union>x \<in> set xs. objs (snd x))"

definition separate :: "(string \<times> entry) list \<Rightarrow> bool" where
  "separate xs \<longleftrightarrow> distinct (map fst xs) \<and> list_all (\<lambda>x. good (snd x)) xs \<and>
     (\<forall>x \<in> set xs. \<forall>y \<in> set xs. fst x \<noteq> fst y \<longrightarrow> objs (snd x) \<inter> objs (snd y) = {})"

lemma separate_Cons:
  assumes "separate (x # xs)"
  shows "separate xs" "good (snd x)" "y \<in> set xs \<Longrightarrow> objs (snd y) \<inter> objs (snd x) = {}"
proof -
  show "separate xs" "good (snd x)" using assms by (simp_all add: separate_def)
  show "objs (snd y) \<inter> objs (snd x) = {}" if y: "y \<in> set xs"
  proof -
    have "fst y \<noteq> fst x" using assms y by (auto simp: separate_def image_iff)
    then show ?thesis using assms y unfolding separate_def by simp
  qed
qed

lemma add_loop:
  assumes "separate xs" "list_all (\<lambda>x. objs (snd x) \<inter> table w = {}) xs"
  shows "\<exists>w'. each add_step (prev, w) xs = Ok (foldl keep_noop prev (filter (\<lambda>x. addable (snd x)) xs), w') \<and>
    table w' = table w \<union> objs_in (filter (\<lambda>x. addable (snd x)) xs)"
  using assms
proof (induction xs arbitrary: prev w)
  case (Cons x xs)
  note sep = separate_Cons[OF Cons.prems(1)]
  show ?case
  proof (cases "addable (snd x)")
    case True
    obtain w1 where w1: "add_step (prev, w) x = Ok (keep_noop prev x, w1)" "table w1 = table w \<union> objs (snd x)"
      using add_law[OF sep(2) True, of w prev "fst x"] Cons.prems(2) by (auto simp: keep_noop_def)
    have "list_all (\<lambda>y. objs (snd y) \<inter> table w1 = {}) xs"
      using Cons.prems(2) sep(3) by (auto simp: w1(2) list_all_iff)
    then show ?thesis using Cons.IH[OF sep(1), of w1 "keep_noop prev x"] w1 True by auto
  next
    case False
    then show ?thesis using Cons.IH[OF sep(1), of w prev] Cons.prems(2) skip_law[OF sep(2) False, of _ "fst x"] by simp
  qed
qed simp

lemma del_loop:
  assumes "separate xs" "objs_in xs \<subseteq> table w"
  shows "\<exists>w'. each del_step (prev, w) xs = Ok (prev, w') \<and> table w' = table w - objs_in xs"
  using assms
proof (induction xs arbitrary: w)
  case (Cons x xs)
  note sep = separate_Cons[OF Cons.prems(1)]
  obtain w1 where w1: "del_step (prev, w) x = Ok (prev, w1)" "table w1 = table w - objs (snd x)"
    using del_law[OF sep(2), of w prev "fst x"] Cons.prems(2) by auto
  have "objs_in xs \<subseteq> table w1" using Cons.prems(2) sep(3) by (auto simp: w1(2))
  then show ?case using Cons.IH[OF sep(1), of w1] w1 by auto
qed simp

lemma upd_loop:
  "list_all (\<lambda>x. good (snd x) \<and> ipNoCidr (snd x) = fst x) xs \<Longrightarrow>
   map_of (foldl (upd_step old) m xs) ip = (if map_of xs ip = None then map_of m ip else Some (mgetd zeroEntry old ip)) \<and>
   (gomap_ok m \<longrightarrow> gomap_ok (foldl (upd_step old) m xs))"
proof (induction xs arbitrary: m)
  case (Cons x xs)
  obtain k e where x: "x = (k, e)" by (cases x)
  have g: "good e" "ipNoCidr e = k" using Cons.prems by (simp_all add: x)
  have ih: "map_of (foldl (upd_step old) m' xs) ip = (if map_of xs ip = None then map_of m' ip else Some (mgetd zeroEntry old ip)) \<and>
     (gomap_ok m' \<longrightarrow> gomap_ok (foldl (upd_step old) m' xs))" for m'
    using Cons.IH Cons.prems by simp
  show ?case using ih[of "mput k (mgetd zeroEntry old k) m"] by (auto simp: x upd_law[OF g(1)] g(2))
qed simp

end

text \<open>What the objects of the remembered entries become when the objects of the additions come and those of the deletions go.\<close>

lemma wired_round:
  assumes ok: "entries_ok good objs old new" and F: "F \<inter> (wired objs old \<union> wired objs new) = {}"
    and p: "map_of prev' = kept addable old new"
    and A: "\<And>x. x \<in> A \<longleftrightarrow> map_of old (fst x) = None \<and> map_of new (fst x) = Some (snd x) \<and> addable (snd x)"
    and D: "\<And>x. x \<in> D \<longleftrightarrow> map_of new (fst x) = None \<and> map_of old (fst x) = Some (snd x)"
  shows "(wired objs old \<union> F \<union> (\<Union>x \<in> A. objs (snd x))) - (\<Union>x \<in> D. objs (snd x)) = wired objs prev' \<union> F"
    (is "?L = ?R")
proof (rule set_eqI)
  fix y
  note dj = entries_okD(4)[OF ok]
  have a: "y \<in> (\<Union>x \<in> A. objs (snd x)) \<longleftrightarrow> (\<exists>ip e. map_of old ip = None \<and> map_of new ip = Some e \<and> addable e \<and> y \<in> objs e)"
    by (simp add: UN_iff Bex_def A conj_assoc)
  have d: "y \<in> (\<Union>x \<in> D. objs (snd x)) \<longleftrightarrow> (\<exists>ip e. map_of new ip = None \<and> map_of old ip = Some e \<and> y \<in> objs e)"
    by (simp add: UN_iff Bex_def D conj_assoc)
  have wp: "y \<in> wired objs prev' \<longleftrightarrow> (\<exists>ip e. map_of new ip \<noteq> None \<and> map_of old ip = Some e \<and> y \<in> objs e) \<or>
      (\<exists>ip e. map_of old ip = None \<and> map_of new ip = Some e \<and> addable e \<and> y \<in> objs e)"
    unfolding in_wired p kept_Some by blast
  have "y \<notin> (\<Union>x \<in> D. objs (snd x))" if y: "y \<in> wired objs prev' \<or> y \<in> F"
  proof
    assume "y \<in> (\<Union>x \<in> D. objs (snd x))"
    then obtain i f where i: "map_of new i = None" "map_of old i = Some f" "y \<in> objs f" unfolding d by blast
    have "y \<in> wired objs old" unfolding in_wired using i by blast
    then have "y \<notin> F" using F by blast
    then obtain j e where "kept addable old new j = Some e" "y \<in> objs e" using y by (auto simp: in_wired p)
    then show False using i dj[of i f j e] by (cases "i = j") (auto simp: kept_Some)
  qed
  moreover have "y \<in> wired objs old \<longrightarrow> y \<in> wired objs prev' \<or> y \<in> (\<Union>x \<in> D. objs (snd x))"
    unfolding wp d unfolding in_wired by blast
  moreover have "y \<in> wired objs prev' \<longrightarrow> y \<in> wired objs old \<or> y \<in> (\<Union>x \<in> A. objs (snd x))"
    unfolding wp a unfolding in_wired by blast
  moreover have "y \<in> (\<Union>x \<in> A. objs (snd x)) \<longrightarrow> y \<in> wired objs prev'" unfolding wp a by blast
  ultimately show "y \<in> ?L \<longleftrightarrow> y \<in> ?R" by blast
qed

lemma fresh_objs:
  assumes "entries_ok good objs old new" "F \<inter> wired objs new = {}" "map_of old ip = None" "map_of new ip = Some e"
  shows "objs e \<inter> (wired objs old \<union> F) = {}"
proof -
  have "y \<notin> wired objs old" if y: "y \<in> objs e" for y
  proof
    assume "y \<in> wired objs old"
    then obtain ip' e' where o: "map_of old ip' = Some e'" "y \<in> objs e'" by (auto simp: in_wired)
    then have "ip \<noteq> ip'" using assms(3) by auto
    then show False using entries_okD(4)[OF assms(1), of ip e ip' e'] assms(4) o y by blast
  qed
  moreover have "objs e \<subseteq> wired objs new" unfolding in_wired subset_iff using assms(4) by blast
  ultimately show ?thesis using assms(2) by blast
qed

context reconciler
begin

lemma separate_range:
  assumes "entries_ok good objs old new" "valid_order ro" "gomap_ok m"
    "\<And>ip e. map_of m ip = Some e \<Longrightarrow> map_of old ip = Some e \<or> map_of new ip = Some e"
  shows "separate (go_range ro k m)"
  unfolding separate_def list_all_iff Ball_def mem_go_range[OF assms(2,3)]
  using distinct_go_range[OF assms(2,3)] assms(4) entries_okD(3,4)[OF assms(1)] by meson

text \<open>The maps of a difference, with the entries they hold.\<close>

lemma diff_maps:
  assumes ok: "entries_ok good objs old new" and ro: "valid_order ro"
  defines "d \<equiv> calculateDiffOfEntries ro old new"
  shows "gomap_ok (toAdd d)" "gomap_ok (toDel d)" "gomap_ok (toUpd d)" "gomap_ok (noop d)"
    "map_of (toAdd d) ip = Some e \<longleftrightarrow> map_of old ip = None \<and> map_of new ip = Some e"
    "map_of (toDel d) ip = Some e \<longleftrightarrow> map_of new ip = None \<and> map_of old ip = Some e"
    "map_of (toUpd d) ip = Some e \<longleftrightarrow> map_of old ip \<noteq> None \<and> map_of new ip \<noteq> map_of old ip \<and> map_of new ip = Some e"
    "map_of (noop d) ip = Some e \<longleftrightarrow> map_of new ip = map_of old ip \<and> map_of new ip = Some e"
proof -
  note g = entries_okD(1,2)[OF ok]
  show "gomap_ok (toAdd d)" "gomap_ok (toDel d)" "gomap_ok (toUpd d)" "gomap_ok (noop d)"
    unfolding d_def using calculateDiff_spec(2-5)[OF ro g(2)] g(1) by blast+
  have "diff_spec old new d" unfolding d_def by (rule calculateDiff_spec(1)[OF ro g(2)])
  note s = this[unfolded diff_spec_def, rule_format, of ip]
  show "map_of (toAdd d) ip = Some e \<longleftrightarrow> map_of old ip = None \<and> map_of new ip = Some e"
    "map_of (toDel d) ip = Some e \<longleftrightarrow> map_of new ip = None \<and> map_of old ip = Some e"
    "map_of (toUpd d) ip = Some e \<longleftrightarrow> map_of old ip \<noteq> None \<and> map_of new ip \<noteq> map_of old ip \<and> map_of new ip = Some e"
    "map_of (noop d) ip = Some e \<longleftrightarrow> map_of new ip = map_of old ip \<and> map_of new ip = Some e"
    using s by (auto split: if_splits)
qed

lemma kept_round:
  fixes a b c :: nat
  assumes ok: "entries_ok good objs old new" and ro: "valid_order ro"
  defines "d \<equiv> calculateDiffOfEntries ro old new"
  defines "prev' \<equiv> foldl (upd_step old) (foldl keep_noop (foldl keep_noop [] (go_range ro a (noop d)))
      (filter (\<lambda>x. addable (snd x)) (go_range ro b (toAdd d)))) (go_range ro c (toUpd d))"
  shows "map_of prev' = kept addable old new" "gomap_ok prev'"
proof -
  note m = diff_maps[OF ok ro, folded d_def] and key = entries_okD(3)[OF ok]
  let ?R = "go_range ro a (noop d)" and ?A = "go_range ro b (toAdd d)" and ?U = "go_range ro c (toUpd d)"
    and ?add = "filter (\<lambda>x. addable (snd x))"
  have k: "list_all (\<lambda>x. ipNoCidr (snd x) = fst x) ?R" "list_all (\<lambda>x. ipNoCidr (snd x) = fst x) (?add ?A)"
    "list_all (\<lambda>x. good (snd x) \<and> ipNoCidr (snd x) = fst x) ?U"
    unfolding list_all_iff Ball_def set_filter mem_Collect_eq mem_go_range[OF ro m(1)] mem_go_range[OF ro m(3)] mem_go_range[OF ro m(4)] m(5,7,8)
    using key by blast+
  have dA: "distinct (map fst (?add ?A))" using distinct_go_range[OF ro m(1)] by (simp add: distinct_map_filter)
  note u = upd_loop[OF k(3), of old "foldl keep_noop (foldl keep_noop [] ?R) (?add ?A)", folded prev'_def]
  note kn = map_of_keep_noop[OF k(2) dA] map_of_keep_noop[OF k(1) distinct_go_range[OF ro m(4)]]
  have "map_of prev' ip = kept addable old new ip" for ip
  proof (cases "map_of new ip")
    case None
    then have "map_of (toAdd d) ip = None" "map_of (toUpd d) ip = None" "map_of (noop d) ip = None"
      using m(5)[of ip] m(7)[of ip] m(8)[of ip] by (metis not_None_eq)+
    then show ?thesis unfolding u[THEN conjunct1] kn map_of_filter_snd[OF distinct_go_range[OF ro m(1)]] map_of_go_range[OF ro m(1)]
        map_of_go_range[OF ro m(3)] map_of_go_range[OF ro m(4)] by (simp add: kept_def None)
  next
    case (Some e)
    then show ?thesis unfolding u[THEN conjunct1] kn map_of_filter_snd[OF distinct_go_range[OF ro m(1)]] map_of_go_range[OF ro m(1)]
        map_of_go_range[OF ro m(3)] map_of_go_range[OF ro m(4)]
      using m(5)[of ip e] m(7)[of ip e] m(8)[of ip e] calculateDiff_spec(1)[OF ro entries_okD(2)[OF ok], of old, folded d_def, unfolded diff_spec_def, rule_format, of ip]
      by (auto simp: kept_def mgetd_def split: option.splits)
  qed
  then show "map_of prev' = kept addable old new" by (rule ext)
  show "gomap_ok prev'" using u gomap_ok_keep_noop by auto
qed

lemma reconciled:
  assumes ok: "entries_ok good objs old new" and ro: "valid_order ro"
    and t: "table w = wired objs old \<union> F" and F: "F \<inter> (wired objs old \<union> wired objs new) = {}"
  shows "\<exists>prev' w'. reconcile ro k add_step del_step upd_step (calculateDiffOfEntries ro old new) old w = Ok (prev', w') \<and>
    gomap_ok prev' \<and> map_of prev' = kept addable old new \<and> table w' = wired objs prev' \<union> F"
proof -
  define d where "d = calculateDiffOfEntries ro old new"
  note m = diff_maps[OF ok ro, folded d_def]
  let ?R = "go_range ro k (noop d)" and ?A = "go_range ro (k + 1) (toAdd d)" and ?D = "go_range ro (k + 2) (toDel d)"
    and ?add = "filter (\<lambda>x. addable (snd x))"
  define p1 where "p1 = foldl keep_noop (foldl keep_noop [] ?R) (?add ?A)"
  have mA: "x \<in> set (?add ?A) \<longleftrightarrow> map_of old (fst x) = None \<and> map_of new (fst x) = Some (snd x) \<and> addable (snd x)" for x
    by (auto simp: mem_go_range[OF ro m(1)] m(5))
  have mD: "x \<in> set ?D \<longleftrightarrow> map_of new (fst x) = None \<and> map_of old (fst x) = Some (snd x)" for x
    unfolding mem_go_range[OF ro m(2)] m(6) ..
  have sep: "separate ?A" "separate ?D"
    by (rule separate_range[OF ok ro m(1)] separate_range[OF ok ro m(2)], use m(5,6) in blast)+
  have fr: "list_all (\<lambda>x. objs (snd x) \<inter> table w = {}) ?A"
    unfolding list_all_iff Ball_def mem_go_range[OF ro m(1)] m(5) t using fresh_objs[OF ok] F by blast
  obtain w1 where w1: "each add_step (foldl keep_noop [] ?R, w) ?A = Ok (p1, w1)" "table w1 = table w \<union> objs_in (?add ?A)"
    using add_loop[OF sep(1) fr, of "foldl keep_noop [] ?R"] unfolding p1_def by (elim exE conjE)
  have sub: "objs_in ?D \<subseteq> table w1" unfolding w1(2) t UN_subset_iff Ball_def mD by (auto simp: in_wired)
  obtain w2 where w2: "each del_step (p1, w1) ?D = Ok (p1, w2)" "table w2 = table w1 - objs_in ?D"
    using del_loop[OF sep(2) sub, of p1] by (elim exE conjE)
  let ?p = "foldl (upd_step old) p1 (go_range ro (k + 3) (toUpd d))"
  have run: "reconcile ro k add_step del_step upd_step d old w = Ok (?p, w2)"
    unfolding reconcile_def w1(1) outcome.case w2(1) prod.case ..
  note p = kept_round[OF ok ro, of k "k + 1" "k + 3", folded d_def, folded p1_def]
  have "table w2 = wired objs ?p \<union> F"
    unfolding w2(2) w1(2) t by (rule wired_round[OF ok F p(1) mA mD])
  then show ?thesis using run p unfolding d_def[symmetric] by blast
qed

end

section \<open>Peers and remote containers\<close>

interpretation peers: reconciler table "add_peer_step env name" "del_peer_step env name" upd_peer_step
    "\<lambda>e. vx_kernel env table \<and> plain_peer name e" "\<lambda>_. True" "objs_of name"
  for table :: "'w \<Rightarrow> kobj set" and env :: "'w vx_env" and name
proof (unfold_locales, goal_cases)
  case (1 e w prev ip)
  then obtain p where "\<not> Self e" "newPeerVxlanEntry name e = Ok p" "objs_of name e = peer_objs p" by (auto elim: plain_peerD)
  then show ?case using 1 peer_add_kernel[of env table p w] by (auto simp: add_peer_step_def Let_def)
next
  case (3 e w prev ip)
  then obtain p where "\<not> Self e" "newPeerVxlanEntry name e = Ok p" "objs_of name e = peer_objs p" by (auto elim: plain_peerD)
  then show ?case using 3 peer_del_kernel[of env table p w] by (auto simp: del_peer_step_def Let_def)
qed (auto simp: upd_peer_step_def Let_def elim: plain_peerD)

interpretation remotes: reconciler table "add_remote_step env name m" "del_remote_step env name m" upd_remote_step
    "\<lambda>e. vx_kernel env table \<and> v4_mapping m \<and> plain_remote e" "routed m" remote_objs
  for table :: "'w \<Rightarrow> kobj set" and env :: "'w vx_env" and name m
proof (unfold_locales, goal_cases)
  case (1 e w prev ip)
  then obtain r where r: "newRemoteVxlanEntry name e m = Ok r" "re_via r \<noteq> []" "remote_objs e = {KRoute (re_ipnet r), KArp (re_ip r)}"
    using newRemote_Ok[of e m name] by blast
  then show ?case using 1 remote_add_kernel[of env table r w] by (auto simp: add_remote_step_def Let_def)
next
  case (2 e s ip)
  then obtain r where "newRemoteVxlanEntry name e m = Ok r" "re_via r = []" using newRemote_Ok[of e m name] by blast
  then show ?case by (cases s) (simp add: add_remote_step_def Let_def)
next
  case (3 e w prev ip)
  then obtain r where r: "newRemoteVxlanEntry name e m = Ok r" "remote_objs e = {KRoute (re_ipnet r), KArp (re_ip r)}"
    using newRemote_Ok[of e m name] by blast
  then show ?case using 3 remote_del_kernel[of env table r w] by (auto simp: del_remote_step_def Let_def)
qed (simp add: upd_remote_step_def)

text \<open>Which hosts have a peer, according to the entries remembered for peers.\<close>

definition has_peer :: "entry gomap \<Rightarrow> string \<Rightarrow> bool" where
  "has_peer m h \<longleftrightarrow> (\<exists>ip e. map_of m ip = Some e \<and> Peer e \<and> HostIpAddress e = h)"

lemma set_mput: "set (mput k v m) \<subseteq> insert (k, v) (set m)"
  unfolding mput_def by (induction m) auto

lemma mapping_fold:
  assumes "list_all (\<lambda>x. plain_peer name (snd x)) xs"
  shows "(v4_mapping acc \<longrightarrow> v4_mapping (foldl mapping_step acc xs)) \<and>
    (map_of (foldl mapping_step acc xs) h \<noteq> None \<longleftrightarrow>
       map_of acc h \<noteq> None \<or> list_ex (\<lambda>x. Peer (snd x) \<and> HostIpAddress (snd x) = h) xs)"
  using assms
proof (induction xs arbitrary: acc)
  case (Cons x xs)
  have "plain_peer name (snd x)" using Cons.prems by simp
  then obtain p :: peerVxlanEntry and n where p: "\<not> Self (snd x)" "parseCIDR (IpAddress (snd x)) = Some (pe_ip p, n)" "to4 (pe_ip p) \<noteq> []"
    by (rule plain_peerD) blast
  have s: "mapping_step acc x = (if Peer (snd x) then mput (HostIpAddress (snd x)) (pe_ip p) acc else acc)"
    by (simp add: mapping_step_def p Let_def)
  have v: "v4_mapping acc \<Longrightarrow> v4_mapping (mapping_step acc x)"
    using p(3) set_mput[of "HostIpAddress (snd x)" "pe_ip p" acc] by (auto simp: s v4_mapping_def list_all_iff)
  show ?case using Cons.IH[of "mapping_step acc x"] Cons.prems v by (auto simp: s)
qed simp

lemma buildPeersMapping_spec:
  assumes "valid_order ro" "gomap_ok m" "\<And>ip e. map_of m ip = Some e \<Longrightarrow> plain_peer name e"
  shows "v4_mapping (buildPeersMapping ro m)" "map_of (buildPeersMapping ro m) h \<noteq> None \<longleftrightarrow> has_peer m h"
proof -
  have "list_all (\<lambda>x. plain_peer name (snd x)) (go_range ro 8 m)"
    using assms(3) by (auto simp: list_all_iff mem_go_range[OF assms(1,2)])
  note f = mapping_fold[OF this, of "[]" h]
  show "v4_mapping (buildPeersMapping ro m)" using f by (simp add: buildPeersMapping_def v4_mapping_def)
  show "map_of (buildPeersMapping ro m) h \<noteq> None \<longleftrightarrow> has_peer m h"
    using f by (simp add: buildPeersMapping_def list_ex_iff has_peer_def Bex_def mem_go_range[OF assms(1,2)])
qed

section \<open>A configuration\<close>

text \<open>
  Entries that the backend can handle: peers and containers with addresses that parse, under the
  address they have; entries at different keys have different addresses, and no peer has the
  address of a container.
\<close>

definition distinct_addresses :: "(string \<times> entry) list \<Rightarrow> bool" where
  "distinct_addresses xs = list_all (\<lambda>x. list_all (\<lambda>y. fst x = fst y \<or> overlay_ip (snd x) \<noteq> overlay_ip (snd y)) xs) xs"

definition proper :: "string \<Rightarrow> (string \<times> entry) list \<Rightarrow> (string \<times> entry) list \<Rightarrow> bool" where
  "proper name ps rs \<longleftrightarrow>
     list_all (\<lambda>x. plain_peer name (snd x) \<and> ipNoCidr (snd x) = fst x) ps \<and>
     list_all (\<lambda>x. plain_remote (snd x) \<and> ipNoCidr (snd x) = fst x) rs \<and>
     distinct_addresses ps \<and> distinct_addresses rs \<and>
     list_all (\<lambda>x. list_all (\<lambda>y. overlay_ip (snd x) \<noteq> overlay_ip (snd y)) rs) ps"

definition programmed :: "string \<Rightarrow> entry gomap \<Rightarrow> entry gomap \<Rightarrow> kobj set" where
  "programmed name ps rs = wired (objs_of name) ps \<union> wired remote_objs rs"

text \<open>Objects that belong to none of the addresses.\<close>

definition foreign :: "kobj set \<Rightarrow> (string \<times> entry) list \<Rightarrow> bool" where
  "foreign F xs \<longleftrightarrow> owner ` F \<inter> (\<lambda>x. overlay_ip (snd x)) ` set xs = {}"

definition owned :: "(entry \<Rightarrow> kobj set) \<Rightarrow> bool" where
  "owned objs \<longleftrightarrow> (\<forall>e. \<forall>y \<in> objs e. owner y = overlay_ip e)"

lemma owned_objs [simp, intro]: "owned (objs_of name)" "owned remote_objs"
  by (simp_all add: owned_def owner_objs_of owner_remote_objs)

lemma foreign_Un: "foreign (A \<union> B) xs \<longleftrightarrow> foreign A xs \<and> foreign B xs"
  and foreign_append: "foreign F (xs @ ys) \<longleftrightarrow> foreign F xs \<and> foreign F ys"
  unfolding foreign_def image_Un set_append by blast+

lemma foreign_subset: "foreign F xs \<Longrightarrow> set ys \<subseteq> set xs \<Longrightarrow> foreign F ys"
  unfolding foreign_def by blast

lemma proper_subset: "proper name ps rs \<Longrightarrow> set ps' \<subseteq> set ps \<Longrightarrow> set rs' \<subseteq> set rs \<Longrightarrow> proper name ps' rs'"
  unfolding proper_def distinct_addresses_def list_all_iff by blast

lemma wired_owner:
  assumes "x \<in> wired objs m" "owned objs"
  obtains ip e where "(ip, e) \<in> set m" "x \<in> objs e" "owner x = overlay_ip e"
  using assms by (auto simp: in_wired owned_def dest: map_of_SomeD)

lemma wired_apart:
  assumes "list_all (\<lambda>x. list_all (\<lambda>y. overlay_ip (snd x) \<noteq> overlay_ip (snd y)) ys) xs"
    "owned objs" "owned objs'"
    "set m \<subseteq> set xs" "set m' \<subseteq> set ys"
  shows "wired objs m \<inter> wired objs' m' = {}"
proof -
  have False if x: "x \<in> wired objs m" "x \<in> wired objs' m'" for x
  proof -
    obtain ip e where 1: "(ip, e) \<in> set m" "owner x = overlay_ip e" using wired_owner[OF x(1) assms(2)] .
    obtain ip' e' where 2: "(ip', e') \<in> set m'" "owner x = overlay_ip e'" using wired_owner[OF x(2) assms(3)] .
    show False using assms(1,4,5) 1 2 by (fastforce simp: list_all_iff)
  qed
  then show ?thesis by blast
qed

lemma wired_foreign:
  assumes "foreign F xs" "owned objs" "set m \<subseteq> set xs"
  shows "F \<inter> wired objs m = {}"
proof -
  have False if x: "x \<in> F" "x \<in> wired objs m" for x
  proof -
    obtain ip e where 1: "(ip, e) \<in> set m" "owner x = overlay_ip e" using wired_owner[OF x(2) assms(2)] .
    show False using assms(1,3) 1 x(1) unfolding foreign_def by (force simp: image_iff)
  qed
  then show ?thesis by blast
qed

lemma entries_okI:
  assumes "gomap_ok old" "gomap_ok new" "list_all (\<lambda>x. good (snd x) \<and> ipNoCidr (snd x) = fst x) (old @ new)"
    "distinct_addresses (old @ new)" "owned objs"
  shows "entries_ok good objs old new"
proof -
  have "objs (snd x) \<inter> objs (snd y) = {}" if "x \<in> set (old @ new)" "y \<in> set (old @ new)" "fst x \<noteq> fst y" for x y
  proof -
    have "overlay_ip (snd x) \<noteq> overlay_ip (snd y)" using assms(4) that unfolding distinct_addresses_def list_all_iff by blast
    then show ?thesis using assms(5) unfolding owned_def by (metis disjoint_iff)
  qed
  then show ?thesis using assms(1-3) by (simp add: entries_ok_def list_all_iff)
qed

lemma set_kept: "gomap_ok m \<Longrightarrow> map_of m = kept addable old new \<Longrightarrow> set m \<subseteq> set (old @ new)"
  by (auto simp: gomap_map_of_iff[symmetric] kept_Some dest: map_of_SomeD)

lemma peers_round:
  assumes "vx_kernel env table" "valid_order ro" "gomap_ok (vo_prevPeerEntries ov)" "gomap_ok new"
    "proper (vi_name (vo_v ov)) (vo_prevPeerEntries ov @ new) rs" "foreign F (vo_prevPeerEntries ov @ new)"
    "table w = wired (objs_of (vi_name (vo_v ov))) (vo_prevPeerEntries ov) \<union> F"
  shows "\<exists>prev' w'. handlePeerEntries env ro (calculateDiffOfEntries ro (vo_prevPeerEntries ov) new) ov w =
      Ok (ov\<lparr>vo_prevPeerEntries := prev'\<rparr>, w') \<and> gomap_ok prev' \<and> map_of prev' = kept (\<lambda>_. True) (vo_prevPeerEntries ov) new \<and>
    table w' = wired (objs_of (vi_name (vo_v ov))) prev' \<union> F"
proof -
  let ?n = "vi_name (vo_v ov)" and ?old = "vo_prevPeerEntries ov"
  have ok: "entries_ok (\<lambda>e. vx_kernel env table \<and> plain_peer ?n e) (objs_of ?n) ?old new"
    using assms(1,3-5) by (intro entries_okI owned_objs(1)) (simp_all add: proper_def list_all_iff)
  have F: "F \<inter> (wired (objs_of ?n) ?old \<union> wired (objs_of ?n) new) = {}"
    using wired_foreign[OF assms(6) owned_objs(1)[of ?n]] by (simp add: Int_Un_distrib)
  show ?thesis using peers.reconciled[where k = 9, OF ok assms(2,7) F]
    by (auto simp: handlePeerEntries_reconcile)
qed

lemma remotes_round:
  assumes "vx_kernel env table" "valid_order ro" "gomap_ok (vo_prevNonPeerRemoteEntries ov)" "gomap_ok new" "v4_mapping m"
    "proper name ps (vo_prevNonPeerRemoteEntries ov @ new)" "F \<inter> wired remote_objs (vo_prevNonPeerRemoteEntries ov) = {}"
    "F \<inter> wired remote_objs new = {}" "table w = wired remote_objs (vo_prevNonPeerRemoteEntries ov) \<union> F"
  shows "\<exists>prev' w'. handleNonPeerRemoteEntries env ro (calculateDiffOfEntries ro (vo_prevNonPeerRemoteEntries ov) new) m ov w =
      Ok (ov\<lparr>vo_prevNonPeerRemoteEntries := prev'\<rparr>, w') \<and> gomap_ok prev' \<and>
    map_of prev' = kept (routed m) (vo_prevNonPeerRemoteEntries ov) new \<and> table w' = wired remote_objs prev' \<union> F"
proof -
  let ?old = "vo_prevNonPeerRemoteEntries ov"
  have ok: "entries_ok (\<lambda>e. vx_kernel env table \<and> v4_mapping m \<and> plain_remote e) remote_objs ?old new"
    using assms(1,3-6) by (intro entries_okI owned_objs(2)) (simp_all add: proper_def list_all_iff)
  have F: "F \<inter> (wired remote_objs ?old \<union> wired remote_objs new) = {}" using assms(7,8) by blast
  show ?thesis using remotes.reconciled[where k = 13, OF ok assms(2,9) F, of "vi_name (vo_v ov)"]
    by (auto simp: handleNonPeerRemoteEntries_reconcile)
qed

text \<open>What one configuration makes of the store's entries.\<close>

definition current_peers :: "vx_db \<Rightarrow> entry gomap" where
  "current_peers db = mdel (d_LocalIp db) (d_PeerEntries db)"

definition round_done :: "vx_db \<Rightarrow> vx_Overlay \<Rightarrow> vx_Overlay \<Rightarrow> bool" where
  "round_done db ov ov' \<longleftrightarrow> vo_v ov' = vo_v ov \<and>
     map_of (vo_prevPeerEntries ov') = kept (\<lambda>_. True) (vo_prevPeerEntries ov) (current_peers db) \<and>
     map_of (vo_prevNonPeerRemoteEntries ov') =
       kept (\<lambda>e. HostIpAddress e \<noteq> [] \<and> has_peer (vo_prevPeerEntries ov') (HostIpAddress e))
         (vo_prevNonPeerRemoteEntries ov) (d_RemoteNonPeerEntries db)"

definition maps_ok :: "vx_Overlay \<Rightarrow> bool" where
  "maps_ok ov \<longleftrightarrow> gomap_ok (vo_prevPeerEntries ov) \<and> gomap_ok (vo_prevNonPeerRemoteEntries ov)"

abbreviation programmed_by :: "vx_Overlay \<Rightarrow> kobj set" where
  "programmed_by ov \<equiv> programmed (vi_name (vo_v ov)) (vo_prevPeerEntries ov) (vo_prevNonPeerRemoteEntries ov)"

lemma remotes_foreign:
  assumes "list_all (\<lambda>x. list_all (\<lambda>y. overlay_ip (snd x) \<noteq> overlay_ip (snd y)) rs) ps" "set R \<subseteq> set rs"
  shows "foreign (wired remote_objs R) ps"
proof -
  have "owner x \<noteq> overlay_ip (snd y)" if x: "x \<in> wired remote_objs R" and y: "y \<in> set ps" for x y
  proof -
    obtain ip e where "(ip, e) \<in> set R" "owner x = overlay_ip e" using wired_owner[OF x owned_objs(2)] .
    moreover have "\<forall>z \<in> set R. overlay_ip (snd y) \<noteq> overlay_ip (snd z)" using assms y unfolding list_all_iff by blast
    ultimately show ?thesis by fastforce
  qed
  then show ?thesis unfolding foreign_def by blast
qed

lemma configure_round:
  assumes k: "vx_kernel env table" and ro: "valid_order ro" and g: "maps_ok ov" "gomap_ok (d_PeerEntries db)" "gomap_ok (d_RemoteNonPeerEntries db)"
    and pr: "proper (vi_name (vo_v ov)) (vo_prevPeerEntries ov @ current_peers db) (vo_prevNonPeerRemoteEntries ov @ d_RemoteNonPeerEntries db)"
    and F: "foreign F (vo_prevPeerEntries ov @ current_peers db @ vo_prevNonPeerRemoteEntries ov @ d_RemoteNonPeerEntries db)"
    and t: "table w = programmed_by ov \<union> F"
  shows "\<exists>ov' w'. vx_configure env ro db ov w = Ok (None, db\<lparr>d_PeerEntries := current_peers db\<rparr>, ov', w') \<and>
    maps_ok ov' \<and> round_done db ov ov' \<and> table w' = programmed_by ov' \<union> F"
proof -
  let ?n = "vi_name (vo_v ov)" and ?P = "vo_prevPeerEntries ov" and ?R = "vo_prevNonPeerRemoteEntries ov"
    and ?p = "current_peers db" and ?r = "d_RemoteNonPeerEntries db"
  have apart: "list_all (\<lambda>x. list_all (\<lambda>y. overlay_ip (snd x) \<noteq> overlay_ip (snd y)) (?R @ ?r)) (?P @ ?p)"
    using pr by (simp add: proper_def)
  note no = wired_apart[OF apart owned_objs(1)[of ?n] owned_objs(2)]
  obtain w1 where w1: "checkAndCreateVTEP env ov w = (None, w1)" "table w1 = wired (objs_of ?n) ?P \<union> (wired remote_objs ?R \<union> F)"
    using vx_kernelD(1)[OF k, of ?n w] t by (auto simp: checkAndCreateVTEP_def findVxlanInterface_def programmed_def Un_assoc)
  have fp: "foreign (wired remote_objs ?R \<union> F) (?P @ ?p)"
    using remotes_foreign[OF apart, of ?R] F by (simp add: foreign_Un foreign_append)
  obtain P' w2 where w2: "handlePeerEntries env ro (calculateDiffOfEntries ro ?P ?p) ov w1 = Ok (ov\<lparr>vo_prevPeerEntries := P'\<rparr>, w2)"
      "gomap_ok P'" "map_of P' = kept (\<lambda>_. True) ?P ?p" "table w2 = wired remote_objs ?R \<union> (wired (objs_of ?n) P' \<union> F)"
    using peers_round[OF k ro _ _ pr fp w1(2)] g by (auto simp: maps_ok_def current_peers_def)
  define m where "m = buildPeersMapping ro P'"
  have sP: "set P' \<subseteq> set (?P @ ?p)" by (rule set_kept[OF w2(2,3)])
  have plain: "plain_peer ?n e" if m: "map_of P' ip = Some e" for ip e
  proof -
    have "(ip, e) \<in> set (?P @ ?p)" using map_of_SomeD[OF m] sP by blast
    then show ?thesis using pr unfolding proper_def list_all_iff by fastforce
  qed
  note bm = buildPeersMapping_spec[OF ro w2(2) plain, folded m_def]
  have F2: "(wired (objs_of ?n) P' \<union> F) \<inter> wired remote_objs M = {}" if "set M \<subseteq> set (?R @ ?r)" for M
    using no[OF sP that] wired_foreign[OF F owned_objs(2), of M] that by auto
  obtain R' w3 where w3: "handleNonPeerRemoteEntries env ro (calculateDiffOfEntries ro ?R ?r) m
      (ov\<lparr>vo_prevPeerEntries := P', vo_peersMapping := m\<rparr>) w2 =
        Ok (ov\<lparr>vo_prevPeerEntries := P', vo_peersMapping := m, vo_prevNonPeerRemoteEntries := R'\<rparr>, w3)"
      "gomap_ok R'" "map_of R' = kept (routed m) ?R ?r" "table w3 = wired remote_objs R' \<union> (wired (objs_of ?n) P' \<union> F)"
    using remotes_round[OF k ro, of "ov\<lparr>vo_prevPeerEntries := P', vo_peersMapping := m\<rparr>" ?r m ?n "?P @ ?p" "wired (objs_of ?n) P' \<union> F" w2]
      bm(1) w2(4) F2[of ?R] F2[of ?r] g pr by (auto simp: maps_ok_def)
  let ?ov' = "ov\<lparr>vo_prevPeerEntries := P', vo_peersMapping := m, vo_prevNonPeerRemoteEntries := R'\<rparr>"
  have "vx_configure env ro db ov w = Ok (None, db\<lparr>d_PeerEntries := ?p\<rparr>, ?ov', w3)"
    using w2(1) w3(1) by (simp add: vx_configure_def w1(1) Let_def current_peers_def m_def)
  moreover have "routed m = (\<lambda>e. HostIpAddress e \<noteq> [] \<and> has_peer P' (HostIpAddress e))"
    using bm(2) by (simp add: fun_eq_iff routed_def)
  ultimately show ?thesis using w2 w3
    by (intro exI[of _ ?ov'] exI[of _ w3]) (auto simp: maps_ok_def round_done_def programmed_def)
qed


section \<open>Any number of configurations\<close>

text \<open>The part of a configuration that stays: the overlay object and the kernel.\<close>

definition vx_round :: "'w vx_env \<Rightarrow> vx_Overlay \<times> 'w \<Rightarrow> map_order \<times> vx_db \<Rightarrow> (vx_Overlay \<times> 'w) outcome" where
  "vx_round env s x =
     (case vx_configure env (fst x) (snd x) (fst s) (snd s) of
        Ok (_, _, ov', w') \<Rightarrow> Ok (ov', w') | Err e \<Rightarrow> Err e | Panic m \<Rightarrow> Panic m)"

definition store_ok :: "(string \<times> entry) list \<Rightarrow> (string \<times> entry) list \<Rightarrow> map_order \<times> vx_db \<Rightarrow> bool" where
  "store_ok ps rs x \<longleftrightarrow> valid_order (fst x) \<and> gomap_ok (d_PeerEntries (snd x)) \<and> gomap_ok (d_RemoteNonPeerEntries (snd x)) \<and>
     set (current_peers (snd x)) \<subseteq> set ps \<and> set (d_RemoteNonPeerEntries (snd x)) \<subseteq> set rs"

definition in_sync :: "('w \<Rightarrow> kobj set) \<Rightarrow> kobj set \<Rightarrow> string \<Rightarrow> (string \<times> entry) list \<Rightarrow> (string \<times> entry) list \<Rightarrow> vx_Overlay \<times> 'w \<Rightarrow> bool" where
  "in_sync table F name ps rs s \<longleftrightarrow> vi_name (vo_v (fst s)) = name \<and> maps_ok (fst s) \<and>
     set (vo_prevPeerEntries (fst s)) \<subseteq> set ps \<and> set (vo_prevNonPeerRemoteEntries (fst s)) \<subseteq> set rs \<and>
     table (snd s) = programmed_by (fst s) \<union> F"

lemma configure_in_sync:
  assumes k: "vx_kernel env table" and pr: "proper name ps rs" and F: "foreign F (ps @ rs)"
    and s: "in_sync table F name ps rs (ov, w)" and x: "store_ok ps rs (ro, db)"
  obtains ov' w' where "vx_configure env ro db ov w = Ok (None, db\<lparr>d_PeerEntries := current_peers db\<rparr>, ov', w')"
    "in_sync table F name ps rs (ov', w')" "round_done db ov ov'"
proof -
  note si = s[unfolded in_sync_def fst_conv snd_conv] and xi = x[unfolded store_ok_def fst_conv snd_conv]
  have "proper (vi_name (vo_v ov)) (vo_prevPeerEntries ov @ current_peers db) (vo_prevNonPeerRemoteEntries ov @ d_RemoteNonPeerEntries db)"
    using proper_subset[OF pr] si xi by simp
  moreover have "foreign F (vo_prevPeerEntries ov @ current_peers db @ vo_prevNonPeerRemoteEntries ov @ d_RemoteNonPeerEntries db)"
    by (rule foreign_subset[OF F]) (use si xi in auto)
  ultimately obtain ov' w' where r: "vx_configure env ro db ov w = Ok (None, db\<lparr>d_PeerEntries := current_peers db\<rparr>, ov', w')"
      "maps_ok ov'" "round_done db ov ov'" "table w' = programmed_by ov' \<union> F"
    using configure_round[OF k, of ro ov db F w] si xi by blast
  have g: "gomap_ok (vo_prevPeerEntries ov')" "gomap_ok (vo_prevNonPeerRemoteEntries ov')" using r(2) by (simp_all add: maps_ok_def)
  have "set (vo_prevPeerEntries ov') \<subseteq> set ps" "set (vo_prevNonPeerRemoteEntries ov') \<subseteq> set rs"
    using set_kept[OF g(1) r(3)[unfolded round_done_def, THEN conjunct2, THEN conjunct1]]
      set_kept[OF g(2) r(3)[unfolded round_done_def, THEN conjunct2, THEN conjunct2]] si xi by auto
  then have "in_sync table F name ps rs (ov', w')" using r si by (simp add: in_sync_def round_done_def)
  from that[OF r(1) this r(3)] show thesis .
qed

lemma round_in_sync:
  assumes k: "vx_kernel env table" "proper name ps rs" "foreign F (ps @ rs)" and s: "in_sync table F name ps rs s" and x: "store_ok ps rs x"
  shows "\<exists>s'. vx_round env s x = Ok s' \<and> in_sync table F name ps rs s' \<and> round_done (snd x) (fst s) (fst s')"
proof -
  obtain ov w ro db where eq: "s = (ov, w)" "x = (ro, db)" by (metis prod.exhaust)
  obtain ov' w' where "vx_configure env ro db ov w = Ok (None, db\<lparr>d_PeerEntries := current_peers db\<rparr>, ov', w')"
      "in_sync table F name ps rs (ov', w')" "round_done db ov ov'"
    by (rule configure_in_sync[OF k s[unfolded eq] x[unfolded eq]])
  then show ?thesis by (simp add: vx_round_def eq)
qed

lemma rounds_in_sync:
  assumes "vx_kernel env table" "proper name ps rs" "foreign F (ps @ rs)" "in_sync table F name ps rs s" "list_all (store_ok ps rs) xs"
  shows "\<exists>s'. each (vx_round env) s xs = Ok s' \<and> in_sync table F name ps rs s'"
  using assms(4,5)
proof (induction xs arbitrary: s)
  case (Cons x xs)
  obtain s' where "vx_round env s x = Ok s'" "in_sync table F name ps rs s'"
    using round_in_sync[OF assms(1-3) Cons.prems(1), of x] Cons.prems(2) by auto
  then show ?case using Cons.IH Cons.prems(2) by simp
qed simp

lemma each_snoc: "each f s (xs @ [x]) = (case each f s xs of Ok s' \<Rightarrow> f s' x | Err e \<Rightarrow> Err e | Panic m \<Rightarrow> Panic m)"
  by (induction xs arbitrary: s) (auto split: outcome.split)

text \<open>
  Any number of configurations from the start, with stores whose contents change in between. As
  long as the addresses that ever occur are proper and the kernel holds nothing that belongs to
  them, no configuration fails or panics. After the last one the peers that are programmed are
  those at the addresses of the store's peers, the programmed containers are at addresses of the
  store's containers, among them all those whose host has a programmed peer, and the kernel holds
  exactly what they need beside what it held before: nothing of an earlier store is left behind.
\<close>

theorem vxlan_rounds:
  assumes "vx_kernel env table" "proper name ps rs" "foreign F (ps @ rs)" "list_all (store_ok ps rs) (xs @ [(ro, db)])"
    and "vi_name (vo_v ov) = name" "vo_prevPeerEntries ov = []" "vo_prevNonPeerRemoteEntries ov = []" "table w = F"
  shows "\<exists>ov' w'. each (vx_round env) (ov, w) (xs @ [(ro, db)]) = Ok (ov', w') \<and> table w' = programmed_by ov' \<union> F \<and>
    dom (map_of (vo_prevPeerEntries ov')) = dom (map_of (current_peers db)) \<and>
    dom (map_of (vo_prevNonPeerRemoteEntries ov')) \<subseteq> dom (map_of (d_RemoteNonPeerEntries db)) \<and>
    {ip. \<exists>e. map_of (d_RemoteNonPeerEntries db) ip = Some e \<and> HostIpAddress e \<noteq> [] \<and> has_peer (vo_prevPeerEntries ov') (HostIpAddress e)}
      \<subseteq> dom (map_of (vo_prevNonPeerRemoteEntries ov'))"
proof -
  have "in_sync table F name ps rs (ov, w)"
    using assms(5-8) by (simp add: in_sync_def maps_ok_def programmed_def wired_def)
  then obtain s1 where s1: "each (vx_round env) (ov, w) xs = Ok s1" "in_sync table F name ps rs s1"
    using rounds_in_sync[OF assms(1-3), of "(ov, w)" xs] assms(4) by (auto simp: list_all_append)
  obtain s2 where s2: "vx_round env s1 (ro, db) = Ok s2" "in_sync table F name ps rs s2" "round_done db (fst s1) (fst s2)"
    using round_in_sync[OF assms(1-3) s1(2), of "(ro, db)"] assms(4) by auto
  note r = s2(3)[unfolded round_done_def]
  have "dom (map_of (vo_prevPeerEntries (fst s2))) = dom (map_of (current_peers db))"
    using r by (auto simp: dom_def kept_def split: option.splits)
  moreover have "dom (map_of (vo_prevNonPeerRemoteEntries (fst s2))) \<subseteq> dom (map_of (d_RemoteNonPeerEntries db))"
    using r by (auto simp: dom_def kept_def split: option.splits)
  moreover have "{ip. \<exists>e. map_of (d_RemoteNonPeerEntries db) ip = Some e \<and> HostIpAddress e \<noteq> [] \<and>
      has_peer (vo_prevPeerEntries (fst s2)) (HostIpAddress e)} \<subseteq> dom (map_of (vo_prevNonPeerRemoteEntries (fst s2)))"
    using r by (auto simp: dom_def kept_def split: option.splits)
  ultimately show ?thesis using s1(1) s2(1,2)
    by (intro exI[of _ "fst s2"] exI[of _ "snd s2"]) (simp add: each_snoc in_sync_def)
qed

section \<open>Examples\<close>

definition peer_entry :: "string \<Rightarrow> string \<Rightarrow> entry" where
  "peer_entry ip host = zeroEntry\<lparr>IpAddress := ip @ ''/16'', HostIpAddress := host, Peer := True\<rparr>"

definition overlay_of :: "entry gomap \<Rightarrow> vx_Overlay" where
  "overlay_of prev = \<lparr>vo_peersMapping = [], vo_prevPeerEntries = prev, vo_prevNonPeerRemoteEntries = [],
     vo_v = \<lparr>vi_name = vxlanInterfaceName, vi_vni = 1042, vi_port = 4789, vi_mac = [], vi_mtu = 1400\<rparr>\<rparr>"

definition container_entry :: "string \<Rightarrow> string \<Rightarrow> entry" where
  "container_entry ip host = zeroEntry\<lparr>IpAddress := ip @ ''/16'', HostIpAddress := host\<rparr>"

definition store_before :: vx_db where
  "store_before = \<lparr>d_LocalIp = ''10.42.0.1'',
     d_PeerEntries = [(''10.42.0.1'', peer_entry ''10.42.0.1'' ''192.0.2.1''), (''10.42.0.2'', peer_entry ''10.42.0.2'' ''192.0.2.2''),
       (''10.42.0.3'', peer_entry ''10.42.0.3'' ''192.0.2.3'')],
     d_RemoteNonPeerEntries = [(''10.42.1.5'', container_entry ''10.42.1.5'' ''192.0.2.2'')]\<rparr>"

definition store_after :: vx_db where
  "store_after = \<lparr>d_LocalIp = ''10.42.0.1'',
     d_PeerEntries = [(''10.42.0.1'', peer_entry ''10.42.0.1'' ''192.0.2.1''), (''10.42.0.3'', peer_entry ''10.42.0.3'' ''192.0.2.33''),
       (''10.42.0.4'', peer_entry ''10.42.0.4'' ''192.0.2.4'')],
     d_RemoteNonPeerEntries = [(''10.42.1.6'', container_entry ''10.42.1.6'' ''192.0.2.4''),
       (''10.42.1.7'', container_entry ''10.42.1.7'' ''192.0.2.99'')]\<rparr>"

definition example_peers :: "entry gomap" where
  "example_peers = current_peers store_before @ current_peers store_after"

definition example_remotes :: "entry gomap" where
  "example_remotes = d_RemoteNonPeerEntries store_before @ d_RemoteNonPeerEntries store_after"

lemma example_proper: "proper vxlanInterfaceName example_peers example_remotes"
  by code_simp

lemma example_stores:
  "gomap_ok (d_PeerEntries store_before)" "gomap_ok (d_RemoteNonPeerEntries store_before)"
  "gomap_ok (d_PeerEntries store_after)" "gomap_ok (d_RemoteNonPeerEntries store_after)" "gomap_ok (current_peers store_before)"
  by code_simp+

lemma overlay_of_simps [simp]:
  "vi_name (vo_v (overlay_of m)) = vxlanInterfaceName" "vo_prevPeerEntries (overlay_of m) = m"
  "vo_prevNonPeerRemoteEntries (overlay_of m) = []"
  by (simp_all add: overlay_of_def)


theorem vxlan_rounds_witness:
  "\<exists>ov' w'. each (vx_round set_env) (overlay_of [], {KArp (parseIP ''10.42.9.9'')}) [(\<lambda>_ ks. ks, store_before), (\<lambda>_ ks. rev ks, store_after)] =
      Ok (ov', w') \<and> w' = programmed_by ov' \<union> {KArp (parseIP ''10.42.9.9'')} \<and>
    dom (map_of (vo_prevPeerEntries ov')) = {''10.42.0.3'', ''10.42.0.4''}"
proof -
  have d: "dom (map_of (current_peers store_after)) = {''10.42.0.3'', ''10.42.0.4''}"
    by (auto simp: current_peers_def store_after_def mdel_def)
  have F: "foreign {KArp (parseIP ''10.42.9.9'')} (example_peers @ example_remotes)" by code_simp
  have "list_all (store_ok example_peers example_remotes) ([(\<lambda>_ ks. ks, store_before)] @ [(\<lambda>_ ks. rev ks, store_after)])"
    using example_stores valid_order_id valid_order_rev by (simp add: store_ok_def example_peers_def example_remotes_def)
  from vxlan_rounds[OF set_env_kernel example_proper F this, of "overlay_of []" "{KArp (parseIP ''10.42.9.9'')}"] d
  show ?thesis by auto
qed

theorem diff_partition_witness:
  "let old = [(''10.42.0.2'', peer_entry ''10.42.0.2'' ''192.0.2.2'')];
       new = [(''10.42.0.3'', peer_entry ''10.42.0.3'' ''192.0.2.3'')]
   in diff_spec old new (calculateDiffOfEntries (\<lambda>_ ks. rev ks) old new)"
  using diff_partition[OF valid_order_rev, of "[(''10.42.0.2'', peer_entry ''10.42.0.2'' ''192.0.2.2'')]"
      "[(''10.42.0.3'', peer_entry ''10.42.0.3'' ''192.0.2.3'')]"]
  by (simp add: gomap_ok_def)

section \<open>Failures\<close>

text \<open>
  C39. A peer that could be programmed only in part stays so. When the forwarding entry cannot be
  added, the ARP entry is taken back but the route is not; from then on, as long as the route is
  there, every further attempt to add the peer fails at the route and changes nothing.
\<close>

theorem partial_add_sticks:
  assumes "vx_kernel env table"
    and "KFdb (pe_vtepMAC p) (pe_hostIP p) \<in> table w" "KRoute (pe_ipnet p) \<notin> table w" "KArp (pe_ip p) \<notin> table w"
  shows "\<exists>e w'. peer_add env p w = (Some e, w') \<and> table w' = insert (KRoute (pe_ipnet p)) (table w) \<and>
    (\<forall>w''. KRoute (pe_ipnet p) \<in> table w'' \<longrightarrow>
       fst (peer_add env p w'') \<noteq> None \<and> table (snd (peer_add env p w'')) = table w'')"
proof -
  note k = entry_ops_kernel[OF assms(1)]
  note add = k(1)[of "pe_ipnet p" "[]" "pe_intfName p", unfolded inserts_def, THEN spec]
  obtain w1 where 1: "addRoute env (pe_ipnet p) [] (pe_intfName p) w = (None, w1)" "table w1 = insert (KRoute (pe_ipnet p)) (table w)"
    using add[of w] assms(3) by (auto simp: prod_eq_iff)
  obtain w2 where 2: "addARPEntry env (pe_intfName p) (pe_ip p) (pe_vtepMAC p) w1 = (None, w2)" "table w2 = insert (KArp (pe_ip p)) (table w1)"
    using addARP_kernel[OF assms(1), of "pe_intfName p" "pe_ip p" "pe_vtepMAC p" w1] by (metis prod.collapse)
  have "KFdb (pe_vtepMAC p) (pe_hostIP p) \<in> table w2" using 1(2) 2(2) assms(2) by simp
  then obtain e w3 where 3: "addVxlanForwardingEntry env (pe_intfName p) (pe_vtepMAC p) (pe_hostIP p) w2 = (Some e, w3)" "table w3 = table w2"
    using k(4)[of "pe_vtepMAC p" "pe_hostIP p" "pe_intfName p", unfolded inserts_def, THEN spec, of w2]
    by (auto simp: prod_eq_iff)
  obtain w4 where 4: "delARPEntry env (pe_intfName p) (pe_ip p) (pe_vtepMAC p) w3 = (None, w4)" "table w4 = table w3 - {KArp (pe_ip p)}"
    using removes_present[OF k(3)[of "pe_ip p" "pe_intfName p" "pe_vtepMAC p"], of w3] 2(2) 3(2) by auto
  have "peer_add env p w = (Some e, w4)" by (simp add: peer_add_def andThen_def 1(1) 2(1) 3(1) 4(1))
  moreover have "table w4 = insert (KRoute (pe_ipnet p)) (table w)"
    using assms(4) by (simp add: 4(2) 3(2) 2(2) 1(2))
  moreover have "fst (peer_add env p u) \<noteq> None \<and> table (snd (peer_add env p u)) = table u" if u: "KRoute (pe_ipnet p) \<in> table u" for u
  proof -
    obtain e u' where "addRoute env (pe_ipnet p) [] (pe_intfName p) u = (Some e, u')" "table u' = table u"
      using add[of u] u by (cases "addRoute env (pe_ipnet p) [] (pe_intfName p) u") auto
    then show ?thesis by (simp add: peer_add_def andThen_def)
  qed
  ultimately show ?thesis by blast
qed

theorem partial_add_sticks_witness:
  "let p = \<lparr>pe_intfName = vxlanInterfaceName, pe_ip = [10, 42, 0, 2], pe_ipnet = IPNet [10, 42, 0, 2] [255, 255, 255, 255],
            pe_vtepMAC = [14, 0, 10, 42, 0, 2], pe_hostIP = [192, 0, 2, 2]\<rparr>
   in \<exists>e w'. peer_add set_env p {KFdb (pe_vtepMAC p) (pe_hostIP p)} = (Some e, w') \<and>
        w' = {KRoute (pe_ipnet p), KFdb (pe_vtepMAC p) (pe_hostIP p)} \<and> fst (peer_add set_env p {KRoute (pe_ipnet p)}) \<noteq> None"
  unfolding Let_def
  using partial_add_sticks[OF set_env_kernel,
      of "\<lparr>pe_intfName = vxlanInterfaceName, pe_ip = [10, 42, 0, 2], pe_ipnet = IPNet [10, 42, 0, 2] [255, 255, 255, 255],
            pe_vtepMAC = [14, 0, 10, 42, 0, 2], pe_hostIP = [192, 0, 2, 2]\<rparr>"
         "{KFdb [14, 0, 10, 42, 0, 2] [192, 0, 2, 2]}"]
  by simp

lemma each_panics:
  assumes "x \<in> set xs" "\<And>s. f s x = Panic m" "\<And>s y e. f s y \<noteq> Err e"
  shows "\<exists>m. each f s xs = Panic m"
  using assms(1)
proof (induction xs arbitrary: s)
  case (Cons y xs)
  show ?case
  proof (cases "y = x")
    case True
    then show ?thesis by (simp add: assms(2))
  next
    case False
    then show ?thesis using Cons assms(3)[of s y] by (cases "f s y") auto
  qed
qed simp

lemma add_peer_not_Err: "add_peer_step env name s ie \<noteq> Err e"
  by (cases "newPeerVxlanEntry name (snd ie)") (auto simp: add_peer_step_def Let_def split: prod.splits option.splits)

text \<open>
  C40. A single new peer with an IPv6 overlay address makes the whole reconciliation panic, whatever
  the kernel does and in whatever order the peers are visited.
\<close>

theorem ipv6_peer_panics:
  assumes "valid_order ro" "gomap_ok new" "map_of new ip = Some e" "map_of (vo_prevPeerEntries ov) ip = None" "\<not> Self e"
    and "parseCIDR (IpAddress e) = Some (a, n)" "to4 a = []" "ParseIPNet (ipNoCidr e @ ''/32'') = Some ipn"
  shows "\<exists>m. handlePeerEntries env ro (calculateDiffOfEntries ro (vo_prevPeerEntries ov) new) ov w = Panic m"
proof -
  let ?d = "calculateDiffOfEntries ro (vo_prevPeerEntries ov) new" and ?f = "add_peer_step env (vi_name (vo_v ov))"
  have "map_of (toAdd ?d) ip = Some e"
    using calculateDiff_spec(1)[OF assms(1,2), of "vo_prevPeerEntries ov"] assms(3,4) by (simp add: diff_spec_def)
  then have x: "(ip, e) \<in> set (go_range ro 10 (toAdd ?d))"
    using mem_go_range[OF assms(1) calculateDiff_spec(2)[OF assms(1,2)], of "(ip, e)"] by simp
  have "?f s (ip, e) = Panic ''index out of range''" for s
    using assms(5-8) by (cases s) (simp add: add_peer_step_def newPeerVxlanEntry_def getMAC_cases)
  note each_panics[OF x, of ?f, OF this add_peer_not_Err]
  then obtain m where "each ?f (foldl keep_noop [] (go_range ro 9 (noop ?d)), w) (go_range ro 10 (toAdd ?d)) = Panic m" by blast
  then show ?thesis by (simp add: handlePeerEntries_def Let_def)
qed

theorem ipv6_peer_panics_witness:
  "\<exists>m. handlePeerEntries set_env (\<lambda>_ ks. ks) (calculateDiffOfEntries (\<lambda>_ ks. ks) []
     [(''fd00::2'', peer_entry ''fd00::2'' ''192.0.2.2'')]) (overlay_of []) {} = Panic m"
proof -
  have c: "parseCIDR (IpAddress (peer_entry ''fd00::2'' ''192.0.2.2'')) \<noteq> None \<and>
      to4 (fst (the (parseCIDR (IpAddress (peer_entry ''fd00::2'' ''192.0.2.2''))))) = [] \<and>
      ParseIPNet (ipNoCidr (peer_entry ''fd00::2'' ''192.0.2.2'') @ ''/32'') \<noteq> None \<and> \<not> Self (peer_entry ''fd00::2'' ''192.0.2.2'')"
    by code_simp
  then obtain a n ipn where d: "parseCIDR (IpAddress (peer_entry ''fd00::2'' ''192.0.2.2'')) = Some (a, n)" "to4 a = []"
      "ParseIPNet (ipNoCidr (peer_entry ''fd00::2'' ''192.0.2.2'') @ ''/32'') = Some ipn" by auto
  show ?thesis
    using ipv6_peer_panics[OF valid_order_id, of "[(''fd00::2'', peer_entry ''fd00::2'' ''192.0.2.2'')]" "''fd00::2''"
        "peer_entry ''fd00::2'' ''192.0.2.2''" "overlay_of []", OF _ _ _ _ d, of set_env "{}"] c
    by (simp add: gomap_ok_def overlay_of_def)
qed

end
