(* ===== verification/Vxlan_System.thy ===== *)
theory Vxlan_System
  imports Daemon_System Vxlan_Sync
begin

text \<open>
  The daemon with the VXLAN backend: the stores as this backend reads them, and the composition of a
  store, the backend and the kernel from the start of the daemon on. The locale \<open>vxlan_store\<close> is what
  the backend relies on in a store; both stores are interpretations.
\<close>

section \<open>What the backend reads and changes of a store\<close>

text \<open>
  The accessors hand out the store's own map of peers, from which \<^verbatim>\<open>configure\<close> deletes the local
  address. So the store has to be updated after it.
\<close>

definition simple_vx_view :: "Simple \<Rightarrow> vx_db" where
  "simple_vx_view s = \<lparr>d_LocalIp = Simple_LocalIpAddress s, d_PeerEntries = Simple_PeerEntriesMap s,
     d_RemoteNonPeerEntries = Simple_RemoteNonPeerEntriesMap s\<rparr>"

definition simple_set_peers :: "entry gomap \<Rightarrow> Simple \<Rightarrow> Simple" where
  "simple_set_peers m s = s\<lparr>smp_config := (smp_config s)\<lparr>cfg_peers := m\<rparr>\<rparr>"

definition metadata_vx_view :: "MetadataStore \<Rightarrow> vx_db" where
  "metadata_vx_view ms = \<lparr>d_LocalIp = MS_LocalIpAddress ms, d_PeerEntries = MS_PeerEntriesMap ms,
     d_RemoteNonPeerEntries = MS_RemoteNonPeerEntriesMap ms\<rparr>"

definition metadata_set_peers :: "entry gomap \<Rightarrow> MetadataStore \<Rightarrow> MetadataStore" where
  "metadata_set_peers m ms = ms\<lparr>ms_peersMap := m\<rparr>"

section \<open>Runs of the daemon\<close>

definition bind_ok :: "'a outcome \<Rightarrow> ('a \<Rightarrow> 'b outcome) \<Rightarrow> 'b outcome" where
  "bind_ok r f = (case r of Ok x \<Rightarrow> f x | Err e \<Rightarrow> Err e | Panic m \<Rightarrow> Panic m)"

lemma bind_ok_Ok [simp]: "bind_ok (Ok x) f = f x"
  by (simp add: bind_ok_def)

text \<open>
  The daemon is notified of a change, or requested over HTTP, to reload; each time the answers of
  the surroundings are new ones.
\<close>

datatype vx_trigger = Notified | Requested string

type_synonym 'a vx_event = "vx_trigger \<times> map_order \<times> 'a"

definition vxlan_event ::
  "'w vx_env \<Rightarrow> ('a \<Rightarrow> 'd \<Rightarrow> go_error option \<times> 'd) \<Rightarrow> ('d \<Rightarrow> vx_db) \<Rightarrow> (entry gomap \<Rightarrow> 'd \<Rightarrow> 'd) \<Rightarrow>
   ('d, 'w) vxlan_state \<Rightarrow> 'a vx_event \<Rightarrow> ('d, 'w) vxlan_state outcome" where
  "vxlan_event env reload view setPeers s ev =
     (case ev of (trigger, ro, x) \<Rightarrow>
        (case trigger of
           Notified \<Rightarrow> OnChangeHandler (vxlan_Reload env ro (reload x) view setPeers) s
         | Requested path \<Rightarrow>
             (case srv_serve (vxlan_Reload env ro (reload x) view setPeers) path s of
                Ok (_, s') \<Rightarrow> Ok s' | Err e \<Rightarrow> Err e | Panic m \<Rightarrow> Panic m)))"

text \<open>
  \<^verbatim>\<open>appMain\<close> with this backend: the store is reloaded, the overlay object made and the backend started;
  then the server takes requests, some of which (\<open>early\<close>) may come before the reload of the backend
  and some after it, when changes are noticed too. An error up to the reload of the backend ends the
  daemon.
\<close>

definition vxlan_daemon ::
  "'w vx_env \<Rightarrow> ('a \<Rightarrow> 'd \<Rightarrow> go_error option \<times> 'd) \<Rightarrow> ('d \<Rightarrow> vx_db) \<Rightarrow> (entry gomap \<Rightarrow> 'd \<Rightarrow> 'd) \<Rightarrow>
   'd \<Rightarrow> 'w \<Rightarrow> map_order \<times> 'a \<Rightarrow> 'a vx_event list \<Rightarrow> map_order \<times> 'a \<Rightarrow> 'a vx_event list \<Rightarrow> ('d, 'w) vxlan_state outcome" where
  "vxlan_daemon env reload view setPeers d w rx0 early rx1 evs =
     (case reload (snd rx0) d of
        (Some e, _) \<Rightarrow> Err e
      | (None, d0) \<Rightarrow>
          bind_ok (vx_NewOverlay (d_LocalIp (view d0))) (\<lambda>ov.
          bind_ok (Backend_Start (vxlan_Backend env (fst rx0) (reload (snd rx0)) view setPeers) True [] (d0, ov, w)) (\<lambda>s.
          bind_ok (each (vxlan_event env reload view setPeers) s early) (\<lambda>s.
          bind_ok (Backend_Reload (vxlan_Backend env (fst rx1) (reload (snd rx1)) view setPeers) s) (\<lambda>(err, s).
            case err of
              Some e \<Rightarrow> Err e
            | None \<Rightarrow> each (vxlan_event env reload view setPeers) s evs)))))"

text \<open>Answers of the surroundings whose peers and containers are among given ones.\<close>

definition answers_in ::
  "('a \<Rightarrow> 'd \<Rightarrow> go_error option \<times> 'd) \<Rightarrow> ('d \<Rightarrow> vx_db) \<Rightarrow> 'd \<Rightarrow> (string \<times> entry) list \<Rightarrow> (string \<times> entry) list \<Rightarrow> 'a \<Rightarrow> bool" where
  "answers_in reload view d ps rs x =
     (case reload x d of
        (Some _, _) \<Rightarrow> True
      | (None, d') \<Rightarrow> set (current_peers (view d')) \<subseteq> set ps \<and> set (d_RemoteNonPeerEntries (view d')) \<subseteq> set rs)"

text \<open>The programs that the backend executes leave the kernel's tables alone.\<close>

definition exec_frame :: "'w vx_env \<Rightarrow> ('w \<Rightarrow> kobj set) \<Rightarrow> bool" where
  "exec_frame env table \<longleftrightarrow> (\<forall>cmd args w. table (snd (vx_Exec env cmd args w)) = table w)"

text \<open>The store and the kernel agree.\<close>

definition settled :: "vx_db \<Rightarrow> vx_Overlay \<Rightarrow> bool" where
  "settled db ov \<longleftrightarrow>
     dom (map_of (vo_prevPeerEntries ov)) = dom (map_of (d_PeerEntries db)) \<and>
     dom (map_of (vo_prevNonPeerRemoteEntries ov)) \<subseteq> dom (map_of (d_RemoteNonPeerEntries db)) \<and>
     {ip. \<exists>e. map_of (d_RemoteNonPeerEntries db) ip = Some e \<and> HostIpAddress e \<noteq> [] \<and> has_peer (vo_prevPeerEntries ov) (HostIpAddress e)}
       \<subseteq> dom (map_of (vo_prevNonPeerRemoteEntries ov))"

lemma round_done_settled:
  assumes "round_done db ov ov'"
  shows "settled (db\<lparr>d_PeerEntries := current_peers db\<rparr>) ov'"
  using assms unfolding round_done_def settled_def by (auto simp: dom_def kept_def split: option.splits)

lemma NewOverlay_fresh:
  assumes "vx_NewOverlay ip = Ok ov"
  shows "vi_name (vo_v ov) = vxlanInterfaceName" "vo_prevPeerEntries ov = []" "vo_prevNonPeerRemoteEntries ov = []"
  using assms by (auto simp: vx_NewOverlay_def getDefaultVxlanInterfaceInfo_def Let_def split: outcome.splits)

lemma served_by:
  assumes "reload s = Ok (err, s')"
  obtains reply s'' where "srv_serve reload path s = Ok (reply, s'')" "s'' = s \<or> s'' = s'"
proof (cases "serve_mux srv_handlers path")
  case (Handled h)
  show thesis
  proof (cases h)
    case SrvPing
    with Handled show thesis by (intro that[of _ s]) (simp_all add: srv_serve_def srv_ping_def)
  next
    case SrvReload
    with Handled assms show thesis by (cases err) (auto simp: srv_serve_def srv_reload_def intro: that)
  qed
qed (auto simp: srv_serve_def intro: that)

section \<open>Stores under the backend\<close>

text \<open>
  A reload depends on the fixed parameters of the store only (\<open>ident\<close>), not on what is in it, and a
  failed one changes nothing.
\<close>

locale vxlan_store =
  fixes reload :: "'a \<Rightarrow> 's \<Rightarrow> go_error option \<times> 's"
    and view :: "'s \<Rightarrow> vx_db"
    and set_peers :: "entry gomap \<Rightarrow> 's \<Rightarrow> 's"
    and ident :: "'s \<Rightarrow> 'i"
  assumes reload_same: "ident s = ident t \<Longrightarrow> reload x s = (None, s') \<Longrightarrow> \<exists>t'. reload x t = (None, t') \<and> view t' = view s'"
    and reload_maps: "reload x s = (None, s') \<Longrightarrow> gomap_ok (d_PeerEntries (view s')) \<and> gomap_ok (d_RemoteNonPeerEntries (view s'))"
    and reload_failed: "reload x s = (Some e, s') \<Longrightarrow> s' = s"
    and reload_ident: "reload x s = (None, s') \<Longrightarrow> ident s' = ident s"
    and set_view: "view (set_peers m s) = (view s)\<lparr>d_PeerEntries := m\<rparr>"
    and set_ident: "ident (set_peers m s) = ident s"
begin

abbreviation backend_reload where "backend_reload env ro x \<equiv> vxlan_Reload env ro (reload x) view set_peers"

lemma answers_in_ident:
  assumes "answers_in reload view s ps rs x" "ident t = ident s" "reload x t = (None, t')"
  shows "set (current_peers (view t')) \<subseteq> set ps" "set (d_RemoteNonPeerEntries (view t')) \<subseteq> set rs"
  using assms(1) reload_same[OF assms(2,3)] by (auto simp: answers_in_def)

lemma reload_store_ok:
  assumes "answers_in reload view s ps rs x" "ident t = ident s" "reload x t = (None, t')" "valid_order ro"
  shows "store_ok ps rs (ro, view t')"
  using answers_in_ident[OF assms(1-3)] reload_maps[OF assms(3)] assms(4) by (simp add: store_ok_def)

text \<open>A configuration from the contents of a store, which then has the peers without the local address.\<close>

lemma configure_settles:
  assumes k: "vx_kernel env table" "proper name ps rs" "foreign F (ps @ rs)"
    and s: "in_sync table F name ps rs (ov, w)" and o: "store_ok ps rs (ro, view d)"
  obtains m ov' w' where "vx_configure env ro (view d) ov w = Ok (None, (view d)\<lparr>d_PeerEntries := m\<rparr>, ov', w')"
    "in_sync table F name ps rs (ov', w')" "settled (view (set_peers m d)) ov'" "ident (set_peers m d) = ident d"
proof -
  obtain ov' w' where "vx_configure env ro (view d) ov w = Ok (None, (view d)\<lparr>d_PeerEntries := current_peers (view d)\<rparr>, ov', w')"
      "in_sync table F name ps rs (ov', w')" "round_done (view d) ov ov'"
    by (rule configure_in_sync[OF k s o])
  then show thesis by (intro that[of "current_peers (view d)" ov' w']) (simp_all add: set_view set_ident round_done_settled)
qed

lemma reload_settles:
  assumes k: "vx_kernel env table" "proper name ps rs" "foreign F (ps @ rs)" "valid_order ro"
    and a: "answers_in reload view d ps rs x" "ident t = ident d" and s: "in_sync table F name ps rs (ov, w)" and r: "reload x t = (None, t1)"
  obtains t' ov' w' where "backend_reload env ro x (t, ov, w) = Ok (None, t', ov', w')"
    "in_sync table F name ps rs (ov', w')" "settled (view t') ov'" "ident t' = ident d"
proof -
  obtain m ov' w' where "vx_configure env ro (view t1) ov w = Ok (None, (view t1)\<lparr>d_PeerEntries := m\<rparr>, ov', w')"
      "in_sync table F name ps rs (ov', w')" "settled (view (set_peers m t1)) ov'" "ident (set_peers m t1) = ident t1"
    by (rule configure_settles[OF k(1-3) s reload_store_ok[OF a r k(4)]])
  then show thesis
    by (intro that[of "set_peers m t1" ov' w']) (simp_all add: vxlan_Reload_def vx_Reload_def r reload_ident[OF r] a(2))
qed

text \<open>
  No reload can fail the daemon. It keeps the kernel as it is remembered (\<open>synced\<close>), and it makes store
  and kernel agree (\<open>agreeing\<close>), or keeps the agreement if it fails.
\<close>

definition synced :: "('w \<Rightarrow> kobj set) \<Rightarrow> kobj set \<Rightarrow> string \<Rightarrow> (string \<times> entry) list \<Rightarrow> (string \<times> entry) list \<Rightarrow> 's \<Rightarrow> ('s, 'w) vxlan_state \<Rightarrow> bool" where
  "synced table F name ps rs d s \<longleftrightarrow> ident (fst s) = ident d \<and> in_sync table F name ps rs (snd s)"

definition agreeing :: "('w \<Rightarrow> kobj set) \<Rightarrow> kobj set \<Rightarrow> string \<Rightarrow> (string \<times> entry) list \<Rightarrow> (string \<times> entry) list \<Rightarrow> 's \<Rightarrow> ('s, 'w) vxlan_state \<Rightarrow> bool" where
  "agreeing table F name ps rs d s \<longleftrightarrow> synced table F name ps rs d s \<and> settled (view (fst s)) (fst (snd s))"

lemma reload_synced:
  assumes k: "vx_kernel env table" "proper name ps rs" "foreign F (ps @ rs)" "valid_order ro"
    and a: "answers_in reload view d ps rs x" and s: "synced table F name ps rs d s"
  obtains err s' where "backend_reload env ro x s = Ok (err, s')" "synced table F name ps rs d s'"
    "agreeing table F name ps rs d s' \<or> s' = s" "err = None \<longleftrightarrow> fst (reload x (fst s)) = None" "err = None \<longrightarrow> agreeing table F name ps rs d s'"
proof -
  obtain t ov w where eq: "s = (t, ov, w)" by (metis prod_cases3)
  note si = s[unfolded synced_def eq fst_conv snd_conv]
  obtain err t1 where r: "reload x t = (err, t1)" by (metis prod.exhaust)
  show thesis
  proof (cases err)
    case None
    obtain t' ov' w' where "backend_reload env ro x (t, ov, w) = Ok (None, t', ov', w')"
        "in_sync table F name ps rs (ov', w')" "settled (view t') ov'" "ident t' = ident d"
      by (rule reload_settles[OF k a si[THEN conjunct1] si[THEN conjunct2] r[unfolded None]])
    then show thesis by (intro that[of None "(t', ov', w')"]) (simp_all add: eq agreeing_def synced_def r None)
  next
    case (Some e)
    have "backend_reload env ro x s = Ok (Some e, s)"
      using r reload_failed[of x t e t1] by (simp add: eq Some vxlan_Reload_def vx_Reload_def)
    then show thesis using s by (rule that) (simp_all add: eq r Some)
  qed
qed

lemma event_synced:
  assumes k: "vx_kernel env table" "proper name ps rs" "foreign F (ps @ rs)" "valid_order ro"
    and a: "answers_in reload view d ps rs x" and s: "synced table F name ps rs d s"
  obtains s' where "vxlan_event env reload view set_peers s (trigger, ro, x) = Ok s'" "synced table F name ps rs d s'"
    "agreeing table F name ps rs d s' \<or> s' = s"
proof -
  obtain err s' where r: "backend_reload env ro x s = Ok (err, s')" "synced table F name ps rs d s'" "agreeing table F name ps rs d s' \<or> s' = s"
    by (rule reload_synced[OF k a s])
  show thesis
  proof (cases trigger)
    case Notified
    then show thesis using r by (intro that[of s']) (simp_all add: vxlan_event_def OnChangeHandler_def)
  next
    case (Requested path)
    obtain reply s'' where q: "srv_serve (backend_reload env ro x) path s = Ok (reply, s'')" "s'' = s \<or> s'' = s'"
      by (rule served_by[where reload = "backend_reload env ro x" and s = s, OF r(1)])
    show thesis by (rule that[of s'']) (use q r(2,3) s in \<open>auto simp: vxlan_event_def Requested\<close>)
  qed
qed

abbreviation events_ok where
  "events_ok d ps rs evs \<equiv> list_all (\<lambda>(_, ro, x). valid_order ro \<and> answers_in reload view d ps rs x) evs"

lemma events_synced:
  assumes k: "vx_kernel env table" "proper name ps rs" "foreign F (ps @ rs)" and "events_ok d ps rs evs" "synced table F name ps rs d s"
  shows "\<exists>s'. each (vxlan_event env reload view set_peers) s evs = Ok s' \<and> synced table F name ps rs d s' \<and>
    (agreeing table F name ps rs d s \<longrightarrow> agreeing table F name ps rs d s')"
  using assms(4,5)
proof (induction evs arbitrary: s)
  case (Cons ev evs)
  obtain trigger ro x where ev: "ev = (trigger, ro, x)" by (metis prod_cases3)
  have x: "valid_order ro" "answers_in reload view d ps rs x" "events_ok d ps rs evs" using Cons.prems(1) by (simp_all add: ev)
  obtain s1 where s1: "vxlan_event env reload view set_peers s (trigger, ro, x) = Ok s1" "synced table F name ps rs d s1"
      "agreeing table F name ps rs d s1 \<or> s1 = s"
    by (rule event_synced[OF k x(1,2) Cons.prems(2)])
  from Cons.IH[OF x(3) s1(2)] s1(1,3) show ?case by (auto simp: ev)
qed simp

text \<open>The start: with or without the checksum offload disabled, the kernel holds what is remembered.\<close>

lemma started_in_sync:
  assumes k: "vx_kernel env table" "exec_frame env table" "proper name ps rs" "foreign F (ps @ rs)" 
    and s: "in_sync table F name ps rs (ov, w)" and o: "store_ok ps rs (ro, view d)"
  obtains d' ov' w' where "Backend_Start (vxlan_Backend env ro sreload view set_peers) launch logFile (d, ov, w) = Ok (d', ov', w')"
    "in_sync table F name ps rs (ov', w')" "ident d' = ident d"
proof -
  obtain err w1 where w1: "disableChecksumOffload env w = (err, w1)" by (metis prod.exhaust)
  have "w1 = snd (vx_Exec env ''ethtool'' [''-K'', ''eth0'', ''tx'', ''off''] w)"
    using w1 by (simp add: disableChecksumOffload_def split: prod.splits)
  then have "table w1 = table w" using k(2) by (simp add: exec_frame_def)
  then have s1: "in_sync table F name ps rs (ov, w1)" using s by (simp add: in_sync_def)
  show thesis
  proof (cases err)
    case None
    obtain m ov' w' where "vx_configure env ro (view d) ov w1 = Ok (None, (view d)\<lparr>d_PeerEntries := m\<rparr>, ov', w')"
        "in_sync table F name ps rs (ov', w')" "ident (set_peers m d) = ident d"
      by (rule configure_settles[OF k(1,3,4) s1 o])
    then show thesis by (intro that[of "set_peers m d" ov' w']) (simp_all add: vxlan_Backend_def vx_Start_def w1 None)
  next
    case (Some e)
    show thesis using s1
      by (intro that[of "set_peers (d_PeerEntries (view d)) d" ov w1]) (simp_all add: vxlan_Backend_def vx_Start_def w1 Some set_ident)
  qed
qed

lemma daemon_agrees:
  assumes k: "vx_kernel env table" "exec_frame env table" "proper vxlanInterfaceName ps rs" "foreign F (ps @ rs)" "table w = F"
    and a: "list_all (\<lambda>(ro, x). valid_order ro \<and> answers_in reload view d ps rs x) [rx0, rx1]" "events_ok d ps rs (early @ evs)"
    and r: "reload (snd rx0) d = (None, d0)" "fst (reload (snd rx1) d) = None" "vx_NewOverlay (d_LocalIp (view d0)) = Ok ov"
  shows "\<exists>s. vxlan_daemon env reload view set_peers d w rx0 early rx1 evs = Ok s \<and> agreeing table F vxlanInterfaceName ps rs d s"
proof -
  let ?n = vxlanInterfaceName
  have rx: "valid_order (fst rx0)" "answers_in reload view d ps rs (snd rx0)" "valid_order (fst rx1)" "answers_in reload view d ps rs (snd rx1)"
    using a(1) by (simp_all split: prod.splits)
  have s: "in_sync table F ?n ps rs (ov, w)"
    using k(5) NewOverlay_fresh[OF r(3)] by (simp add: in_sync_def maps_ok_def programmed_def wired_def)
  have i: "ident d0 = ident d" by (rule reload_ident[OF r(1)])
  obtain d1 ov1 w1 where st: "Backend_Start (vxlan_Backend env (fst rx0) (reload (snd rx0)) view set_peers) True [] (d0, ov, w) = Ok (d1, ov1, w1)"
      "in_sync table F ?n ps rs (ov1, w1)" "ident d1 = ident d0"
    by (rule started_in_sync[OF k(1-4) s reload_store_ok[OF rx(2) refl r(1) rx(1)]])
  have "synced table F ?n ps rs d (d1, ov1, w1)" using st(2,3) i by (simp add: synced_def)
  moreover have e: "events_ok d ps rs early" "events_ok d ps rs evs" using a(2) by simp_all
  ultimately obtain s2 where s2: "each (vxlan_event env reload view set_peers) (d1, ov1, w1) early = Ok s2" "synced table F ?n ps rs d s2"
    using events_synced[OF k(1,3,4) e(1)] by blast
  have i2: "ident d = ident (fst s2)" using s2(2) by (simp add: synced_def)
  have f2: "fst (reload (snd rx1) (fst s2)) = None"
    using reload_same[OF i2, of "snd rx1" "snd (reload (snd rx1) d)"] r(2) by (metis fst_conv prod.collapse)
  obtain err s3 where s3: "backend_reload env (fst rx1) (snd rx1) s2 = Ok (err, s3)" "synced table F ?n ps rs d s3"
      "err = None \<longleftrightarrow> fst (reload (snd rx1) (fst s2)) = None" "err = None \<longrightarrow> agreeing table F ?n ps rs d s3"
    by (rule reload_synced[OF k(1,3,4) rx(3,4) s2(2)])
  have n: "err = None" using s3(3) f2 by simp
  obtain s4 where "each (vxlan_event env reload view set_peers) s3 evs = Ok s4" "agreeing table F ?n ps rs d s4"
    using events_synced[OF k(1,3,4) e(2) s3(2)] s3(4) n by blast
  moreover have "Backend_Reload (vxlan_Backend env (fst rx1) (reload (snd rx1)) view set_peers) s2 = Ok (None, s3)"
    using s3(1) n by (simp add: vxlan_Backend_def)
  ultimately show ?thesis by (simp add: vxlan_daemon_def r(1,3) st(1) s2(1))
qed

end

lemma simple_fold_maps:
  "foldl (simple_step self) ([], [], [], [], []) es = (loc, remote, nonpeers, filtered, ps) \<Longrightarrow> gomap_ok nonpeers \<and> gomap_ok ps"
  using simple_fold_ok[of self es] by (simp add: acc_ok_def classified_def)

interpretation simple_vxlan: vxlan_store Simple_Reload simple_vx_view simple_set_peers "\<lambda>s. (smp_file s, smp_ipOverride s)"
proof (unfold_locales, goal_cases)
  case (1 s t x s')
  then show ?case
    by (auto simp: Simple_Reload_def simple_readFile_def simple_vx_view_def Simple_LocalIpAddress_def Simple_PeerEntriesMap_def
        Simple_RemoteNonPeerEntriesMap_def Let_def split: sum.splits option.splits prod.splits if_splits)
next
  case (2 x s s')
  then show ?case
    by (auto simp: Simple_Reload_def simple_vx_view_def Simple_PeerEntriesMap_def Simple_RemoteNonPeerEntriesMap_def Let_def
        split: sum.splits option.splits prod.splits if_splits dest!: simple_fold_maps)
next
  case (3 x s e s')
  then show ?case by (auto simp: Simple_Reload_def Let_def split: sum.splits option.splits prod.splits if_splits)
next
  case (4 x s s')
  then show ?case by (auto simp: Simple_Reload_def Let_def split: sum.splits option.splits prod.splits if_splits)
qed (simp_all add: simple_vx_view_def simple_set_peers_def Simple_LocalIpAddress_def Simple_PeerEntriesMap_def Simple_RemoteNonPeerEntriesMap_def)

interpretation metadata_vxlan: vxlan_store MetadataStore_Reload metadata_vx_view metadata_set_peers clientIP
proof (unfold_locales, goal_cases)
  case (1 s t x s')
  then show ?case
    by (auto simp: MetadataStore_Reload_def doInternalRefresh_def metadata_vx_view_def MS_LocalIpAddress_def MS_PeerEntriesMap_def
        MS_RemoteNonPeerEntriesMap_def Let_def split: sum.splits prod.splits)
next
  case (2 x s s')
  then have "ms_inv s'" by (auto simp: MetadataStore_Reload_def doInternalRefresh_inv split: sum.splits)
  then show ?case by (simp add: metadata_vx_view_def ms_inv_def classified_def peers_ok_def MS_PeerEntriesMap_def MS_RemoteNonPeerEntriesMap_def)
next
  case (3 x s e s')
  then show ?case by (simp add: MetadataStore_Reload_def split: sum.splits)
next
  case (4 x s s')
  then show ?case by (auto simp: MetadataStore_Reload_def doInternalRefresh_def Let_def split: sum.splits prod.splits)
qed (simp_all add: metadata_vx_view_def metadata_set_peers_def MS_LocalIpAddress_def MS_PeerEntriesMap_def MS_RemoteNonPeerEntriesMap_def)

section \<open>The daemon with the VXLAN backend\<close>


lemma set_env_exec: "exec_frame set_env id"
  by (simp add: exec_frame_def set_env_def)

text \<open>The service names a peer and a workload on the second host; in between it fails, and then the workload is gone.\<close>

definition smaller_client :: metadata_client where
  "smaller_client = example_client\<lparr>GetContainers := Inr (s_Containers example_service)\<rparr>"

definition named :: vx_db where
  "named = metadata_vx_view (snd (MetadataStore_Reload example_client (newMetadataStore [])))"


end
