(* ===== verification/Checker_System.thy ===== *)
theory Checker_System
  imports Checker
begin

text \<open>
  The sidecar as a concurrent system: rounds of the checker, incoming pings and the two locked
  sections of each peer's goroutine, in any order. Shown are the invariant of the heap, that a round
  never panics, what a round makes of the peers and of the reported status, the hysteresis of the
  counters, and that the wait for the port ends.
\<close>

section \<open>The counter\<close>

lemma peer_end_count:
  "p_count (peer_end now ok p) = (if ok then (if p_count p < 3 then p_count p + 1 else p_count p)
     else if 0 < p_count p then p_count p - 1 else p_count p)"
  by (simp add: peer_end_def updateSuccess_def updateFailure_def)

abbreviation outcomes :: "peer \<Rightarrow> (int \<times> bool) list \<Rightarrow> peer" where
  "outcomes p xs \<equiv> foldl (\<lambda>p x. peer_end (fst x) (snd x) p) p xs"

lemma outcomes_range: "p_count p \<in> {0..3} \<Longrightarrow> p_count (outcomes p xs) \<in> {0..3}"
  by (induction xs rule: rev_induct) (auto simp: peer_end_count)

lemma outcomes_lower: "p_count p \<in> {0..3} \<Longrightarrow> p_count p - int (length (filter (\<lambda>x. \<not> snd x) xs)) \<le> p_count (outcomes p xs)"
proof (induction xs rule: rev_induct)
  case (snoc x xs)
  then show ?case using outcomes_range[of p xs] by (auto simp: peer_end_count)
qed simp

text \<open>
  The counter of a peer filters its outcomes. It stays between 0 and 3; after a success the peer
  counts as reachable, whatever happened before; a peer at 3 still counts as reachable after any
  outcomes of which at most two are failures; and after three failures in a row it is unreachable.
\<close>

theorem hysteresis:
  assumes "p_count p \<in> {0..3}"
  shows "p_count (outcomes p xs) \<in> {0..3} \<and>
    0 < p_count (outcomes p (xs @ [(now, True)])) \<and>
    (p_count p = 3 \<and> length (filter (\<lambda>x. \<not> snd x) xs) \<le> 2 \<longrightarrow> 0 < p_count (outcomes p xs)) \<and>
    p_count (outcomes p (xs @ [(t1, False), (t2, False), (t3, False)])) = 0"
  using outcomes_range[OF assms, of xs] outcomes_lower[OF assms, of xs] by (auto simp: peer_end_count)

theorem hysteresis_witness:
  "let p = (new_peer (newChecker 80 5000 1000) ''u'' zeroContainer)\<lparr>p_count := 3\<rparr>
   in 0 < p_count (outcomes p [(1, False), (2, False)]) \<and> p_count (outcomes p [(1, False), (2, False), (3, False)]) = 0"
  using hysteresis[of "(new_peer (newChecker 80 5000 1000) ''u'' zeroContainer)\<lparr>p_count := 3\<rparr>" "[(1, False), (2, False)]"]
    hysteresis[of "(new_peer (newChecker 80 5000 1000) ''u'' zeroContainer)\<lparr>p_count := 3\<rparr>" "[]" 0 1 2 3]
  by (simp add: new_peer_def)

section \<open>The heap\<close>

text \<open>
  The checker's peers are distinct live objects; the goroutines of all other objects have been
  stopped; every address by IP belongs to one of the peers.
\<close>

definition checker_inv :: "checker \<Rightarrow> peer list \<Rightarrow> bool" where
  "checker_inv ck heap \<longleftrightarrow>
     gomap_ok (ck_peers ck) \<and> gomap_ok (ck_peersByIP ck) \<and>
     (\<forall>u a. map_of (ck_peers ck) u = Some a \<longrightarrow> a < length heap \<and> \<not> p_stopped (heap ! a) \<and> p_uuid (heap ! a) = u) \<and>
     (\<forall>a < length heap. \<not> p_stopped (heap ! a) \<longrightarrow> map_of (ck_peers ck) (p_uuid (heap ! a)) = Some a) \<and>
     (\<forall>ip a. map_of (ck_peersByIP ck) ip = Some a \<longrightarrow> (\<exists>u. map_of (ck_peers ck) u = Some a)) \<and>
     (\<forall>a < length heap. p_count (heap ! a) \<in> {0..3})"

lemma checker_invD:
  assumes "checker_inv ck heap"
  shows "gomap_ok (ck_peers ck)" "gomap_ok (ck_peersByIP ck)"
    "map_of (ck_peers ck) u = Some a \<Longrightarrow> a < length heap"
    "map_of (ck_peers ck) u = Some a \<Longrightarrow> \<not> p_stopped (heap ! a)"
    "map_of (ck_peers ck) u = Some a \<Longrightarrow> p_uuid (heap ! a) = u"
    "a < length heap \<Longrightarrow> \<not> p_stopped (heap ! a) \<Longrightarrow> map_of (ck_peers ck) (p_uuid (heap ! a)) = Some a"
    "map_of (ck_peersByIP ck) ip = Some a \<Longrightarrow> \<exists>u. map_of (ck_peers ck) u = Some a"
    "a < length heap \<Longrightarrow> p_count (heap ! a) \<in> {0..3}"
  using assms unfolding checker_inv_def by blast+

lemma peers_inj:
  assumes "checker_inv ck heap" "map_of (ck_peers ck) u = Some a" "map_of (ck_peers ck) u' = Some a"
  shows "u = u'"
  using checker_invD(5)[OF assms(1)] assms(2,3) by blast

text \<open>The object that a container gets: its peer so far, or a new one.\<close>

definition peer_for :: "checker \<Rightarrow> peer list \<Rightarrow> string \<Rightarrow> ck_container \<Rightarrow> peer" where
  "peer_for ck heap u c = (case map_of (ck_peers ck) u of Some a \<Rightarrow> heap ! a | None \<Rightarrow> new_peer ck u c)"

subsection \<open>The loop over the containers\<close>

definition placed :: "checker \<Rightarrow> peer list \<Rightarrow> metadataSnapshot \<Rightarrow> work \<Rightarrow> string \<Rightarrow> ck_container \<Rightarrow> nat \<Rightarrow> bool" where
  "placed ck heap sn wk u c a \<longleftrightarrow>
     map_of (wk_next wk) u = Some a \<and> a < length (wk_heap wk) \<and> wk_heap wk ! a = refresh sn c (peer_for ck heap u c) \<and>
     (case map_of (ck_peers ck) u of Some a0 \<Rightarrow> a = a0 | None \<Rightarrow> length heap \<le> a)"

definition loop_inv :: "checker \<Rightarrow> peer list \<Rightarrow> metadataSnapshot \<Rightarrow> (string \<times> ck_container) list \<Rightarrow> work \<Rightarrow> bool" where
  "loop_inv ck heap sn xs wk \<longleftrightarrow>
     (\<forall>u. map_of (wk_left wk) u = (if u \<in> fst ` set xs then None else map_of (ck_peers ck) u)) \<and>
     (\<forall>u c. (u, c) \<in> set xs \<longrightarrow> (\<exists>a. placed ck heap sn wk u c a)) \<and>
     dom (map_of (wk_next wk)) = fst ` set xs \<and>
     length heap \<le> length (wk_heap wk) \<and>
     (\<forall>a < length heap. (\<forall>u \<in> fst ` set xs. map_of (ck_peers ck) u \<noteq> Some a) \<longrightarrow> wk_heap wk ! a = heap ! a) \<and>
     (\<forall>a. length heap \<le> a \<and> a < length (wk_heap wk) \<longrightarrow> (\<exists>u. map_of (wk_next wk) u = Some a)) \<and>
     (\<forall>ip a. map_of (wk_nextByIP wk) ip = Some a \<longrightarrow> (\<exists>u c. (u, c) \<in> set xs \<and> map_of (wk_next wk) u = Some a \<and> co_PrimaryIP c = ip)) \<and>
     (\<forall>u c. (u, c) \<in> set xs \<longrightarrow> map_of (wk_nextByIP wk) (co_PrimaryIP c) \<noteq> None) \<and>
     gomap_ok (wk_next wk) \<and> gomap_ok (wk_nextByIP wk) \<and> gomap_ok (wk_left wk)"

lemma loop_invD:
  assumes "loop_inv ck heap sn xs wk"
  shows "map_of (wk_left wk) u = (if u \<in> fst ` set xs then None else map_of (ck_peers ck) u)"
    "(u, c) \<in> set xs \<Longrightarrow> \<exists>a. placed ck heap sn wk u c a"
    "dom (map_of (wk_next wk)) = fst ` set xs"
    "length heap \<le> length (wk_heap wk)"
    "a < length heap \<Longrightarrow> (\<And>u. u \<in> fst ` set xs \<Longrightarrow> map_of (ck_peers ck) u \<noteq> Some a) \<Longrightarrow> wk_heap wk ! a = heap ! a"
    "length heap \<le> a \<Longrightarrow> a < length (wk_heap wk) \<Longrightarrow> \<exists>u. map_of (wk_next wk) u = Some a"
    "map_of (wk_nextByIP wk) ip = Some a \<Longrightarrow> \<exists>u c. (u, c) \<in> set xs \<and> map_of (wk_next wk) u = Some a \<and> co_PrimaryIP c = ip"
    "(u, c) \<in> set xs \<Longrightarrow> map_of (wk_nextByIP wk) (co_PrimaryIP c) \<noteq> None"
    "gomap_ok (wk_next wk)" "gomap_ok (wk_nextByIP wk)" "gomap_ok (wk_left wk)"
  using assms unfolding loop_inv_def by blast+

text \<open>
  The step that takes over or creates the object of one container: \<open>a\<close> is its address, \<open>base\<close> the
  heap with the object allocated.
\<close>

definition takes_over :: "checker \<Rightarrow> peer list \<Rightarrow> work \<Rightarrow> string \<Rightarrow> nat \<Rightarrow> peer list \<Rightarrow> bool" where
  "takes_over ck heap wk u a base \<longleftrightarrow>
     a < length base \<and> length (wk_heap wk) \<le> length base \<and> (\<forall>b < length (wk_heap wk). base ! b = wk_heap wk ! b) \<and>
     (case map_of (ck_peers ck) u of
        Some a0 \<Rightarrow> a = a0 \<and> a < length heap \<and> base = wk_heap wk
      | None \<Rightarrow> a = length (wk_heap wk) \<and> length base = Suc a)"

abbreviation after_step :: "metadataSnapshot \<Rightarrow> checker \<Rightarrow> peer list \<Rightarrow> work \<Rightarrow> string \<Rightarrow> ck_container \<Rightarrow> nat \<Rightarrow> peer list \<Rightarrow> work" where
  "after_step sn ck heap wk u c a base \<equiv>
     wk\<lparr>wk_next := mput u a (wk_next wk), wk_nextByIP := mput (co_PrimaryIP c) a (wk_nextByIP wk),
        wk_left := mdel u (wk_left wk), wk_heap := base[a := refresh sn c (peer_for ck heap u c)]\<rparr>"

lemma work_step_eq:
  assumes inv: "checker_inv ck heap" and l: "loop_inv ck heap sn xs wk" and u: "u \<notin> fst ` set xs"
  obtains a base where "work_step ck sn wk (u, c) = after_step sn ck heap wk u c a base" "takes_over ck heap wk u a base"
proof (cases "map_of (ck_peers ck) u")
  case None
  show ?thesis
  proof (rule that[where a = "length (wk_heap wk)" and base = "wk_heap wk @ [new_peer ck u c]"])
    show "work_step ck sn wk (u, c) = after_step sn ck heap wk u c (length (wk_heap wk)) (wk_heap wk @ [new_peer ck u c])"
      using None u by (simp add: work_step_def loop_invD(1)[OF l] peer_for_def)
  qed (use None in \<open>simp add: takes_over_def nth_append\<close>)
next
  case (Some a)
  have a: "a < length heap" by (rule checker_invD(3)[OF inv Some])
  have h: "wk_heap wk ! a = heap ! a"
  proof (rule loop_invD(5)[OF l a])
    fix v
    assume "v \<in> fst ` set xs"
    then have "v \<noteq> u" using u by blast
    then show "map_of (ck_peers ck) v \<noteq> Some a" using peers_inj[OF inv Some] by blast
  qed
  show ?thesis
  proof (rule that[where a = a and base = "wk_heap wk"])
    show "work_step ck sn wk (u, c) = after_step sn ck heap wk u c a (wk_heap wk)"
      using Some u h by (simp add: work_step_def loop_invD(1)[OF l] peer_for_def)
  qed (use Some a loop_invD(4)[OF l] in \<open>simp add: takes_over_def\<close>)
qed

lemma after_step_placed:
  assumes inv: "checker_inv ck heap" and l: "loop_inv ck heap sn xs wk" and u: "u \<notin> fst ` set xs"
    and t: "takes_over ck heap wk u a base" and v: "(v, d) \<in> set (xs @ [(u, c)])"
  shows "\<exists>a'. placed ck heap sn (after_step sn ck heap wk u c a base) v d a'"
proof (cases "v = u")
  case True
  then have "d = c" using v u by force
  then show ?thesis
    using True t loop_invD(4)[OF l] by (intro exI[of _ a]) (cases "map_of (ck_peers ck) u"; simp add: placed_def takes_over_def)
next
  case False
  then have "(v, d) \<in> set xs" using v by simp
  then obtain a' where p: "placed ck heap sn wk v d a'" using loop_invD(2)[OF l] by blast
  then have lt: "a' < length (wk_heap wk)" by (simp add: placed_def)
  have "a' \<noteq> a"
  proof
    assume e: "a' = a"
    then obtain a0 where 0: "map_of (ck_peers ck) u = Some a0" "a = a0" "a < length heap"
      using t lt by (cases "map_of (ck_peers ck) u") (auto simp: takes_over_def)
    show False using p False 0 e peers_inj[OF inv, of u a v] by (cases "map_of (ck_peers ck) v") (auto simp: placed_def)
  qed
  then show ?thesis using p False t lt by (intro exI[of _ a']) (simp add: placed_def takes_over_def)
qed

lemma after_step_heap:
  assumes l: "loop_inv ck heap sn xs wk" and u: "u \<notin> fst ` set xs" and t: "takes_over ck heap wk u a base"
  shows "x < length heap \<Longrightarrow> \<forall>v \<in> fst ` set (xs @ [(u, c)]). map_of (ck_peers ck) v \<noteq> Some x \<Longrightarrow>
      wk_heap (after_step sn ck heap wk u c a base) ! x = heap ! x"
    "length heap \<le> x \<Longrightarrow> x < length (wk_heap (after_step sn ck heap wk u c a base)) \<Longrightarrow>
      \<exists>v. map_of (wk_next (after_step sn ck heap wk u c a base)) v = Some x"
proof -
  note ld = loop_invD[OF l]
  show "wk_heap (after_step sn ck heap wk u c a base) ! x = heap ! x"
    if "x < length heap" "\<forall>v \<in> fst ` set (xs @ [(u, c)]). map_of (ck_peers ck) v \<noteq> Some x"
  proof -
    have "x \<noteq> a" using that t ld(4) by (cases "map_of (ck_peers ck) u") (auto simp: takes_over_def)
    moreover have "wk_heap wk ! x = heap ! x" by (rule ld(5)) (use that in auto)
    ultimately show ?thesis using that(1) t ld(4) by (simp add: takes_over_def)
  qed
  show "\<exists>v. map_of (wk_next (after_step sn ck heap wk u c a base)) v = Some x"
    if x: "length heap \<le> x" "x < length (wk_heap (after_step sn ck heap wk u c a base))"
  proof (cases "x = a")
    case False
    then have "x < length (wk_heap wk)" using x t by (cases "map_of (ck_peers ck) u") (simp_all add: takes_over_def)
    then obtain v where v: "map_of (wk_next wk) v = Some x" using ld(6)[OF x(1)] by blast
    then have "v \<noteq> u" using ld(3) u by blast
    then show ?thesis using v by (intro exI[of _ v]) simp
  qed (auto intro!: exI[of _ u])
qed

lemma after_step_by_ip:
  assumes l: "loop_inv ck heap sn xs wk" and u: "u \<notin> fst ` set xs"
    and x: "map_of (wk_nextByIP (after_step sn ck heap wk u c a base)) ip = Some x"
  shows "\<exists>v d. (v, d) \<in> set (xs @ [(u, c)]) \<and> map_of (wk_next (after_step sn ck heap wk u c a base)) v = Some x \<and> co_PrimaryIP d = ip"
proof (cases "ip = co_PrimaryIP c")
  case True
  then show ?thesis using x by (intro exI[of _ u] exI[of _ c]) simp
next
  case False
  then obtain v d where v: "(v, d) \<in> set xs" "map_of (wk_next wk) v = Some x" "co_PrimaryIP d = ip"
    using x loop_invD(7)[OF l, of ip x] by auto
  then have "v \<noteq> u" using u by force
  then show ?thesis using v by (intro exI[of _ v] exI[of _ d]) simp
qed

lemma loop_inv_step:
  assumes inv: "checker_inv ck heap" and l: "loop_inv ck heap sn xs wk" and u: "u \<notin> fst ` set xs"
  shows "loop_inv ck heap sn (xs @ [(u, c)]) (work_step ck sn wk (u, c))"
proof -
  note ld = loop_invD[OF l]
  obtain a base where s: "work_step ck sn wk (u, c) = after_step sn ck heap wk u c a base" and t: "takes_over ck heap wk u a base"
    by (rule work_step_eq[OF inv l u])
  show ?thesis
    unfolding loop_inv_def s
  proof (intro conjI allI impI, goal_cases)
    case (1 v)
    show ?case by (simp add: ld(1))
  next
    case (2 v d)
    then show ?case by (rule after_step_placed[OF inv l u t])
  next
    case (8 v d)
    then show ?case using ld(8)[of v d] by auto
  qed (use ld(3,4,9-11) t after_step_heap[OF l u t] after_step_by_ip[OF l u] in \<open>simp_all add: takes_over_def\<close>)
qed

lemma loop_inv_fold:
  assumes "checker_inv ck heap" "distinct (map fst xs)"
  shows "loop_inv ck heap sn xs (foldl (work_step ck sn) \<lparr>wk_next = [], wk_nextByIP = [], wk_left = ck_peers ck, wk_heap = heap\<rparr> xs)"
  using assms(2)
proof (induction xs rule: rev_induct)
  case Nil
  then show ?case using checker_invD(1)[OF assms(1)] by (simp add: loop_inv_def)
next
  case (snoc x xs)
  then show ?case using loop_inv_step[OF assms(1) _, of sn xs _ "fst x" "snd x"] by simp
qed

subsection \<open>A round\<close>

lemma close_all_Ok:
  assumes "distinct as" "\<forall>a \<in> set as. a < length heap \<and> \<not> p_stopped (heap ! a)"
  shows "\<exists>heap'. close_all as heap = Ok heap' \<and> length heap' = length heap \<and>
    (\<forall>b < length heap. heap' ! b = (if b \<in> set as then (heap ! b)\<lparr>p_stopped := True\<rparr> else heap ! b))"
  using assms
proof (induction as arbitrary: heap)
  case (Cons a as)
  let ?h = "heap[a := (heap ! a)\<lparr>p_stopped := True\<rparr>]"
  have "\<forall>b \<in> set as. b < length ?h \<and> \<not> p_stopped (?h ! b)" using Cons.prems by (auto simp: nth_list_update)
  from Cons.IH[OF _ this] Cons.prems obtain heap' where "close_all as ?h = Ok heap'" "length heap' = length heap"
      "\<forall>b < length heap. heap' ! b = (if b \<in> set as then (?h ! b)\<lparr>p_stopped := True\<rparr> else ?h ! b)" by auto
  then show ?case using Cons.prems by (intro exI[of _ heap']) (auto simp: nth_list_update)
qed simp

lemma refresh_simps [simp]:
  "p_stopped (refresh sn c p) = p_stopped p" "p_uuid (refresh sn c p) = p_uuid p" "p_count (refresh sn c p) = p_count p"
  by (simp_all add: refresh_def)

lemma peer_for_inv:
  assumes "checker_inv ck heap"
  shows "\<not> p_stopped (peer_for ck heap u c)" "p_uuid (peer_for ck heap u c) = u" "p_count (peer_for ck heap u c) \<in> {0..3}"
  using checker_invD(3-5,8)[OF assms] by (auto simp: peer_for_def new_peer_def split: option.splits)

text \<open>The addresses that are closed at the end of a round are those of the peers without a container.\<close>

lemma closed_addresses:
  assumes inv: "checker_inv ck heap" and ro: "valid_order ro" and l: "loop_inv ck heap sn xs wk"
  defines "as \<equiv> map snd (go_range ro 21 (wk_left wk))"
  shows "distinct as"
    "a \<in> set as \<longleftrightarrow> (\<exists>u. u \<notin> fst ` set xs \<and> map_of (ck_peers ck) u = Some a)"
    "a \<in> set as \<Longrightarrow> a < length heap \<and> wk_heap wk ! a = heap ! a \<and> \<not> p_stopped (heap ! a)"
    "placed ck heap sn wk u c a \<Longrightarrow> u \<in> fst ` set xs \<Longrightarrow> a \<notin> set as"
proof -
  note ld = loop_invD[OF l]
  have mem: "(u, a) \<in> set (go_range ro 21 (wk_left wk)) \<longleftrightarrow> u \<notin> fst ` set xs \<and> map_of (ck_peers ck) u = Some a" for u a
    by (simp add: set_go_range[OF ro] ld(1))
  show set: "a \<in> set as \<longleftrightarrow> (\<exists>u. u \<notin> fst ` set xs \<and> map_of (ck_peers ck) u = Some a)" for a
    unfolding as_def set_map image_iff Bex_def split_paired_Ex mem by simp
  have "inj_on snd (set (go_range ro 21 (wk_left wk)))"
  proof (rule inj_onI)
    fix x y
    assume xy: "x \<in> set (go_range ro 21 (wk_left wk))" "y \<in> set (go_range ro 21 (wk_left wk))" "snd x = snd y"
    obtain u a v b where "x = (u, a)" "y = (v, b)" by (cases x, cases y)
    then show "x = y" using xy peers_inj[OF inv, of u a v] by (simp add: mem)
  qed
  moreover have "distinct (go_range ro 21 (wk_left wk))"
    using distinct_go_range[OF ro ld(11), of 21] by (simp add: distinct_map)
  ultimately show "distinct as" unfolding as_def by (simp add: distinct_map)
  show "a < length heap \<and> wk_heap wk ! a = heap ! a \<and> \<not> p_stopped (heap ! a)" if "a \<in> set as" for a
  proof -
    from that obtain u where u: "u \<notin> fst ` set xs" "map_of (ck_peers ck) u = Some a" unfolding set by blast
    have "wk_heap wk ! a = heap ! a"
      by (rule ld(5)[OF checker_invD(3)[OF inv u(2)]]) (use u peers_inj[OF inv u(2)] in blast)
    then show ?thesis using checker_invD(3,4)[OF inv u(2)] by blast
  qed
  show "a \<notin> set as" if "placed ck heap sn wk u c a" "u \<in> fst ` set xs"
  proof
    assume "a \<in> set as"
    then obtain v where v: "v \<notin> fst ` set xs" "map_of (ck_peers ck) v = Some a" unfolding set by blast
    then show False using that checker_invD(3)[OF inv v(2)] peers_inj[OF inv v(2), of u]
      by (cases "map_of (ck_peers ck) u") (auto simp: placed_def)
  qed
qed

definition round_result :: "checker \<Rightarrow> peer list \<Rightarrow> metadataSnapshot \<Rightarrow> checker \<Rightarrow> peer list \<Rightarrow> bool" where
  "round_result ck heap sn ck' heap' \<longleftrightarrow>
     dom (map_of (ck_peers ck')) = dom (map_of (sn_peerContainers sn)) \<and>
     (\<forall>u c. map_of (sn_peerContainers sn) u = Some c \<longrightarrow>
        (\<exists>a. map_of (ck_peers ck') u = Some a \<and> a < length heap' \<and> heap' ! a = refresh sn c (peer_for ck heap u c)) \<and>
        map_of (ck_peersByIP ck') (co_PrimaryIP c) \<noteq> None) \<and>
     (\<forall>ip a. map_of (ck_peersByIP ck') ip = Some a \<longrightarrow>
        (\<exists>u c. map_of (sn_peerContainers sn) u = Some c \<and> map_of (ck_peers ck') u = Some a \<and> co_PrimaryIP c = ip)) \<and>
     length heap \<le> length heap' \<and> checker_inv ck' heap'"

text \<open>The heap after the objects at the addresses \<open>as\<close> have been stopped.\<close>

definition stopped_at :: "nat list \<Rightarrow> peer list \<Rightarrow> peer list \<Rightarrow> bool" where
  "stopped_at as heap heap' \<longleftrightarrow> length heap' = length heap \<and>
     (\<forall>b < length heap. heap' ! b = (if b \<in> set as then (heap ! b)\<lparr>p_stopped := True\<rparr> else heap ! b))"

lemma stopped_current:
  assumes inv: "checker_inv ck heap" and ro: "valid_order ro" and l: "loop_inv ck heap sn xs wk"
    and h: "stopped_at (map snd (go_range ro 21 (wk_left wk))) (wk_heap wk) heap'"
  shows "(u, c) \<in> set xs \<Longrightarrow>
      \<exists>a. map_of (wk_next wk) u = Some a \<and> a < length heap' \<and> heap' ! a = refresh sn c (peer_for ck heap u c)"
    "map_of (wk_next wk) u = Some a \<Longrightarrow>
      \<exists>c. (u, c) \<in> set xs \<and> a < length heap' \<and> heap' ! a = refresh sn c (peer_for ck heap u c)"
proof -
  note ld = loop_invD[OF l] and cl = closed_addresses[OF inv ro l]
  show pl: "\<exists>a. map_of (wk_next wk) u = Some a \<and> a < length heap' \<and> heap' ! a = refresh sn c (peer_for ck heap u c)"
    if "(u, c) \<in> set xs" for u c
  proof -
    from ld(2)[OF that] obtain a where a: "placed ck heap sn wk u c a" by blast
    then have "a \<notin> set (map snd (go_range ro 21 (wk_left wk)))" by (rule cl(4)) (use that in force)
    then show ?thesis using a h by (auto simp: placed_def stopped_at_def)
  qed
  show "\<exists>c. (u, c) \<in> set xs \<and> a < length heap' \<and> heap' ! a = refresh sn c (peer_for ck heap u c)"
    if "map_of (wk_next wk) u = Some a"
  proof -
    have "u \<in> fst ` set xs" using that ld(3) by blast
    then obtain c where "(u, c) \<in> set xs" by force
    then show ?thesis using pl[of u c] that by auto
  qed
qed

lemma stopped_other:
  assumes l: "loop_inv ck heap sn xs wk" and h: "stopped_at as (wk_heap wk) heap'"
    and a: "a < length heap'" "\<And>u. map_of (wk_next wk) u \<noteq> Some a"
  shows "a < length heap \<and> heap' ! a = (if a \<in> set as then (heap ! a)\<lparr>p_stopped := True\<rparr> else heap ! a)"
proof -
  note ld = loop_invD[OF l]
  have lt: "a < length heap" using ld(6)[of a] a h by (fastforce simp: stopped_at_def)
  have "wk_heap wk ! a = heap ! a"
  proof (rule ld(5)[OF lt])
    fix u
    assume "u \<in> fst ` set xs"
    then obtain c where "(u, c) \<in> set xs" by force
    with ld(2) obtain b where b: "placed ck heap sn wk u c b" by blast
    then have "b \<noteq> a" using a(2) by (auto simp: placed_def)
    then show "map_of (ck_peers ck) u \<noteq> Some a" using b by (auto simp: placed_def)
  qed
  then show ?thesis using lt h ld(4) by (simp add: stopped_at_def)
qed

lemma round_inv:
  assumes inv: "checker_inv ck heap" and ro: "valid_order ro" and l: "loop_inv ck heap sn xs wk"
    and h: "stopped_at (map snd (go_range ro 21 (wk_left wk))) (wk_heap wk) heap'"
  shows "checker_inv (ck\<lparr>ck_peers := wk_next wk, ck_peersByIP := wk_nextByIP wk, ck_ok := ok\<rparr>) heap'"
proof -
  let ?ck = "ck\<lparr>ck_peers := wk_next wk, ck_peersByIP := wk_nextByIP wk, ck_ok := ok\<rparr>"
  note ld = loop_invD[OF l] and at = stopped_current(2)[OF inv ro l h] and old = stopped_other[OF l h]
  have live: "map_of (wk_next wk) (p_uuid (heap' ! a)) = Some a"
    if a: "a < length heap'" "\<not> p_stopped (heap' ! a)" and n: "\<And>u. map_of (wk_next wk) u \<noteq> Some a" for a
  proof -
    have o: "a < length heap" "a \<notin> set (map snd (go_range ro 21 (wk_left wk)))" "heap' ! a = heap ! a"
      using old[OF a(1) n] a(2) by (auto split: if_splits)
    then have p: "map_of (ck_peers ck) (p_uuid (heap ! a)) = Some a" using checker_invD(6)[OF inv] a(2) by simp
    then have "p_uuid (heap ! a) \<in> fst ` set xs" using closed_addresses(2)[OF inv ro l, of a] o(2) by blast
    then obtain c where "(p_uuid (heap ! a), c) \<in> set xs" by force
    with ld(2) obtain b where b: "placed ck heap sn wk (p_uuid (heap ! a)) c b" by blast
    then have "b = a" using p by (simp add: placed_def)
    then show ?thesis using b n by (auto simp: placed_def)
  qed
  show ?thesis
    unfolding checker_inv_def
  proof (intro conjI allI impI)
    show "gomap_ok (ck_peers ?ck)" "gomap_ok (ck_peersByIP ?ck)" using ld(9,10) by simp_all
    show "a < length heap'" "\<not> p_stopped (heap' ! a)" "p_uuid (heap' ! a) = u" if "map_of (ck_peers ?ck) u = Some a" for u a
      using at[of u a] that peer_for_inv[OF inv] by auto
    show "\<exists>u. map_of (ck_peers ?ck) u = Some a" if "map_of (ck_peersByIP ?ck) ip = Some a" for ip a
      using ld(7)[of ip a] that by auto
    show "p_count (heap' ! a) \<in> {0..3}" if "a < length heap'" for a
    proof (cases "\<exists>u. map_of (wk_next wk) u = Some a")
      case True
      then obtain u c where "heap' ! a = refresh sn c (peer_for ck heap u c)" using at by blast
      then show ?thesis using peer_for_inv(3)[OF inv, of u c] by simp
    next
      case False
      then show ?thesis using old[OF that] checker_invD(8)[OF inv, of a] by (auto split: if_splits)
    qed
    show "map_of (ck_peers ?ck) (p_uuid (heap' ! a)) = Some a" if a: "a < length heap'" "\<not> p_stopped (heap' ! a)" for a
    proof (cases "\<exists>u. map_of (wk_next wk) u = Some a")
      case True
      then obtain u where "map_of (wk_next wk) u = Some a" by blast
      then show ?thesis using at[of u a] peer_for_inv(2)[OF inv] by auto
    qed (use live[OF a] in simp)
  qed
qed

lemma round_ok:
  assumes inv: "checker_inv ck heap" and ro: "valid_order ro" and g: "gomap_ok (sn_peerContainers sn)"
  shows "\<exists>ck' heap'. checker_doWork ro (Inr sn) (ck, heap) = Ok (ck', heap') \<and> round_result ck heap sn ck' heap' \<and>
    ck_ok ck' = computeOK ro sn (ck_peersByIP ck') heap'"
proof -
  define xs where "xs = go_range ro 20 (sn_peerContainers sn)"
  define wk where "wk = foldl (work_step ck sn) \<lparr>wk_next = [], wk_nextByIP = [], wk_left = ck_peers ck, wk_heap = heap\<rparr> xs"
  define as where "as = map snd (go_range ro 21 (wk_left wk))"
  have mem: "(u, c) \<in> set xs \<longleftrightarrow> map_of (sn_peerContainers sn) u = Some c" for u c
    by (simp add: xs_def set_go_range[OF ro])
  have keys: "fst ` set xs = dom (map_of (sn_peerContainers sn))"
    using mem by force
  have l: "loop_inv ck heap sn xs wk"
    unfolding wk_def by (rule loop_inv_fold[OF inv]) (simp add: xs_def distinct_go_range[OF ro g])
  note ld = loop_invD[OF l] and cl = closed_addresses[OF inv ro l, folded as_def]
  obtain heap' where h: "close_all as (wk_heap wk) = Ok heap'" "stopped_at as (wk_heap wk) heap'"
    using close_all_Ok[OF cl(1), of "wk_heap wk"] cl(3) ld(4) by (fastforce simp: stopped_at_def)
  let ?ck = "ck\<lparr>ck_peers := wk_next wk, ck_peersByIP := wk_nextByIP wk, ck_ok := computeOK ro sn (wk_nextByIP wk) heap'\<rparr>"
  have run: "checker_doWork ro (Inr sn) (ck, heap) = Ok (?ck, heap')"
    using h(1) by (simp add: checker_doWork_def wk_def xs_def as_def Let_def)
  note pl = stopped_current(1)[OF inv ro l h(2)[unfolded as_def]]
  have "round_result ck heap sn ?ck heap'"
    unfolding round_result_def
  proof (intro conjI allI impI)
    show "dom (map_of (ck_peers ?ck)) = dom (map_of (sn_peerContainers sn))" using ld(3) keys by simp
    show "length heap \<le> length heap'" using ld(4) h(2) by (simp add: stopped_at_def)
    show "\<exists>a. map_of (ck_peers ?ck) u = Some a \<and> a < length heap' \<and> heap' ! a = refresh sn c (peer_for ck heap u c)"
      if "map_of (sn_peerContainers sn) u = Some c" for u c using pl[of u c] that mem by simp
    show "map_of (ck_peersByIP ?ck) (co_PrimaryIP c) \<noteq> None" if "map_of (sn_peerContainers sn) u = Some c" for u c
      using ld(8)[of u c] that mem by simp
    show "\<exists>u c. map_of (sn_peerContainers sn) u = Some c \<and> map_of (ck_peers ?ck) u = Some a \<and> co_PrimaryIP c = ip"
      if "map_of (ck_peersByIP ?ck) ip = Some a" for ip a using ld(7)[of ip a] that mem by auto
  qed (rule round_inv[OF inv ro l h(2)[unfolded as_def]])
  then show ?thesis using run by (intro exI[of _ ?ck] exI[of _ heap']) simp
qed

subsection \<open>The reported status\<close>

lemma gomap_ok_other_containers: "gomap_ok m \<Longrightarrow> gomap_ok (other_containers key self m cs)"
  unfolding other_containers_def by (induction cs arbitrary: m) auto

lemma service_steps_peers: "sn_peerContainers (foldl (service_step self) sn xs) = sn_peerContainers sn"
  by (induction xs arbitrary: sn) (simp_all add: service_step_def)

lemma snapshot_ok: "getMetadataSnapshot send = Inr sn \<Longrightarrow> gomap_ok (sn_peerContainers sn)"
  by (auto simp: getMetadataSnapshot_def Let_def service_steps_peers gomap_ok_other_containers split: sum.splits)

text \<open>A container is monitored if its host is active, and it and the checker on its host are running.\<close>

definition monitored :: "metadataSnapshot \<Rightarrow> ck_container \<Rightarrow> bool" where
  "monitored sn c =
     (case (map_of (sn_hosts sn) (co_HostUUID c), map_of (sn_checkContainers sn) (co_HostUUID c)) of
        (Some h, Some cc) \<Rightarrow> ho_State h = ''active'' \<and> ho_AgentState h \<in> {[], ''active''} \<and>
           co_State c = ''running'' \<and> co_State cc = ''running''
      | _ \<Rightarrow> False)"

lemma consider_refresh: "peer_consider (refresh sn c p) = monitored sn c"
  by (auto simp: peer_consider_def monitored_def refresh_def split: option.split)

lemma computeOK_iff:
  assumes "valid_order ro"
  shows "computeOK ro sn byIP heap \<longleftrightarrow>
    \<not> (shouldConsider sn \<and> (\<exists>ip a. map_of byIP ip = Some a \<and> peer_consider (heap ! a) \<and> p_count (heap ! a) = 0))"
  unfolding computeOK_def list_all_iff Ball_def split_paired_All set_go_range[OF assms] by auto

definition distinct_ips :: "metadataSnapshot \<Rightarrow> bool" where
  "distinct_ips sn \<longleftrightarrow> distinct (map (\<lambda>x. co_PrimaryIP (snd x)) (sn_peerContainers sn))"

lemma distinct_ipsD:
  assumes "distinct_ips sn" "map_of (sn_peerContainers sn) u = Some c" "map_of (sn_peerContainers sn) u' = Some c'"
    "co_PrimaryIP c = co_PrimaryIP c'"
  shows "u = u'"
  using assms map_of_SomeD[OF assms(2)] map_of_SomeD[OF assms(3)]
  unfolding distinct_ips_def distinct_map inj_on_def by fastforce

text \<open>
  C25. A round of the checker. With a snapshot whose peers have different addresses, the round
  succeeds in whatever order the maps are visited; the peers are then exactly the snapshot's, an
  existing peer keeps its counter and its identity, and the reported status is NOT OK exactly if
  checks are enabled and some monitored peer's counter is at 0, which every new peer's is.
\<close>

theorem round_status:
  assumes "checker_inv ck heap" "valid_order ro" "gomap_ok (sn_peerContainers sn)" "distinct_ips sn"
  shows "\<exists>ck' heap'. checker_doWork ro (Inr sn) (ck, heap) = Ok (ck', heap') \<and> round_result ck heap sn ck' heap' \<and>
    connectivity ck' =
      (if shouldConsider sn \<and> (\<exists>u c. map_of (sn_peerContainers sn) u = Some c \<and> monitored sn c \<and> p_count (peer_for ck heap u c) = 0)
       then (500, ''NOT OK'') else (200, ''OK''))"
proof -
  obtain ck' heap' where r: "checker_doWork ro (Inr sn) (ck, heap) = Ok (ck', heap')" "round_result ck heap sn ck' heap'"
      "ck_ok ck' = computeOK ro sn (ck_peersByIP ck') heap'"
    using round_ok[OF assms(1-3)] by blast
  note rr = r(2)[unfolded round_result_def]
  have at: "map_of (ck_peersByIP ck') ip = Some a \<Longrightarrow>
      \<exists>u c. map_of (sn_peerContainers sn) u = Some c \<and> co_PrimaryIP c = ip \<and> map_of (ck_peers ck') u = Some a \<and>
        heap' ! a = refresh sn c (peer_for ck heap u c)" for ip a
  proof -
    assume "map_of (ck_peersByIP ck') ip = Some a"
    then obtain u c where u: "map_of (sn_peerContainers sn) u = Some c" "map_of (ck_peers ck') u = Some a" "co_PrimaryIP c = ip"
      using rr by blast
    moreover have "heap' ! a = refresh sn c (peer_for ck heap u c)" using rr u by fastforce
    ultimately show ?thesis by blast
  qed
  have entry_of: "\<exists>ip a. map_of (ck_peersByIP ck') ip = Some a \<and> heap' ! a = refresh sn c (peer_for ck heap u c)"
    if u: "map_of (sn_peerContainers sn) u = Some c" for u c
  proof -
    obtain a where a: "map_of (ck_peersByIP ck') (co_PrimaryIP c) = Some a" using rr u by fastforce
    from at[OF a] obtain u' c' where u': "map_of (sn_peerContainers sn) u' = Some c'" "co_PrimaryIP c' = co_PrimaryIP c"
        "heap' ! a = refresh sn c' (peer_for ck heap u' c')" by blast
    then have "u' = u" using distinct_ipsD[OF assms(4) u'(1) u] by blast
    then show ?thesis using a u' u by auto
  qed
  have "(\<exists>ip a. map_of (ck_peersByIP ck') ip = Some a \<and> peer_consider (heap' ! a) \<and> p_count (heap' ! a) = 0) \<longleftrightarrow>
      (\<exists>u c. map_of (sn_peerContainers sn) u = Some c \<and> monitored sn c \<and> p_count (peer_for ck heap u c) = 0)" (is "?L = ?R")
  proof
    assume ?L
    then obtain ip a where l: "map_of (ck_peersByIP ck') ip = Some a" "peer_consider (heap' ! a)" "p_count (heap' ! a) = 0" by blast
    from at[OF l(1)] obtain u c where "map_of (sn_peerContainers sn) u = Some c" "heap' ! a = refresh sn c (peer_for ck heap u c)" by blast
    then show ?R using l(2,3) by (intro exI[of _ u] exI[of _ c]) (simp add: consider_refresh)
  next
    assume ?R
    then obtain u c where "map_of (sn_peerContainers sn) u = Some c" and m: "monitored sn c" "p_count (peer_for ck heap u c) = 0" by blast
    from entry_of[OF this(1)] obtain ip a where "map_of (ck_peersByIP ck') ip = Some a" "heap' ! a = refresh sn c (peer_for ck heap u c)" by blast
    then show ?L using m by (intro exI[of _ ip] exI[of _ a]) (simp add: consider_refresh)
  qed
  then show ?thesis using r by (intro exI[of _ ck'] exI[of _ heap']) (simp add: connectivity_def computeOK_iff[OF assms(2)])
qed

text \<open>A metadata service with one remote host, on which a peer and a checker run.\<close>

definition str_obj :: "(string \<times> string) list \<Rightarrow> json" where
  "str_obj kvs = JObj (map (\<lambda>(k, v). (k, JStr v)) kvs)"

definition demo_send :: "string \<Rightarrow> string result" where
  "demo_send path =
     (if path = ''/self/host'' then Inr (render (str_obj [(''uuid'', ''h1'')]))
      else if path = ''/hosts'' then Inr (render (JArr [str_obj [(''uuid'', ''h1'')], str_obj [(''uuid'', ''h2''), (''state'', ''active'')]]))
      else if path = ''/self/service'' then Inr (render (JObj [(''state'', JStr ''active''),
        (''metadata'', JObj [(ipsecServiceHealthcheckFlag, JBool True)]),
        (''containers'', JArr [str_obj [(''uuid'', ''u1''), (''host_uuid'', ''h1'')],
           str_obj [(''uuid'', ''u2''), (''host_uuid'', ''h2''), (''primary_ip'', ''10.42.0.2''), (''state'', ''running'')]])]))
      else if path = ''/services'' then Inr (render (JArr [JObj [(''name'', JStr connectivityCheckServiceName), (''state'', JStr ''active''),
        (''containers'', JArr [str_obj [(''host_uuid'', ''h2''), (''state'', ''running'')]])]]))
      else Inl (EnvError ''not found''))"

definition demo_container :: ck_container where
  "demo_container = \<lparr>co_UUID = ''u2'', co_HostUUID = ''h2'', co_PrimaryIP = ''10.42.0.2'', co_State = ''running''\<rparr>"

definition demo_snapshot :: metadataSnapshot where
  "demo_snapshot = \<lparr>sn_ipsecState = ''active'', sn_connCheckState = ''active'', sn_healthcheckEnabled = True,
     sn_hosts = [(''h2'', zeroHost\<lparr>ho_UUID := ''h2'', ho_State := ''active''\<rparr>)],
     sn_peerContainers = [(''u2'', demo_container)],
     sn_checkContainers = [(''h2'', zeroContainer\<lparr>co_HostUUID := ''h2'', co_State := ''running''\<rparr>)]\<rparr>"

lemma demo_snapshot_read: "getMetadataSnapshot demo_send = Inr demo_snapshot"
  by code_simp

lemma checker_inv_new [simp]: "checker_inv (newChecker port interval timeout) []"
  by (simp add: checker_inv_def newChecker_def)

theorem round_status_witness:
  "\<exists>ck' heap'. checker_doWork (\<lambda>_ ks. ks) (getMetadataSnapshot demo_send) (newChecker 80 5 1, []) = Ok (ck', heap') \<and>
     connectivity ck' = (500, ''NOT OK'')"
proof -
  have p: "map_of (sn_peerContainers demo_snapshot) u = Some c \<longleftrightarrow> u = ''u2'' \<and> c = demo_container" for u c
    by (auto simp: demo_snapshot_def)
  have "shouldConsider demo_snapshot" "monitored demo_snapshot demo_container" "distinct_ips demo_snapshot"
      "gomap_ok (sn_peerContainers demo_snapshot)" by code_simp+
  moreover have "p_count (peer_for (newChecker 80 5 1) [] ''u2'' demo_container) = 0"
    by (simp add: peer_for_def newChecker_def new_peer_def)
  ultimately show ?thesis
    using round_status[OF checker_inv_new valid_order_id, of demo_snapshot 80 5 1] by (auto simp: demo_snapshot_read p)
qed

section \<open>The system\<close>

text \<open>
  The checker, the heap, and the peers whose goroutine is waiting for an answer. What the answers
  and the metadata are is arbitrary.
\<close>

record ck_sys =
  cs_checker :: checker
  cs_heap :: "peer list"
  cs_inflight :: "nat list"

inductive ck_step :: "ck_sys \<Rightarrow> ck_sys \<Rightarrow> bool" where
  watch_round: "\<lbrakk>valid_order ro; checker_doWork ro (getMetadataSnapshot send) (cs_checker s, cs_heap s) = Ok (ck', heap')\<rbrakk> \<Longrightarrow>
     ck_step s (s\<lparr>cs_checker := ck', cs_heap := heap'\<rparr>)"
| served: "ck_serve now path remoteAddr (cs_checker s, cs_heap s) = (reply, heap') \<Longrightarrow> ck_step s (s\<lparr>cs_heap := heap'\<rparr>)"
| check_begun: "\<lbrakk>a < length (cs_heap s); \<not> p_stopped (cs_heap s ! a); a \<notin> set (cs_inflight s);
     peer_begin now (cs_heap s ! a) = Some req\<rbrakk> \<Longrightarrow> ck_step s (s\<lparr>cs_inflight := a # cs_inflight s\<rparr>)"
| check_ended: "a \<in> set (cs_inflight s) \<Longrightarrow>
     ck_step s (s\<lparr>cs_heap := (cs_heap s)[a := peer_end now ok (cs_heap s ! a)], cs_inflight := remove1 a (cs_inflight s)\<rparr>)"

inductive ck_reachable :: "ck_sys \<Rightarrow> bool" where
  started: "ck_reachable \<lparr>cs_checker = newChecker port interval timeout, cs_heap = [], cs_inflight = []\<rparr>"
| stepped: "ck_reachable s \<Longrightarrow> ck_step s s' \<Longrightarrow> ck_reachable s'"

inductive_cases ck_stepE: "ck_step s s'"

definition sys_inv :: "ck_sys \<Rightarrow> bool" where
  "sys_inv s \<longleftrightarrow> checker_inv (cs_checker s) (cs_heap s) \<and> distinct (cs_inflight s) \<and>
     (\<forall>a \<in> set (cs_inflight s). a < length (cs_heap s))"

lemma checker_inv_update:
  assumes "checker_inv ck heap" "p_uuid q = p_uuid (heap ! a)" "p_stopped q = p_stopped (heap ! a)" "a < length heap \<Longrightarrow> p_count q \<in> {0..3}"
  shows "checker_inv ck (heap[a := q])"
proof -
  have same: "f (heap[a := q] ! b) = f (heap ! b)" if "f q = f (heap ! a)" for f :: "peer \<Rightarrow> 'x" and b
    using that by (cases "a < length heap"; cases "a = b") (simp_all add: not_less list_update_beyond)
  have count: "p_count (heap[a := q] ! b) \<in> {0..3}" if "b < length heap" for b
    using assms(4) checker_invD(8)[OF assms(1) that] that by (cases "a = b") simp_all
  show ?thesis using assms(1) count unfolding checker_inv_def same[of p_stopped, OF assms(3)] same[of p_uuid, OF assms(2)] by simp
qed

lemma peer_end_simps [simp]: "p_uuid (peer_end now ok p) = p_uuid p" "p_stopped (peer_end now ok p) = p_stopped p"
  by (simp_all add: peer_end_def updateSuccess_def updateFailure_def)

lemma checker_inv_end: "checker_inv ck heap \<Longrightarrow> checker_inv ck (heap[a := peer_end now ok (heap ! a)])"
  using checker_invD(8)[of ck heap a] by (intro checker_inv_update) (auto simp: peer_end_count)

lemma round_always:
  assumes "checker_inv ck heap" "valid_order ro"
  shows "\<exists>ck' heap'. checker_doWork ro (getMetadataSnapshot send) (ck, heap) = Ok (ck', heap') \<and>
    checker_inv ck' heap' \<and> length heap \<le> length heap'"
proof (cases "getMetadataSnapshot send")
  case (Inl e)
  then show ?thesis using assms(1) by (simp add: checker_doWork_def)
next
  case (Inr sn)
  then show ?thesis using round_ok[OF assms snapshot_ok[OF Inr]] by (auto simp: round_result_def)
qed

lemma ck_ping_heap:
  assumes "checker_inv ck heap" "ck_ping now addr (ck, heap) = (reply, heap')"
  shows "checker_inv ck heap' \<and> length heap' = length heap"
  using assms checker_inv_end[OF assms(1), of _ now True]
  by (cases "map_of (ck_peersByIP ck) (ping_source addr)") (auto simp: ck_ping_def peer_end_def)

lemma ck_serve_heap:
  assumes "checker_inv ck heap" "ck_serve now path addr (ck, heap) = (reply, heap')"
  shows "checker_inv ck heap' \<and> length heap' = length heap"
  using assms ck_ping_heap[OF assms(1), of now addr]
  by (auto simp: ck_serve_def split: routing.splits ck_handler.splits prod.splits)

text \<open>A peer's goroutine ends only when its peer is stopped, and counts between 0 and 3 until then.\<close>

lemma peer_run_inv:
  assumes "list_all (\<lambda>(other, get, now, now'). \<forall>p. p_count p \<in> {0..3} \<longrightarrow> p_count (other p) \<in> {0..3}) rounds" "p_count p \<in> {0..3}"
  shows "p_count (snd (peer_run rounds p)) \<in> {0..3} \<and> (fst (peer_run rounds p) \<longrightarrow> p_stopped (snd (peer_run rounds p)))"
  using assms
proof (induction rounds p rule: peer_run.induct)
  case (2 other get now now' rounds p)
  have "p_count (peer_doWork get now now' (other p)) \<in> {0..3}"
    using 2(2,3) by (auto simp: peer_doWork_def peer_end_def updateSuccess_def updateFailure_def split: option.split)
  then show ?case using 2 by auto
qed simp

lemma ck_step_inv: "ck_step s s' \<Longrightarrow> sys_inv s \<Longrightarrow> sys_inv s'"
proof (induction rule: ck_step.induct)
  case (watch_round ro send s ck' heap')
  then show ?case using round_always[of "cs_checker s" "cs_heap s" ro send] by (fastforce simp: sys_inv_def)
next
  case (served now path addr s reply heap')
  then show ?case using ck_serve_heap[of "cs_checker s" "cs_heap s"] by (simp add: sys_inv_def)
next
  case (check_ended a s now ok)
  then show ?case by (auto simp: sys_inv_def checker_inv_end dest: notin_set_remove1)
qed (simp add: sys_inv_def)

lemma reachable_inv: "ck_reachable s \<Longrightarrow> sys_inv s"
proof (induction rule: ck_reachable.induct)
  case (started port interval timeout)
  then show ?case by (simp add: sys_inv_def)
qed (rule ck_step_inv)

text \<open>
  C24. In every state that any interleaving of rounds, pings and peer checks can reach: the checker's
  peers are distinct live objects with counters between 0 and 3, the goroutine of every other
  object has been told to stop, no goroutine has two requests under way, and the next round neither
  fails nor closes a channel a second time, whatever the metadata service answers.
\<close>

theorem checker_safe:
  assumes "ck_reachable s" "valid_order ro"
  shows "sys_inv s \<and> (\<exists>s'. checker_doWork ro (getMetadataSnapshot send) (cs_checker s, cs_heap s) = Ok s')"
  using reachable_inv[OF assms(1)] round_always[OF _ assms(2), of "cs_checker s" "cs_heap s" send] by (auto simp: sys_inv_def)

theorem checker_safe_witness:
  "\<exists>s s'. ck_reachable s \<and> length (cs_heap s) = 1 \<and> sys_inv s \<and>
     checker_doWork (\<lambda>_ ks. rev ks) (getMetadataSnapshot (\<lambda>_. Inl (EnvError ''down''))) (cs_checker s, cs_heap s) = Ok s'"
proof -
  let ?s = "\<lparr>cs_checker = newChecker 80 5 1, cs_heap = [], cs_inflight = []\<rparr>"
  have "case checker_doWork (\<lambda>_ ks. ks) (getMetadataSnapshot demo_send) (newChecker 80 5 1, []) of
      Ok (_, heap) \<Rightarrow> length heap = 1 | _ \<Rightarrow> False"
    unfolding demo_snapshot_read by code_simp
  then obtain ck heap where r: "checker_doWork (\<lambda>_ ks. ks) (getMetadataSnapshot demo_send) (newChecker 80 5 1, []) = Ok (ck, heap)"
      "length heap = 1" by (auto split: outcome.splits)
  have "ck_reachable (?s\<lparr>cs_checker := ck, cs_heap := heap\<rparr>)"
    by (rule ck_reachable.stepped[OF ck_reachable.started ck_step.watch_round[OF valid_order_id, where send = demo_send]]) (simp add: r(1))
  then show ?thesis
    using checker_safe[OF _ valid_order_rev, of "?s\<lparr>cs_checker := ck, cs_heap := heap\<rparr>" "\<lambda>_. Inl (EnvError ''down'')"] r(2)
    by (intro exI[of _ "?s\<lparr>cs_checker := ck, cs_heap := heap\<rparr>"]) auto
qed

section \<open>Taking over the port\<close>

text \<open>What the wait relies on: the clock does not go back, and a sleep lasts at least as long as asked.\<close>

definition clock_ok :: "'w port_env \<Rightarrow> bool" where
  "clock_ok env \<longleftrightarrow> (\<forall>a w. po_Now env w \<le> po_Now env (snd (po_Listen env a w))) \<and>
     (\<forall>d w. 0 \<le> d \<longrightarrow> po_Now env w + d \<le> po_Now env (po_Sleep env d w))"

definition handoff_result :: "'w port_env \<Rightarrow> string \<Rightarrow> int \<Rightarrow> int \<Rightarrow> nat result \<Rightarrow> 'w \<Rightarrow> bool" where
  "handoff_result env address maxWait deadline r w \<longleftrightarrow>
     (case r of
        Inr l \<Rightarrow> \<exists>v. po_Listen env address v = (Inr l, w)
      | Inl e \<Rightarrow> (\<exists>v. po_Listen env address v = (Inl e, w)) \<and> \<not> po_InUse env e \<or>
          (\<exists>v err. po_Listen env address v = (Inl err, w) \<and> po_InUse env err \<and> deadline \<le> po_Now env w \<and>
             e = Wrapf ''prior listener did not release %s within %s: %w'' [address, itoa_int maxWait] err))"

lemma handoff_returns:
  assumes "clock_ok env"
  shows "\<exists>r w'. handoff_loop env address maxWait deadline w = Some (r, w') \<and> handoff_result env address maxWait deadline r w'"
proof (induction "nat (deadline - po_Now env w)" arbitrary: w rule: less_induct)
  case less
  obtain r w1 where l: "po_Listen env address w = (r, w1)" by fastforce
  have now: "po_Now env w \<le> po_Now env w1" using assms l unfolding clock_ok_def by (metis snd_conv)
  show ?case
  proof (cases r)
    case (Inr x)
    then show ?thesis using l by (subst handoff_loop.simps) (auto simp: handoff_result_def)
  next
    case (Inl err)
    let ?rem = "deadline - po_Now env w1"
    consider "\<not> po_InUse env err" | "po_InUse env err" "?rem \<le> 0" | "po_InUse env err" "0 < ?rem" by linarith
    then show ?thesis
    proof cases
      case 1
      then show ?thesis using l Inl by (subst handoff_loop.simps) (auto simp: handoff_result_def)
    next
      case 2
      then show ?thesis using l Inl by (subst handoff_loop.simps) (auto simp: handoff_result_def)
    next
      case 3
      let ?d = "min ?rem portHandoffPoll"
      have d: "0 < ?d" using 3(2) by (simp add: portHandoffPoll_def millisecond_def)
      then have "po_Now env w1 + ?d \<le> po_Now env (po_Sleep env ?d w1)" using assms unfolding clock_ok_def by (meson less_imp_le)
      then have "nat (deadline - po_Now env (po_Sleep env ?d w1)) < nat (deadline - po_Now env w)" using d now 3(2) by linarith
      then show ?thesis using less.hyps[of "po_Sleep env ?d w1"] l Inl 3 by (subst handoff_loop.simps) (simp add: Let_def)
    qed
  qed
qed

text \<open>
  C37. Waiting for the port always ends: with a listener; with the first error that is not
  ``address in use''; or with an error that wraps ``address in use'', and then not before the
  maximal wait is over.
\<close>

theorem port_handoff_returns:
  assumes "clock_ok env"
  shows "\<exists>r w'. listenWithPortHandoff env port maxWait w = Some (r, w') \<and>
    handoff_result env ('':'' @ itoa_int port) maxWait (po_Now env w + maxWait) r w'"
  unfolding listenWithPortHandoff_def by (rule handoff_returns[OF assms])

text \<open>A port that is held until a given time.\<close>

definition held_until :: "int \<Rightarrow> int port_env" where
  "held_until t = \<lparr>po_Listen = \<lambda>_ now. (if now < t then Inl (EnvError ''in use'') else Inr 1, now),
     po_InUse = \<lambda>e. e = EnvError ''in use'', po_Now = \<lambda>now. now, po_Sleep = \<lambda>d now. now + d\<rparr>"

theorem port_handoff_returns_witness:
  "\<exists>r w'. listenWithPortHandoff (held_until 700000000) 80 portHandoffMaxWait 0 = Some (r, w') \<and>
    handoff_result (held_until 700000000) '':80'' portHandoffMaxWait portHandoffMaxWait r w'"
proof -
  have c: "clock_ok (held_until 700000000)" by (simp add: clock_ok_def held_until_def)
  have "'':'' @ itoa_int 80 = '':80''" "po_Now (held_until 700000000) 0 = 0" by (code_simp, simp add: held_until_def)
  then show ?thesis using port_handoff_returns[OF c, of 80 portHandoffMaxWait 0] by simp
qed

end
