(* ===== verification/Cni_Resolver.thy ===== *)
theory Cni_Resolver
  imports Go_Json Go_Net
begin

text \<open>
  The CNI wrapper (\<^verbatim>\<open>cmd/pasture-cni-resolver\<close>) that replaces references to host labels in the
  subnet fields of a bridge configuration before it hands the configuration to the bridge plugin.
  A \<^verbatim>\<open>json.RawMessage\<close> is the tree of its text: everything the program does with it (decoding it,
  printing it compactly) depends on the tree only.
\<close>

section \<open>Library\<close>

definition ip_Equal :: "go_ip \<Rightarrow> go_ip \<Rightarrow> bool" where
  "ip_Equal a b =
     (if length a = length b then a = b
      else if length a = 4 \<and> length b = 16 then take 12 b = v4InV6Prefix \<and> a = drop 12 b
      else if length a = 16 \<and> length b = 4 then take 12 a = v4InV6Prefix \<and> drop 12 a = b
      else False)"

text \<open>\<^verbatim>\<open>(*net.IPNet).Contains\<close> for a network that \<^verbatim>\<open>ParseCIDR\<close> gives.\<close>

definition net_Contains :: "ipnet \<Rightarrow> go_ip \<Rightarrow> bool" where
  "net_Contains n ip =
     (let nn = (if to4 (net_ip n) \<noteq> [] then to4 (net_ip n) else net_ip n);
          m = (if length nn = 4 \<and> length (net_mask n) = 16 then drop 12 (net_mask n) else net_mask n);
          x = (if to4 ip \<noteq> [] then to4 ip else ip)
      in length nn = length m \<and> length x = length nn \<and> map2 (AND) nn m = map2 (AND) x m)"

text \<open>Compact printing of a raw value escapes the HTML characters and U+2028 and U+2029 in its literals.\<close>

fun html_escape :: "string \<Rightarrow> string" where
  "html_escape (a # b # c # s) =
     (if [a, b, c] = map char_of [226, 128, 168 :: nat] then CHR 0x5C # ''u2028'' @ html_escape s
      else if [a, b, c] = map char_of [226, 128, 169 :: nat] then CHR 0x5C # ''u2029'' @ html_escape s
      else (if a = CHR ''<'' then CHR 0x5C # ''u003c'' else if a = CHR ''>'' then CHR 0x5C # ''u003e''
            else if a = CHR ''&'' then CHR 0x5C # ''u0026'' else [a]) @ html_escape (b # c # s))"
| "html_escape s =
     concat (map (\<lambda>a. if a = CHR ''<'' then CHR 0x5C # ''u003c'' else if a = CHR ''>'' then CHR 0x5C # ''u003e''
        else if a = CHR ''&'' then CHR 0x5C # ''u0026'' else [a]) s)"

fun compacted :: "json \<Rightarrow> json" where
  "compacted (JStr s) = JStr (html_escape s)"
| "compacted (JArr vs) = JArr (map compacted vs)"
| "compacted (JObj ms) = JObj (map (\<lambda>(k, v). (html_escape k, v)) (map (\<lambda>(k, v). (k, compacted v)) ms))"
| "compacted v = v"

text \<open>A map of raw values, decoded and printed.\<close>

definition raw_map :: "json \<Rightarrow> json gomap option result" where
  "raw_map j =
     (case j of
        JObj ms \<Rightarrow> Inr (Some (foldl (\<lambda>m (k, v). mput (unquote k) v m) [] ms))
      | JNull \<Rightarrow> Inr None
      | _ \<Rightarrow> Inl (type_error j))"

definition marshal_raw :: "json gomap \<Rightarrow> json" where "marshal_raw m = enc_map compacted m"

section \<open>Resolving\<close>

definition labelPrefix :: string where "labelPrefix = ''__host_label__:''"

record cni_state =
  cn_root :: "json gomap"
  cn_ipam :: "json gomap option"
  cn_labels :: "string gomap"
  cn_changed :: bool

text \<open>The four fields: whether the field is in the IPAM object, its name, and whether it is optional.\<close>

record target =
  tg_ipam :: bool
  tg_name :: string
  tg_optional :: bool

definition cni_targets :: "target list" where
  "cni_targets =
     [\<lparr>tg_ipam = False, tg_name = ''bridgeSubnet'', tg_optional = False\<rparr>,
      \<lparr>tg_ipam = True, tg_name = ''subnet'', tg_optional = False\<rparr>,
      \<lparr>tg_ipam = True, tg_name = ''rangeStart'', tg_optional = True\<rparr>,
      \<lparr>tg_ipam = True, tg_name = ''rangeEnd'', tg_optional = True\<rparr>]"

definition target_object :: "target \<Rightarrow> cni_state \<Rightarrow> json gomap option" where
  "target_object t s = (if tg_ipam t then cn_ipam s else Some (cn_root s))"

definition set_object :: "target \<Rightarrow> json gomap \<Rightarrow> cni_state \<Rightarrow> cni_state" where
  "set_object t m s = (if tg_ipam t then s\<lparr>cn_ipam := Some m, cn_changed := True\<rparr> else s\<lparr>cn_root := m, cn_changed := True\<rparr>)"

text \<open>The label that a raw value refers to.\<close>

definition label_ref :: "json \<Rightarrow> string option" where
  "label_ref raw =
     (case raw of JStr s \<Rightarrow> if hasPrefix (unquote s) labelPrefix then Some (trimSpace (trimPrefix (unquote s) labelPrefix)) else None
      | _ \<Rightarrow> None)"

definition bad_key :: "string \<Rightarrow> bool" where
  "bad_key key \<longleftrightarrow> key = [] \<or> \<not> list_all (\<lambda>c. c \<notin> set ('' /?#'' @ [CHR 0x09, CHR 0x0D, CHR 0x0A, CHR 0x5C])) key"

text \<open>What a resolved value has to be, by the name of its field.\<close>

definition subnet_ok :: "string \<Rightarrow> bool" where
  "subnet_ok s = (case parseCIDR s of None \<Rightarrow> False | Some (ip, cidr) \<Rightarrow> to4 ip \<noteq> [] \<and> ip_Equal ip (net_ip cidr))"

definition address_ok :: "string \<Rightarrow> bool" where
  "address_ok s \<longleftrightarrow> parseIP s \<noteq> [] \<and> to4 (parseIP s) \<noteq> []"

definition value_error :: "string \<Rightarrow> string \<Rightarrow> string \<Rightarrow> go_error option" where
  "value_error name key resolved =
     (if name = ''subnet'' \<or> name = ''bridgeSubnet''
      then (if subnet_ok resolved then None else Some (Errorf ''host label %q must be a canonical IPv4 subnet'' [key]))
      else if address_ok resolved then None else Some (Errorf ''host label %q must be an IPv4 address'' [key]))"

definition lookup_label :: "(string \<Rightarrow> string result) \<Rightarrow> string \<Rightarrow> string gomap \<Rightarrow> (string \<times> string gomap) result" where
  "lookup_label getLabel key labels =
     (case map_of labels key of
        Some v \<Rightarrow> Inr (v, labels)
      | None \<Rightarrow>
          (case getLabel key of
             Inl e \<Rightarrow> Inl (Wrapf ''read local host label %q: %w'' [key] e)
           | Inr v \<Rightarrow> Inr (v, mput key v labels)))"

definition resolve_field :: "(string \<Rightarrow> string result) \<Rightarrow> cni_state \<Rightarrow> target \<Rightarrow> cni_state result" where
  "resolve_field getLabel s t =
     (case target_object t s of
        None \<Rightarrow> Inr s
      | Some obj \<Rightarrow>
          (case map_of obj (tg_name t) of
             None \<Rightarrow> Inr s
           | Some raw \<Rightarrow>
               (case label_ref raw of
                  None \<Rightarrow> Inr s
                | Some key \<Rightarrow>
                    if bad_key key then Inl (Errorf ''invalid host-label reference in %s'' [tg_name t])
                    else case lookup_label getLabel key (cn_labels s) of
                      Inl e \<Rightarrow> Inl e
                    | Inr (v, labels) \<Rightarrow>
                        let resolved = trimSpace v; s1 = s\<lparr>cn_labels := labels\<rparr>
                        in if resolved = [] then
                             (if tg_optional t then Inr (set_object t (mdel (tg_name t) obj) s1)
                              else Inl (Errorf ''required local host label %q is missing'' [key]))
                           else case value_error (tg_name t) key resolved of
                             Some e \<Rightarrow> Inl e
                           | None \<Rightarrow> Inr (set_object t (mput (tg_name t) (enc_string resolved) obj) s1))))"

fun resolve_fields :: "(string \<Rightarrow> string result) \<Rightarrow> cni_state \<Rightarrow> target list \<Rightarrow> cni_state result" where
  "resolve_fields getLabel s [] = Inr s"
| "resolve_fields getLabel s (t # ts) =
     (case resolve_field getLabel s t of Inl e \<Rightarrow> Inl e | Inr s' \<Rightarrow> resolve_fields getLabel s' ts)"

text \<open>The string that a field holds: empty if it is missing or no string.\<close>

definition string_of :: "json gomap \<Rightarrow> string \<Rightarrow> string" where
  "string_of obj name = (case map_of obj name of Some (JStr s) \<Rightarrow> unquote s | _ \<Rightarrow> [])"

text \<open>
  The two checks on the resolved document: the subnets agree, and the ends of the range are in the
  subnet. A range that is not an address is left to the IPAM plugin.
\<close>

definition outside :: "ipnet \<Rightarrow> json gomap \<Rightarrow> string \<Rightarrow> bool" where
  "outside subnet ipam name \<longleftrightarrow> parseIP (string_of ipam name) \<noteq> [] \<and> \<not> net_Contains subnet (parseIP (string_of ipam name))"

definition range_error :: "json gomap option \<Rightarrow> go_error option" where
  "range_error ipam =
     (case ipam of
        None \<Rightarrow> None
      | Some m \<Rightarrow>
          (case parseCIDR (string_of m ''subnet'') of
             None \<Rightarrow> None
           | Some (_, subnet) \<Rightarrow>
               (case find (outside subnet m) [''rangeStart'', ''rangeEnd''] of
                  None \<Rightarrow> None
                | Some name \<Rightarrow> Some (Errorf ''%s must be inside IPAM subnet'' [name]))))"

definition subnets_differ :: "cni_state \<Rightarrow> bool" where
  "subnets_differ s =
     (let b = string_of (cn_root s) ''bridgeSubnet''; i = (case cn_ipam s of None \<Rightarrow> [] | Some m \<Rightarrow> string_of m ''subnet'')
      in b \<noteq> [] \<and> i \<noteq> [] \<and> b \<noteq> i)"

definition final_root :: "cni_state \<Rightarrow> json gomap" where
  "final_root s = (case cn_ipam s of None \<Rightarrow> cn_root s | Some m \<Rightarrow> mput ''ipam'' (marshal_raw m) (cn_root s))"

definition resolveConfig :: "string \<Rightarrow> (string \<Rightarrow> string result) \<Rightarrow> string result" where
  "resolveConfig input getLabel =
     (case json_parse input of
        None \<Rightarrow> Inl (Errorf ''invalid CNI JSON'' [])
      | Some j \<Rightarrow>
          (case raw_map j of
             Inr (Some root) \<Rightarrow>
               (case (case map_of root ''ipam'' of None \<Rightarrow> Inr None | Some raw \<Rightarrow> raw_map raw) of
                  Inl _ \<Rightarrow> Inl (Errorf ''invalid CNI IPAM JSON'' [])
                | Inr ipam \<Rightarrow>
                    (case resolve_fields getLabel \<lparr>cn_root = root, cn_ipam = ipam, cn_labels = [], cn_changed = False\<rparr> cni_targets of
                       Inl e \<Rightarrow> Inl e
                     | Inr s \<Rightarrow>
                         if \<not> cn_changed s then Inr input
                         else if subnets_differ s then Inl (Errorf ''bridge and IPAM subnets must match'' [])
                         else case range_error (cn_ipam s) of
                           Some e \<Rightarrow> Inl e
                         | None \<Rightarrow> Inr (render (marshal_raw (final_root s)))))
           | _ \<Rightarrow> Inl (Errorf ''invalid CNI JSON'' [])))"

section \<open>Reading labels\<close>

text \<open>\<^verbatim>\<open>url.PathEscape\<close>.\<close>

definition path_escape :: "string \<Rightarrow> string" where
  "path_escape s =
     concat (map (\<lambda>c. if isDigit c \<or> 65 \<le> code c \<and> code c \<le> 90 \<or> 97 \<le> code c \<and> code c \<le> 122 \<or> c \<in> set ''-_.~$&+:=@''
        then [c] else CHR ''%'' # map upper [hex_char (code c div 16), hex_char (code c mod 16)]) s)"

text \<open>The HTTP request is an argument: the status and the body, cut off after 1025 bytes, or the error in reading it.\<close>

definition fetchHostLabel :: "(string \<Rightarrow> (int \<times> string result) result) \<Rightarrow> string \<Rightarrow> string \<Rightarrow> string result" where
  "fetchHostLabel get baseURL key =
     (case get (baseURL @ path_escape key) of
        Inl e \<Rightarrow> Inl e
      | Inr (status, body) \<Rightarrow>
          if status = 404 then Inr []
          else if status \<noteq> 200 then Inl (Errorf ''metadata returned HTTP %d'' [itoa_int status])
          else case body of
            Inl _ \<Rightarrow> Inl (Errorf ''invalid local host label size'' [])
          | Inr data \<Rightarrow>
              if length (take 1025 data) > 1024 then Inl (Errorf ''invalid local host label size'' [])
              else Inr (trimSpace data))"

definition cni_metadataURL :: string where
  "cni_metadataURL = ''http://169.254.169.250/2016-07-29/self/host/labels/''"

definition readHostLabel :: "(string \<Rightarrow> (int \<times> string result) result) \<Rightarrow> string \<Rightarrow> string result" where
  "readHostLabel get key = fetchHostLabel get cni_metadataURL key"

section \<open>The command\<close>

datatype bridge_exit = BridgeDone | BridgeExit int | BridgeFailed go_error

definition maxConfig :: nat where "maxConfig = 2 ^ 20"

text \<open>The exit code and what the bridge plugin receives, if it is started.\<close>

definition cni_main ::
  "string result \<Rightarrow> (string \<Rightarrow> (int \<times> string result) result) \<Rightarrow> (string list \<Rightarrow> string \<Rightarrow> bridge_exit) \<Rightarrow> string list \<Rightarrow>
   int \<times> string option" where
  "cni_main stdin get bridge args =
     (case stdin of
        Inl _ \<Rightarrow> (1, None)
      | Inr data \<Rightarrow>
          if length (take (maxConfig + 1) data) > maxConfig then (1, None)
          else case resolveConfig data (readHostLabel get) of
            Inl _ \<Rightarrow> (1, None)
          | Inr resolved \<Rightarrow>
              (case bridge args resolved of
                 BridgeDone \<Rightarrow> (0, Some resolved)
               | BridgeExit n \<Rightarrow> (n, Some resolved)
               | BridgeFailed _ \<Rightarrow> (1, Some resolved)))"

section \<open>What resolving does\<close>

text \<open>The meaning of one field, without state: its new value, or why it cannot be resolved.\<close>

definition field_spec :: "(string \<Rightarrow> string result) \<Rightarrow> target \<Rightarrow> json option \<Rightarrow> json option result" where
  "field_spec getLabel t raw =
     (case Option.bind raw label_ref of
        None \<Rightarrow> Inr raw
      | Some key \<Rightarrow>
          if bad_key key then Inl (Errorf ''invalid host-label reference in %s'' [tg_name t])
          else case getLabel key of
            Inl e \<Rightarrow> Inl (Wrapf ''read local host label %q: %w'' [key] e)
          | Inr v \<Rightarrow>
              if trimSpace v = [] then
                (if tg_optional t then Inr None else Inl (Errorf ''required local host label %q is missing'' [key]))
              else case value_error (tg_name t) key (trimSpace v) of
                Some e \<Rightarrow> Inl e
              | None \<Rightarrow> Inr (Some (enc_string (trimSpace v))))"

definition look :: "bool \<times> string \<Rightarrow> cni_state \<Rightarrow> json option" where
  "look bk s = (if fst bk then Option.bind (cn_ipam s) (\<lambda>m. map_of m (snd bk)) else map_of (cn_root s) (snd bk))"

abbreviation tg_key :: "target \<Rightarrow> bool \<times> string" where "tg_key t \<equiv> (tg_ipam t, tg_name t)"

abbreviation refers :: "json option \<Rightarrow> bool" where "refers raw \<equiv> Option.bind raw label_ref \<noteq> None"

definition cache_ok :: "(string \<Rightarrow> string result) \<Rightarrow> string gomap \<Rightarrow> bool" where
  "cache_ok getLabel labels \<longleftrightarrow> (\<forall>k v. map_of labels k = Some v \<longrightarrow> getLabel k = Inr v)"

lemma lookup_label_spec:
  assumes "cache_ok getLabel labels"
  shows "case getLabel key of
      Inl e \<Rightarrow> lookup_label getLabel key labels = Inl (Wrapf ''read local host label %q: %w'' [key] e)
    | Inr v \<Rightarrow> \<exists>labels'. lookup_label getLabel key labels = Inr (v, labels') \<and> cache_ok getLabel labels'"
  using assms by (cases "map_of labels key") (auto simp: lookup_label_def cache_ok_def split: sum.split)

text \<open>One field: the others keep their values, and the cache is invisible.\<close>

definition field_done :: "(string \<Rightarrow> string result) \<Rightarrow> target \<Rightarrow> cni_state \<Rightarrow> cni_state \<Rightarrow> bool" where
  "field_done getLabel t s s' \<longleftrightarrow>
     field_spec getLabel t (look (tg_key t) s) = Inr (look (tg_key t) s') \<and>
     (\<forall>bk. bk \<noteq> tg_key t \<longrightarrow> look bk s' = look bk s) \<and> (cn_ipam s' = None \<longleftrightarrow> cn_ipam s = None) \<and>
     cache_ok getLabel (cn_labels s') \<and> (cn_changed s' \<longleftrightarrow> cn_changed s \<or> refers (look (tg_key t) s))"

lemma look_set_object:
  assumes "target_object t s = Some obj"
  shows "look bk (set_object t (mput (tg_name t) x obj) (s\<lparr>cn_labels := l\<rparr>)) = (if bk = tg_key t then Some x else look bk s)"
    "look bk (set_object t (mdel (tg_name t) obj) (s\<lparr>cn_labels := l\<rparr>)) = (if bk = tg_key t then None else look bk s)"
    "look (tg_key t) s = map_of obj (tg_name t)"
  using assms by (cases bk; auto simp: look_def set_object_def target_object_def split: if_splits)+

lemma set_object_simps [simp]:
  "cn_changed (set_object t m s)" "cn_labels (set_object t m s) = cn_labels s"
  "target_object t s = Some obj \<Longrightarrow> cn_ipam (set_object t m (s\<lparr>cn_labels := l\<rparr>)) = None \<longleftrightarrow> cn_ipam s = None"
  by (auto simp: set_object_def target_object_def split: if_splits)

lemma resolve_field_spec:
  assumes c: "cache_ok getLabel (cn_labels s)"
  shows "case field_spec getLabel t (look (tg_key t) s) of
      Inl e \<Rightarrow> resolve_field getLabel s t = Inl e
    | Inr _ \<Rightarrow> \<exists>s'. resolve_field getLabel s t = Inr s' \<and> field_done getLabel t s s'"
proof (cases "target_object t s")
  case None
  then have "look (tg_key t) s = None" by (simp add: target_object_def look_def split: if_splits)
  then show ?thesis using None c by (simp add: resolve_field_def field_spec_def field_done_def)
next
  case (Some obj)
  note lk = look_set_object[OF Some]
  show ?thesis
  proof (cases "Option.bind (map_of obj (tg_name t)) label_ref")
    case None
    then have "resolve_field getLabel s t = Inr s" using Some
      by (cases "map_of obj (tg_name t)") (simp_all add: resolve_field_def)
    then show ?thesis using None c by (simp add: field_spec_def field_done_def lk(3))
  next
    case (Some key)
    then obtain raw where raw: "map_of obj (tg_name t) = Some raw" "label_ref raw = Some key" by (auto split: bind_splits)
    note eq = resolve_field_def field_spec_def \<open>target_object t s = Some obj\<close> raw lk(3) Let_def
    show ?thesis
    proof (cases "getLabel key")
      case (Inl e)
      then show ?thesis using lookup_label_spec[OF c, of key] by (cases "bad_key key") (simp_all add: eq)
    next
      case (Inr v)
      then obtain l where l: "lookup_label getLabel key (cn_labels s) = Inr (v, l)" "cache_ok getLabel l"
        using lookup_label_spec[OF c, of key] by auto
      show ?thesis
        by (cases "bad_key key"; cases "trimSpace v = []"; cases "value_error (tg_name t) key (trimSpace v)"; cases "tg_optional t")
          (use l Inr in \<open>simp_all add: eq field_done_def lk \<open>target_object t s = Some obj\<close>\<close>)
    qed
  qed
qed

definition fields_done :: "(string \<Rightarrow> string result) \<Rightarrow> target list \<Rightarrow> cni_state \<Rightarrow> cni_state \<Rightarrow> bool" where
  "fields_done getLabel ts s s' \<longleftrightarrow>
     (\<forall>t \<in> set ts. field_spec getLabel t (look (tg_key t) s) = Inr (look (tg_key t) s')) \<and>
     (\<forall>bk. bk \<notin> tg_key ` set ts \<longrightarrow> look bk s' = look bk s) \<and> (cn_ipam s' = None \<longleftrightarrow> cn_ipam s = None) \<and>
     (cn_changed s' \<longleftrightarrow> cn_changed s \<or> (\<exists>t \<in> set ts. refers (look (tg_key t) s)))"

abbreviation unresolvable :: "(string \<Rightarrow> string result) \<Rightarrow> cni_state \<Rightarrow> target \<Rightarrow> bool" where
  "unresolvable getLabel s t \<equiv> isl (field_spec getLabel t (look (tg_key t) s))"

lemma field_done_other:
  assumes "field_done getLabel t s s1" "tg_key t \<notin> tg_key ` set ts" "u \<in> set ts"
  shows "look (tg_key u) s1 = look (tg_key u) s"
proof -
  have "\<And>bk. bk \<noteq> tg_key t \<Longrightarrow> look bk s1 = look bk s" using assms(1) unfolding field_done_def by blast
  moreover have "tg_key u \<noteq> tg_key t" using image_eqI[OF refl assms(3), of tg_key] assms(2) by (intro notI) simp
  ultimately show ?thesis by simp
qed

lemma fields_done_Cons:
  assumes "field_done getLabel t s s1" "fields_done getLabel ts s1 s'" "tg_key t \<notin> tg_key ` set ts"
  shows "fields_done getLabel (t # ts) s s'"
proof -
  have keep: "bk \<noteq> tg_key t \<Longrightarrow> look bk s1 = look bk s" for bk using assms(1) unfolding field_done_def by blast
  have keep': "bk \<notin> tg_key ` set ts \<Longrightarrow> look bk s' = look bk s1" for bk using assms(2) unfolding fields_done_def by blast
  have same: "look (tg_key u) s1 = look (tg_key u) s" if "u \<in> set ts" for u
    by (rule field_done_other[OF assms(1,3) that])
  show ?thesis
    unfolding fields_done_def
  proof (intro conjI ballI allI impI)
    fix u
    assume u: "u \<in> set (t # ts)"
    show "field_spec getLabel u (look (tg_key u) s) = Inr (look (tg_key u) s')"
    proof (cases "u = t")
      case True
      then show ?thesis using assms(1) keep'[OF assms(3)] by (simp add: field_done_def)
    next
      case False
      then have "u \<in> set ts" using u by simp
      then show ?thesis using assms(2) same[of u] unfolding fields_done_def by metis
    qed
  next
    fix bk
    assume "bk \<notin> tg_key ` set (t # ts)"
    then show "look bk s' = look bk s" using keep[of bk] keep'[of bk] by auto
  next
    show "cn_changed s' = (cn_changed s \<or> (\<exists>t \<in> set (t # ts). refers (look (tg_key t) s)))"
      using assms(1,2) same unfolding field_done_def fields_done_def by auto
  qed (use assms(1,2) in \<open>simp add: field_done_def fields_done_def\<close>)
qed

lemma resolve_fields_spec:
  assumes "cache_ok getLabel (cn_labels s)" "distinct (map tg_key ts)"
  shows "case find (unresolvable getLabel s) ts of
      Some t \<Rightarrow> resolve_fields getLabel s ts = Inl (projl (field_spec getLabel t (look (tg_key t) s)))
    | None \<Rightarrow> \<exists>s'. resolve_fields getLabel s ts = Inr s' \<and> fields_done getLabel ts s s'"
  using assms
proof (induction ts arbitrary: s)
  case Nil
  then show ?case by (simp add: fields_done_def)
next
  case (Cons t ts)
  note step = resolve_field_spec[OF Cons.prems(1), of t]
  show ?case
  proof (cases "field_spec getLabel t (look (tg_key t) s)")
    case (Inl e)
    then show ?thesis using step by simp
  next
    case (Inr r)
    then obtain s1 where s1: "resolve_field getLabel s t = Inr s1" "field_done getLabel t s s1" using step by auto
    have t: "tg_key t \<notin> tg_key ` set ts" using Cons.prems(2) by simp
    have same: "look (tg_key u) s1 = look (tg_key u) s" if "u \<in> set ts" for u
      by (rule field_done_other[OF s1(2) t that])
    have find: "find (unresolvable getLabel s) ts = find (unresolvable getLabel s1) ts"
      by (rule find_cong) (simp_all add: same)
    have "case find (unresolvable getLabel s1) ts of
        Some u \<Rightarrow> resolve_fields getLabel s1 ts = Inl (projl (field_spec getLabel u (look (tg_key u) s1)))
      | None \<Rightarrow> \<exists>s'. resolve_fields getLabel s1 ts = Inr s' \<and> fields_done getLabel ts s1 s'"
      using Cons.IH[of s1] s1(2) Cons.prems(2) by (simp add: field_done_def)
    then show ?thesis
    proof (cases "find (unresolvable getLabel s1) ts")
      case None
      then obtain s' where "resolve_fields getLabel s1 ts = Inr s'" "fields_done getLabel ts s1 s'"
        using \<open>case find (unresolvable getLabel s1) ts of Some u \<Rightarrow> _ u | None \<Rightarrow> _\<close> by auto
      then show ?thesis using Inr s1 None find fields_done_Cons[OF s1(2) _ t] by auto
    next
      case (Some u)
      then have "u \<in> set ts" by (auto simp: find_Some_iff)
      then show ?thesis
        using Some \<open>case find (unresolvable getLabel s1) ts of Some u \<Rightarrow> _ u | None \<Rightarrow> _\<close> Inr s1 find same by simp
    qed
  qed
qed

definition cni_start :: "json gomap \<Rightarrow> json gomap option \<Rightarrow> cni_state" where
  "cni_start root ipam = \<lparr>cn_root = root, cn_ipam = ipam, cn_labels = [], cn_changed = False\<rparr>"

definition ipam_of :: "json gomap \<Rightarrow> json gomap option result" where
  "ipam_of root = (case map_of root ''ipam'' of None \<Rightarrow> Inr None | Some raw \<Rightarrow> raw_map raw)"

text \<open>
  C26. What the wrapper hands to the bridge plugin. A configuration without references to host labels
  is passed on byte for byte. Otherwise each of the four subnet fields gets the value that its own
  reference determines, or the first field that cannot be resolved decides the error; every other
  member keeps its value; and the result is only passed on if the two subnets agree and the ends of
  the range are inside.
\<close>

theorem resolve_config:
  assumes "json_parse input = Some j" "raw_map j = Inr (Some root)" "ipam_of root = Inr ipam"
  shows "case find (unresolvable getLabel (cni_start root ipam)) cni_targets of
      Some t \<Rightarrow> resolveConfig input getLabel = Inl (projl (field_spec getLabel t (look (tg_key t) (cni_start root ipam))))
    | None \<Rightarrow> \<exists>s. fields_done getLabel cni_targets (cni_start root ipam) s \<and>
        resolveConfig input getLabel =
          (if \<exists>t \<in> set cni_targets. refers (look (tg_key t) (cni_start root ipam)) then
             if subnets_differ s then Inl (Errorf ''bridge and IPAM subnets must match'' [])
             else case range_error (cn_ipam s) of Some e \<Rightarrow> Inl e | None \<Rightarrow> Inr (render (marshal_raw (final_root s)))
           else Inr input)"
proof -
  let ?s = "cni_start root ipam"
  have "case find (unresolvable getLabel ?s) cni_targets of
      Some t \<Rightarrow> resolve_fields getLabel ?s cni_targets = Inl (projl (field_spec getLabel t (look (tg_key t) ?s)))
    | None \<Rightarrow> \<exists>s'. resolve_fields getLabel ?s cni_targets = Inr s' \<and> fields_done getLabel cni_targets ?s s'"
    by (rule resolve_fields_spec) (simp_all add: cache_ok_def cni_start_def cni_targets_def)
  moreover have eq: "resolveConfig input getLabel = (case resolve_fields getLabel ?s cni_targets of
      Inl e \<Rightarrow> Inl e
    | Inr s \<Rightarrow> if \<not> cn_changed s then Inr input
        else if subnets_differ s then Inl (Errorf ''bridge and IPAM subnets must match'' [])
        else case range_error (cn_ipam s) of Some e \<Rightarrow> Inl e | None \<Rightarrow> Inr (render (marshal_raw (final_root s))))"
    using assms by (simp add: resolveConfig_def cni_start_def ipam_of_def)
  ultimately show ?thesis
  proof (cases "find (unresolvable getLabel ?s) cni_targets")
    case None
    then obtain s where s: "resolve_fields getLabel ?s cni_targets = Inr s" "fields_done getLabel cni_targets ?s s"
      using \<open>case find (unresolvable getLabel ?s) cni_targets of Some t \<Rightarrow> _ t | None \<Rightarrow> _\<close> by auto
    have "cn_changed s \<longleftrightarrow> (\<exists>t \<in> set cni_targets. refers (look (tg_key t) ?s))"
      using s(2) unfolding fields_done_def by (simp add: cni_start_def)
    then show ?thesis using None s by (auto simp: eq)
  qed (simp add: eq)
qed

definition demo_ipam :: "json gomap" where
  "demo_ipam = [(''subnet'', JStr ''__host_label__:net''), (''rangeStart'', JStr ''__host_label__:lo''), (''type'', JStr ''host-local'')]"

definition demo_root :: "json gomap" where
  "demo_root = [(''bridgeSubnet'', JStr ''__host_label__: net''), (''ipam'', JObj demo_ipam)]"

definition demo_label :: "string \<Rightarrow> string result" where
  "demo_label key = Inr (if key = ''net'' then ''10.42.0.0/16'' else [])"

theorem resolve_config_witness:
  "\<exists>s. fields_done demo_label cni_targets (cni_start demo_root (Some demo_ipam)) s \<and>
     resolveConfig (render (JObj demo_root)) demo_label =
       (if subnets_differ s then Inl (Errorf ''bridge and IPAM subnets must match'' [])
        else case range_error (cn_ipam s) of Some e \<Rightarrow> Inl e | None \<Rightarrow> Inr (render (marshal_raw (final_root s))))"
proof -
  let ?s = "cni_start demo_root (Some demo_ipam)"
  have p: "json_parse (render (JObj demo_root)) = Some (JObj demo_root)" "raw_map (JObj demo_root) = Inr (Some demo_root)"
      "ipam_of demo_root = Inr (Some demo_ipam)" by code_simp+
  have f: "find (unresolvable demo_label ?s) cni_targets = None" "\<exists>t \<in> set cni_targets. refers (look (tg_key t) ?s)" by code_simp+
  show ?thesis using resolve_config[OF p, of demo_label] f by simp
qed

end
