(* ===== verification/Vici_Wire.thy ===== *)
theory Vici_Wire
  imports Go_Json
begin

text \<open>
  The wire format of charon's VICI socket, as the vendored library writes and reads it
  (\<^verbatim>\<open>goStrongswanVici/msg.go\<close>). Bytes are characters. A message is a map to untyped values, listed
  in the order in which the writer's range visits it, so a theorem for every list is one for every
  range order. The abstract counterpart is \<open>sent\<close>: the part of a message that reaches the wire.
\<close>

section \<open>Segments\<close>

type_synonym segmentType = char

abbreviation (input) stCMD_REQUEST :: segmentType where "stCMD_REQUEST \<equiv> CHR 0x00"
abbreviation (input) stCMD_RESPONSE :: segmentType where "stCMD_RESPONSE \<equiv> CHR 0x01"
abbreviation (input) stCMD_UNKNOWN :: segmentType where "stCMD_UNKNOWN \<equiv> CHR 0x02"
abbreviation (input) stEVENT_REGISTER :: segmentType where "stEVENT_REGISTER \<equiv> CHR 0x03"
abbreviation (input) stEVENT_UNREGISTER :: segmentType where "stEVENT_UNREGISTER \<equiv> CHR 0x04"
abbreviation (input) stEVENT_CONFIRM :: segmentType where "stEVENT_CONFIRM \<equiv> CHR 0x05"
abbreviation (input) stEVENT_UNKNOWN :: segmentType where "stEVENT_UNKNOWN \<equiv> CHR 0x06"
abbreviation (input) stEVENT :: segmentType where "stEVENT \<equiv> CHR 0x07"

definition seg_hasName :: "segmentType \<Rightarrow> bool" where
  "seg_hasName t \<longleftrightarrow> t \<in> {stCMD_REQUEST, stEVENT_REGISTER, stEVENT_UNREGISTER, stEVENT}"

definition seg_isValid :: "segmentType \<Rightarrow> bool" where
  "seg_isValid t \<longleftrightarrow> t \<in> {stCMD_REQUEST, stCMD_RESPONSE, stCMD_UNKNOWN, stEVENT_REGISTER,
     stEVENT_UNREGISTER, stEVENT_CONFIRM, stEVENT_UNKNOWN, stEVENT}"

definition seg_hasMsg :: "segmentType \<Rightarrow> bool" where
  "seg_hasMsg t \<longleftrightarrow> t \<in> {stCMD_REQUEST, stCMD_RESPONSE, stEVENT}"

abbreviation (input) etSECTION_START :: char where "etSECTION_START \<equiv> CHR 0x01"
abbreviation (input) etSECTION_END :: char where "etSECTION_END \<equiv> CHR 0x02"
abbreviation (input) etKEY_VALUE :: char where "etKEY_VALUE \<equiv> CHR 0x03"
abbreviation (input) etLIST_START :: char where "etLIST_START \<equiv> CHR 0x04"
abbreviation (input) etLIST_ITEM :: char where "etLIST_ITEM \<equiv> CHR 0x05"
abbreviation (input) etLIST_END :: char where "etLIST_END \<equiv> CHR 0x06"

record segment =
  seg_typ :: segmentType
  seg_name :: string
  seg_msg :: "gval gomap"

section \<open>Writing\<close>

text \<open>What a call appends to the buffer, and its error.\<close>

type_synonym written = "string \<times> go_error option"

definition writeString1 :: "string \<Rightarrow> written" where
  "writeString1 s =
     (if length s > 255 then ([], Some (Errorf ''[writeString1] length>255'' []))
      else (char_of (length s) # s, None))"

definition be16 :: "nat \<Rightarrow> string" where
  "be16 n = [char_of (n div 256), char_of n]"

definition be32 :: "nat \<Rightarrow> string" where
  "be32 n = [char_of (n div 16777216), char_of (n div 65536), char_of (n div 256), char_of n]"

definition writeString2 :: "string \<Rightarrow> written" where
  "writeString2 s =
     (if length s > 65535 then ([], Some (Errorf ''[writeString2] length>65535'' []))
      else (be16 (length s) @ s, None))"

definition writeKeyString :: "string \<Rightarrow> string \<Rightarrow> written" where
  "writeKeyString name msg =
     (case writeString1 name of
        (b, Some e) \<Rightarrow> (etKEY_VALUE # b, Some e)
      | (b, None) \<Rightarrow> (case writeString2 msg of (b', err) \<Rightarrow> (etKEY_VALUE # b @ b', err)))"

fun write_items :: "string list \<Rightarrow> written" where
  "write_items [] = ([etLIST_END], None)"
| "write_items (s # ss) =
     (case writeString2 s of
        (b, Some e) \<Rightarrow> (etLIST_ITEM # b, Some e)
      | (b, None) \<Rightarrow> (case write_items ss of (b', err) \<Rightarrow> (etLIST_ITEM # b @ b', err)))"

definition writeKeyList :: "string \<Rightarrow> string list \<Rightarrow> written" where
  "writeKeyList name msg =
     (case writeString1 name of
        (b, Some e) \<Rightarrow> (etLIST_START # b, Some e)
      | (b, None) \<Rightarrow> (case write_items msg of (b', err) \<Rightarrow> (etLIST_START # b @ b', err)))"

text \<open>The type assertion on the elements of a list.\<close>

fun as_strings :: "gval list \<Rightarrow> string list option" where
  "as_strings [] = Some []"
| "as_strings (GStr s # vs) = map_option (Cons s) (as_strings vs)"
| "as_strings _ = None"

text \<open>
  \<^verbatim>\<open>writeMap\<close> drops the errors of \<^verbatim>\<open>writeKeyMap\<close>, \<^verbatim>\<open>writeKeyList\<close> and \<^verbatim>\<open>writeKeyString\<close>, and
  \<^verbatim>\<open>writeKeyMap\<close> drops the error of \<^verbatim>\<open>writeMap\<close>; what was written before the error stays.
\<close>

definition append_written :: "string \<Rightarrow> written outcome \<Rightarrow> written outcome" where
  "append_written b rest = (case rest of Ok (b', err) \<Rightarrow> Ok (b @ b', err) | Err e \<Rightarrow> Err e | Panic m \<Rightarrow> Panic m)"

function (sequential) writeMap :: "gval gomap \<Rightarrow> written outcome"
  and writeKeyMap :: "string \<Rightarrow> gval gomap \<Rightarrow> written outcome" where
  "writeMap [] = Ok ([], None)"
| "writeMap ((k, GMap t) # m) =
     (case writeKeyMap k t of Ok (b, _) \<Rightarrow> append_written b (writeMap m) | Err e \<Rightarrow> Err e | Panic p \<Rightarrow> Panic p)"
| "writeMap ((k, GStr s) # m) = append_written (fst (writeKeyString k s)) (writeMap m)"
| "writeMap ((k, GArr vs) # m) =
     (case as_strings vs of
        None \<Rightarrow> Panic ''interface conversion: interface {} is not string''
      | Some ss \<Rightarrow> append_written (fst (writeKeyList k ss)) (writeMap m))"
| "writeMap ((k, v) # m) = Ok ([], Some (Errorf ''[writeMap] can not write type %T right now'' [''map[string]interface {}'']))"
| "writeKeyMap name msg =
     (case writeString1 name of
        (b, Some e) \<Rightarrow> Ok (etSECTION_START # b, Some e)
      | (b, None) \<Rightarrow>
          (case writeMap msg of
             Ok (b', _) \<Rightarrow> Ok (etSECTION_START # b @ b' @ [etSECTION_END], None)
           | Err e \<Rightarrow> Err e
           | Panic p \<Rightarrow> Panic p))"
  by pat_completeness auto

termination
  by (relation "measure (\<lambda>x. case x of Inl m \<Rightarrow> 2 * size (GMap m) | Inr (k, m) \<Rightarrow> 2 * size (GMap m) + 1)") auto

text \<open>\<^verbatim>\<open>writeSegment\<close>: the bytes that go to the connection, if any. The length is a 32-bit number.\<close>

definition writeSegment :: "segment \<Rightarrow> string result outcome" where
  "writeSegment s =
     (let t = seg_typ s
      in if \<not> seg_isValid t then Ok (Inl (Errorf ''[writeSegment] msg.typ %d not defined'' [itoa (of_char t)]))
         else case (if seg_hasName t then writeString1 (seg_name s) else ([], None)) of
           (_, Some e) \<Rightarrow> Ok (Inl e)
         | (b1, None) \<Rightarrow>
             (case (if seg_hasMsg t then writeMap (seg_msg s) else Ok ([], None)) of
                Ok (_, Some e) \<Rightarrow> Ok (Inl e)
              | Ok (b2, None) \<Rightarrow> (let buf = t # b1 @ b2 in Ok (Inr (be32 (length buf mod 2 ^ 32) @ buf)))
              | Err e \<Rightarrow> Err e
              | Panic p \<Rightarrow> Panic p))"

section \<open>Reading\<close>

definition io_EOF :: go_error where "io_EOF = EnvError ''EOF''"
definition io_ErrUnexpectedEOF :: go_error where "io_ErrUnexpectedEOF = EnvError ''unexpected EOF''"

definition readFull :: "nat \<Rightarrow> string \<Rightarrow> (string \<times> string) result" where
  "readFull n r =
     (if n = 0 then Inr ([], r)
      else if r = [] then Inl io_EOF
      else if length r < n then Inl io_ErrUnexpectedEOF
      else Inr (take n r, drop n r))"

definition be_val :: "string \<Rightarrow> nat" where
  "be_val bs = foldl (\<lambda>n c. 256 * n + of_char c) 0 bs"

definition readString1 :: "string \<Rightarrow> (string \<times> string) result" where
  "readString1 r = (case r of [] \<Rightarrow> Inl io_EOF | c # r1 \<Rightarrow> readFull (of_char c) r1)"

definition readString2 :: "string \<Rightarrow> (string \<times> string) result" where
  "readString2 r = (case readFull 2 r of Inl e \<Rightarrow> Inl e | Inr (l, r1) \<Rightarrow> readFull (be_val l) r1)"

lemma readFull_length: "readFull n r = Inr (s, r') \<Longrightarrow> length s = n \<and> r = s @ r'"
  by (auto simp: readFull_def split: if_splits)

lemma readString1_length: "readString1 r = Inr (s, r') \<Longrightarrow> length r' < length r"
  using readFull_length by (fastforce simp: readString1_def split: list.splits)

lemma readString2_length:
  assumes "readString2 r = Inr (s, r')"
  shows "length r' < length r"
proof -
  obtain l r1 where "readFull 2 r = Inr (l, r1)" "readFull (be_val l) r1 = Inr (s, r')"
    using assms by (auto simp: readString2_def split: sum.splits)
  from this[THEN readFull_length] show ?thesis by auto
qed

definition readKeyString :: "string \<Rightarrow> ((string \<times> string) \<times> string) result" where
  "readKeyString r =
     (case readString1 r of
        Inl e \<Rightarrow> Inl e
      | Inr (key, r1) \<Rightarrow> (case readString2 r1 of Inl e \<Rightarrow> Inl e | Inr (v, r2) \<Rightarrow> Inr ((key, v), r2)))"

function read_items :: "string list \<Rightarrow> string \<Rightarrow> (string list \<times> string) result" where
  "read_items msg r =
     (case r of
        [] \<Rightarrow> Inl io_EOF
      | c # r1 \<Rightarrow>
          if c = etLIST_ITEM then (case readString2 r1 of Inl e \<Rightarrow> Inl e | Inr (v, r2) \<Rightarrow> read_items (msg @ [v]) r2)
          else if c = etLIST_END then Inr (msg, r1)
          else Inl (Errorf ''[readKeyList] protocol error 2'' []))"
  by pat_completeness auto

termination
  by (relation "measure (\<lambda>(m, r). length r)") (auto dest: readString2_length)

declare read_items.simps [simp del]

lemma read_items_length: "read_items msg r = Inr (v, r') \<Longrightarrow> length r' < length r"
proof (induction msg r rule: read_items.induct)
  case (1 msg r)
  show ?case
    using "1.prems" "1.IH" readString2_length
    by (subst (asm) read_items.simps) (fastforce split: list.splits if_splits sum.splits)
qed

definition readKeyList :: "string \<Rightarrow> ((string \<times> string list) \<times> string) result" where
  "readKeyList r =
     (case readString1 r of
        Inl e \<Rightarrow> Inl e
      | Inr (key, r1) \<Rightarrow> (case read_items [] r1 of Inl e \<Rightarrow> Inl e | Inr (v, r2) \<Rightarrow> Inr ((key, v), r2)))"

text \<open>A free variant of a key: among as many candidates as the map has entries and one more, one is free.\<close>

definition getNewKeyToHandleDuplicates :: "string \<Rightarrow> gval gomap \<Rightarrow> string" where
  "getNewKeyToHandleDuplicates key msg =
     (if map_of msg key = None then key
      else case find (\<lambda>i. map_of msg (key @ ''##'' @ itoa i) = None) [0..<Suc (length msg)] of
        Some i \<Rightarrow> key @ ''##'' @ itoa i
      | None \<Rightarrow> key)"

definition put_new :: "string \<Rightarrow> gval \<Rightarrow> gval gomap \<Rightarrow> gval gomap" where
  "put_new key v msg = mput (getNewKeyToHandleDuplicates key msg) v msg"

lemma new_key_free: "map_of msg (getNewKeyToHandleDuplicates key msg) = None"
proof (cases "map_of msg key = None")
  case False
  let ?k = "\<lambda>i. key @ ''##'' @ itoa i"
  have "\<exists>i \<in> {..length msg}. map_of msg (?k i) = None"
  proof (rule ccontr)
    assume "\<not> ?thesis"
    then have "?k ` {..length msg} \<subseteq> fst ` set msg" by (auto simp: map_of_eq_None_iff)
    then have "card (?k ` {..length msg}) \<le> card (fst ` set msg)" by (intro card_mono) simp_all
    also have "\<dots> \<le> length msg" using card_image_le[of "set msg" fst] card_length[of msg] by simp
    finally show False by (simp add: card_image inj_on_def)
  qed
  then have "find (\<lambda>i. map_of msg (?k i) = None) [0..<Suc (length msg)] \<noteq> None"
    unfolding find_None_iff by (auto simp del: upt_Suc simp: less_Suc_eq_le)
  then obtain i where "find (\<lambda>i. map_of msg (?k i) = None) [0..<Suc (length msg)] = Some i" by blast
  moreover from this have "map_of msg (?k i) = None" unfolding find_Some_iff by (auto simp del: upt_Suc)
  ultimately show ?thesis
    using False unfolding getNewKeyToHandleDuplicates_def by simp
qed (simp add: getNewKeyToHandleDuplicates_def)

text \<open>So nothing that was read before is overwritten.\<close>

lemma put_new_keeps: "map_of msg k = Some v' \<Longrightarrow> map_of (put_new key v msg) k = Some v'"
  using new_key_free[of msg key] by (auto simp: put_new_def)

text \<open>
  \<^verbatim>\<open>readMap\<close> with the entries read so far; \<^verbatim>\<open>readKeyMap\<close> is the recursive call with the key before
  it. The end of the input ends the outermost map only. An unknown element is a panic.
\<close>

function readMap :: "bool \<Rightarrow> gval gomap \<Rightarrow> string \<Rightarrow> (gval gomap \<times> string) outcome" where
  "readMap isRoot msg r =
     (case r of
        [] \<Rightarrow> if isRoot then Ok (msg, []) else Err io_EOF
      | c # r0 \<Rightarrow>
          if c = etSECTION_START then
            (case readString1 r0 of
               Inl e \<Rightarrow> Err e
             | Inr (key, r1) \<Rightarrow>
                 (case readMap False [] r1 of
                    Ok (v, r2) \<Rightarrow> readMap isRoot (put_new key (GMap v) msg) r2
                  | Err e \<Rightarrow> Err e
                  | Panic p \<Rightarrow> Panic p))
          else if c = etLIST_START then
            (case readKeyList r0 of
               Inl e \<Rightarrow> Err e
             | Inr ((key, v), r1) \<Rightarrow> readMap isRoot (put_new key (GArr (map GStr v)) msg) r1)
          else if c = etKEY_VALUE then
            (case readKeyString r0 of
               Inl e \<Rightarrow> Err e
             | Inr ((key, v), r1) \<Rightarrow> readMap isRoot (put_new key (GStr v) msg) r1)
          else if c = etSECTION_END then Ok (msg, r0)
          else Panic ''[readMap] protocol error 1'')"
  by pat_completeness auto

lemma readKeyList_length: "readKeyList r = Inr (kv, r') \<Longrightarrow> length r' < length r"
  using readString1_length read_items_length
  by (fastforce simp: readKeyList_def split: sum.splits)

lemma readKeyString_length: "readKeyString r = Inr (kv, r') \<Longrightarrow> length r' < length r"
  using readString1_length readString2_length
  by (fastforce simp: readKeyString_def split: sum.splits)

lemma readMap_length:
  assumes "readMap_dom (isRoot, msg, r)" "readMap isRoot msg r = Ok (v, r')"
  shows "length r' \<le> length r"
  using assms
proof (induction isRoot msg r arbitrary: v r' rule: readMap.pinduct)
  case (1 isRoot msg r)
  note len = readString1_length readKeyList_length readKeyString_length
    and eq0 = "1.prems"[unfolded readMap.psimps[OF "1.hyps"]]
  show ?case
  proof (cases r)
    case Nil
    then show ?thesis using eq0 by (simp split: if_splits)
  next
    case (Cons c r0)
    note eq = eq0[unfolded Cons, simplified]
    consider "c = etSECTION_START" | "c = etLIST_START" | "c = etKEY_VALUE" | "c = etSECTION_END"
      using eq by (auto split: if_splits)
    then show ?thesis
    proof cases
      case 1
      then obtain key r1 w r2 where k: "readString1 r0 = Inr (key, r1)" "readMap False [] r1 = Ok (w, r2)"
          "readMap isRoot (put_new key (GMap w) msg) r2 = Ok (v, r')"
        using eq by (auto split: sum.splits outcome.splits)
      have "length r2 \<le> length r1" using "1.IH"(1) Cons 1 k by blast
      moreover have "length r' \<le> length r2" using "1.IH"(2) Cons 1 k by blast
      ultimately show ?thesis using len(1)[OF k(1)] Cons by simp
    next
      case 2
      then obtain key w r1 where k: "readKeyList r0 = Inr ((key, w), r1)"
          "readMap isRoot (put_new key (GArr (map GStr w)) msg) r1 = Ok (v, r')"
        using eq by (auto split: sum.splits)
      have "length r' \<le> length r1" using "1.IH"(3) Cons 2 k by blast
      then show ?thesis using len(2)[OF k(1)] Cons by simp
    next
      case 3
      then obtain key w r1 where k: "readKeyString r0 = Inr ((key, w), r1)"
          "readMap isRoot (put_new key (GStr w) msg) r1 = Ok (v, r')"
        using eq by (auto split: sum.splits)
      have "length r' \<le> length r1" using "1.IH"(4) Cons 3 k by blast
      then show ?thesis using len(3)[OF k(1)] Cons by simp
    qed (use eq Cons in simp)
  qed
qed

termination readMap
proof (relation "measure (\<lambda>(b, m, r). length r)", goal_cases)
  case 1
  show ?case by simp
qed (auto dest: readString1_length readKeyList_length readKeyString_length readMap_length
    intro: le_less_trans less_SucI)

declare readMap.simps [simp del]

text \<open>
  \<^verbatim>\<open>readSegment\<close> on the bytes that the connection still delivers. The buffered reader may have
  fetched bytes of the segment that nothing has read; they are lost for the next segment, and
  \<open>ahead\<close> says how many these are.
\<close>

definition readSegment :: "(string \<Rightarrow> nat) \<Rightarrow> string \<Rightarrow> (segment \<times> string) outcome" where
  "readSegment ahead inR =
     (case readFull 4 inR of
        Inl e \<Rightarrow> Err e
      | Inr (l, r) \<Rightarrow>
          (case take (be_val l) r of
             [] \<Rightarrow> Err io_EOF
           | t # b0 \<Rightarrow>
               if \<not> seg_isValid t then Err (Errorf ''[readSegment] msg.typ %d not defined'' [itoa (of_char t)])
               else case (if seg_hasName t then readString1 b0 else Inr ([], b0)) of
                 Inl e \<Rightarrow> Err e
               | Inr (name, b1) \<Rightarrow>
                   (case (if seg_hasMsg t then readMap True [] b1 else Ok ([], b1)) of
                      Ok (msg, b2) \<Rightarrow>
                        Ok (\<lparr>seg_typ = t, seg_name = name, seg_msg = msg\<rparr>, drop (ahead b2) b2 @ drop (be_val l) r)
                    | Err e \<Rightarrow> Err e
                    | Panic p \<Rightarrow> Panic p)))"

section \<open>What reaches the wire\<close>

definition sendable :: "gval \<Rightarrow> bool" where
  "sendable v \<longleftrightarrow> (case v of GMap _ \<Rightarrow> True | GStr _ \<Rightarrow> True | GArr _ \<Rightarrow> True | _ \<Rightarrow> False)"

text \<open>
  A value that cannot be written ends its map: the entries after it are dropped, and no error is
  reported unless the map is the outermost one.
\<close>

function (sequential) sent :: "gval gomap \<Rightarrow> gval gomap" where
  "sent [] = []"
| "sent ((k, GMap t) # m) = (k, GMap (sent t)) # sent m"
| "sent ((k, GStr s) # m) = (k, GStr s) # sent m"
| "sent ((k, GArr vs) # m) = (k, GArr vs) # sent m"
| "sent ((k, v) # m) = []"
  by pat_completeness auto

termination
  by (relation "measure (\<lambda>m. size (GMap m))") auto

text \<open>Messages within the limits of the format: distinct keys, short enough keys and strings, lists of strings.\<close>

definition item_fits :: "gval \<Rightarrow> bool" where
  "item_fits v \<longleftrightarrow> (case v of GStr s \<Rightarrow> length s \<le> 65535 | _ \<Rightarrow> False)"

function (sequential) fits :: "gval gomap \<Rightarrow> bool" where
  "fits [] \<longleftrightarrow> True"
| "fits ((k, GMap t) # m) \<longleftrightarrow> length k \<le> 255 \<and> k \<notin> fst ` set m \<and> fits t \<and> fits m"
| "fits ((k, GStr s) # m) \<longleftrightarrow> length k \<le> 255 \<and> k \<notin> fst ` set m \<and> length s \<le> 65535 \<and> fits m"
| "fits ((k, GArr vs) # m) \<longleftrightarrow> length k \<le> 255 \<and> k \<notin> fst ` set m \<and> list_all item_fits vs \<and> fits m"
| "fits ((k, v) # m) \<longleftrightarrow> True"
  by pat_completeness auto

termination
  by (relation "measure (\<lambda>m. size (GMap m))") auto

lemma of_char_char_of_small [simp]: "n < 256 \<Longrightarrow> of_char (char_of n) = (n :: nat)"
  by (simp add: take_bit_eq_mod)

lemma readString1_written: "length s \<le> 255 \<Longrightarrow> readString1 (char_of (length s) # s @ r) = Inr (s, r)"
  by (auto simp: readString1_def readFull_def)

lemma be_val_be16: "n \<le> 65535 \<Longrightarrow> be_val (be16 n) = n"
  by (simp add: be_val_def be16_def take_bit_eq_mod)

lemma be_val_be32:
  assumes "n < 2 ^ 32"
  shows "be_val (be32 n) = n"
proof -
  have d: "n div 65536 = n div 256 div 256" "n div 16777216 = n div 256 div 256 div 256"
    by (simp_all add: div_mult2_eq[symmetric])
  have "n div 256 div 256 div 256 < 256" using assms by (simp add: div_mult2_eq[symmetric] less_mult_imp_div_less)
  then show ?thesis by (simp add: be_val_def be32_def take_bit_eq_mod d)
qed

lemma readString2_written: "length s \<le> 65535 \<Longrightarrow> readString2 (be16 (length s) @ s @ r) = Inr (s, r)"
  by (simp add: readString2_def readFull_def be_val_be16[unfolded be16_def] be16_def)

lemma read_items_written:
  "list_all (\<lambda>s. length s \<le> 65535) ss \<Longrightarrow> write_items ss = (fst (write_items ss), None) \<and>
   read_items acc (fst (write_items ss) @ r) = Inr (acc @ ss, r)"
proof (induction ss arbitrary: acc)
  case Nil
  then show ?case by (simp add: read_items.simps)
next
  case (Cons s ss)
  then have s: "length s \<le> 65535" by simp
  have w: "write_items (s # ss) = (etLIST_ITEM # be16 (length s) @ s @ fst (write_items ss), None)"
    using Cons by (auto simp: writeString2_def split: prod.split)
  show ?case
    unfolding w using Cons readString2_written[OF s, of "fst (write_items ss) @ r"]
    by (subst read_items.simps) simp
qed

lemma as_strings_items:
  "list_all item_fits vs \<Longrightarrow> \<exists>ss. as_strings vs = Some ss \<and> vs = map GStr ss \<and> list_all (\<lambda>s. length s \<le> 65535) ss"
proof (induction vs)
  case (Cons v vs)
  then obtain s where s: "v = GStr s" "length s \<le> 65535" by (auto simp: item_fits_def split: gval.splits)
  obtain ss where "as_strings vs = Some ss" "vs = map GStr ss" "list_all (\<lambda>s. length s \<le> 65535) ss"
    using Cons by auto
  with s show ?case by (intro exI[of _ "s # ss"]) simp
qed simp

lemma put_new_fresh: "key \<notin> fst ` set msg \<Longrightarrow> put_new key v msg = msg @ [(key, v)]"
proof -
  assume "key \<notin> fst ` set msg"
  moreover from this have "map_of msg key = None" by (simp add: map_of_eq_None_iff)
  ultimately show ?thesis
    by (simp add: put_new_def getNewKeyToHandleDuplicates_def mput_def) (induction msg; auto)
qed

text \<open>Reading one written entry in front of anything.\<close>

lemma readMap_entry:
  assumes "length k \<le> 255" "k \<notin> fst ` set acc"
  shows "length s \<le> 65535 \<Longrightarrow> readMap isRoot acc (fst (writeKeyString k s) @ r) = readMap isRoot (acc @ [(k, GStr s)]) r"
    "list_all (\<lambda>s. length s \<le> 65535) ss \<Longrightarrow>
      readMap isRoot acc (fst (writeKeyList k ss) @ r) = readMap isRoot (acc @ [(k, GArr (map GStr ss))]) r"
    "readMap False [] (b @ etSECTION_END # r) = Ok (v, r) \<Longrightarrow>
      readMap isRoot acc (etSECTION_START # char_of (length k) # k @ b @ etSECTION_END # r) = readMap isRoot (acc @ [(k, GMap v)]) r"
proof -
  have k: "writeString1 k = (char_of (length k) # k, None)" using assms(1) by (simp add: writeString1_def)
  show "readMap isRoot acc (fst (writeKeyString k s) @ r) = readMap isRoot (acc @ [(k, GStr s)]) r" if "length s \<le> 65535"
    using that readString1_written[OF assms(1), of "be16 (length s) @ s @ r"] readString2_written[OF that, of r] assms(2)
    by (subst readMap.simps) (simp add: writeKeyString_def k writeString2_def readKeyString_def put_new_fresh)
  show "readMap isRoot acc (fst (writeKeyList k ss) @ r) = readMap isRoot (acc @ [(k, GArr (map GStr ss))]) r"
    if i: "list_all (\<lambda>s. length s \<le> 65535) ss"
  proof -
    obtain b where "write_items ss = (b, None)" "read_items [] (b @ r) = Inr (ss, r)"
      using read_items_written[OF i, of "[]" r] by (metis append_Nil)
    then show ?thesis
      using readString1_written[OF assms(1), of "b @ r"] assms(2)
      by (subst readMap.simps) (simp add: writeKeyList_def k readKeyList_def put_new_fresh)
  qed
  show "readMap isRoot acc (etSECTION_START # char_of (length k) # k @ b @ etSECTION_END # r) = readMap isRoot (acc @ [(k, GMap v)]) r"
    if "readMap False [] (b @ etSECTION_END # r) = Ok (v, r)"
    using that readString1_written[OF assms(1), of "b @ etSECTION_END # r"] assms(2)
    by (subst readMap.simps) (simp add: put_new_fresh)
qed

lemma readMap_end: "readMap isRoot acc (etSECTION_END # r) = Ok (acc, r)" "readMap True acc [] = Ok (acc, [])"
  by (simp_all add: readMap.simps)

lemma readMap_written:
  assumes "fits m"
  shows "\<exists>bs err. writeMap m = Ok (bs, err) \<and> (err = None \<longleftrightarrow> list_all (\<lambda>(k, v). sendable v) m) \<and>
    (\<forall>isRoot acc r. fst ` set acc \<inter> fst ` set m = {} \<longrightarrow> readMap isRoot acc (bs @ r) = readMap isRoot (acc @ sent m) r)"
  using assms
proof (induction m rule: sent.induct)
  case (2 k t m)
  then obtain bt et bm em where t: "writeMap t = Ok (bt, et)" "\<And>r. readMap False [] (bt @ etSECTION_END # r) = Ok (sent t, r)"
    and m: "writeMap m = Ok (bm, em)" "em = None \<longleftrightarrow> list_all (\<lambda>(k, v). sendable v) m"
      "\<And>isRoot acc r. fst ` set acc \<inter> fst ` set m = {} \<Longrightarrow> readMap isRoot acc (bm @ r) = readMap isRoot (acc @ sent m) r"
    by (force simp: readMap_end)
  have k: "length k \<le> 255" "k \<notin> fst ` set m" using 2(3) by simp_all
  have w: "writeMap ((k, GMap t) # m) = Ok (etSECTION_START # char_of (length k) # k @ bt @ etSECTION_END # bm, em)"
    using k by (simp add: t m writeString1_def append_written_def)
  have "readMap isRoot acc ((etSECTION_START # char_of (length k) # k @ bt @ etSECTION_END # bm) @ r) =
      readMap isRoot (acc @ sent ((k, GMap t) # m)) r" if "fst ` set acc \<inter> fst ` set ((k, GMap t) # m) = {}" for isRoot acc r
    using readMap_entry(3)[where acc = acc and r = "bm @ r" and isRoot = isRoot, OF k(1) _ t(2)] m(3)[of "acc @ [(k, GMap (sent t))]" isRoot r] k(2) that by auto
  then show ?case using w m(2) by (simp add: sendable_def)
next
  case (3 k s m)
  then obtain bm em where m: "writeMap m = Ok (bm, em)" "em = None \<longleftrightarrow> list_all (\<lambda>(k, v). sendable v) m"
      "\<And>isRoot acc r. fst ` set acc \<inter> fst ` set m = {} \<Longrightarrow> readMap isRoot acc (bm @ r) = readMap isRoot (acc @ sent m) r"
    by force
  have k: "length k \<le> 255" "k \<notin> fst ` set m" "length s \<le> 65535" using 3(2) by simp_all
  have "readMap isRoot acc ((fst (writeKeyString k s) @ bm) @ r) = readMap isRoot (acc @ sent ((k, GStr s) # m)) r"
    if "fst ` set acc \<inter> fst ` set ((k, GStr s) # m) = {}" for isRoot acc r
    using readMap_entry(1)[where acc = acc and r = "bm @ r" and isRoot = isRoot, OF k(1) _ k(3)] m(3)[of "acc @ [(k, GStr s)]" isRoot r] k(2) that by auto
  then show ?case using m(1,2) by (simp add: sendable_def append_written_def)
next
  case (4 k vs m)
  then obtain bm em where m: "writeMap m = Ok (bm, em)" "em = None \<longleftrightarrow> list_all (\<lambda>(k, v). sendable v) m"
      "\<And>isRoot acc r. fst ` set acc \<inter> fst ` set m = {} \<Longrightarrow> readMap isRoot acc (bm @ r) = readMap isRoot (acc @ sent m) r"
    by force
  have k: "length k \<le> 255" "k \<notin> fst ` set m" using 4(2) by simp_all
  obtain ss where ss: "as_strings vs = Some ss" "vs = map GStr ss" "list_all (\<lambda>s. length s \<le> 65535) ss"
    using as_strings_items[of vs] 4(2) by auto
  have "readMap isRoot acc ((fst (writeKeyList k ss) @ bm) @ r) = readMap isRoot (acc @ sent ((k, GArr vs) # m)) r"
    if "fst ` set acc \<inter> fst ` set ((k, GArr vs) # m) = {}" for isRoot acc r
    using readMap_entry(2)[where acc = acc and r = "bm @ r" and isRoot = isRoot, OF k(1) _ ss(3)] m(3)[of "acc @ [(k, GArr vs)]" isRoot r] k(2) that ss(2) by auto
  then show ?case using m(1,2) ss(1) by (simp add: sendable_def append_written_def)
qed (simp_all add: sendable_def)

lemma sent_all:
  "list_all (\<lambda>(k, v). sendable v) m1 \<Longrightarrow> sent (m1 @ m2) = sent m1 @ sent m2"
  by (induction m1 rule: sent.induct) (simp_all add: sendable_def)

lemma sent_stops:
  "list_all (\<lambda>(k, v). sendable v) m1 \<Longrightarrow> \<not> sendable v \<Longrightarrow> sent (m1 @ (k, v) # m2) = sent m1"
  by (simp add: sent_all) (cases v; simp add: sendable_def)

text \<open>The segment that the other side reads: a name or a message only where the type has one.\<close>

definition received :: "segment \<Rightarrow> segment" where
  "received s = \<lparr>seg_typ = seg_typ s, seg_name = (if seg_hasName (seg_typ s) then seg_name s else []),
     seg_msg = (if seg_hasMsg (seg_typ s) then sent (seg_msg s) else [])\<rparr>"

definition seg_fits :: "segment \<Rightarrow> bool" where
  "seg_fits s \<longleftrightarrow> seg_isValid (seg_typ s) \<and> length (seg_name s) \<le> 255 \<and> fits (seg_msg s)"

text \<open>
  What is read of a segment with the type, the name and the written message \<open>buf\<close> as far as it came:
  the announced length is \<open>n\<close>, and unless the connection ended early, \<open>buf\<close> has this length.
\<close>

lemma readSegment_buffer:
  assumes f: "seg_fits s" and n: "n < 2 ^ 32" "length buf \<le> n" "length buf = n \<or> later = []"
    and buf: "buf = seg_typ s # (if seg_hasName (seg_typ s) then fst (writeString1 (seg_name s)) else []) @ b2"
    and b2: "if seg_hasMsg (seg_typ s) then readMap True [] b2 = Ok (m, []) else b2 = [] \<and> m = []"
  shows "readSegment ahead (be32 n @ buf @ later) =
    Ok (\<lparr>seg_typ = seg_typ s, seg_name = (if seg_hasName (seg_typ s) then seg_name s else []), seg_msg = m\<rparr>, later)"
proof -
  have four: "readFull 4 (be32 n @ buf @ later) = Inr (be32 n, buf @ later)"
    by (simp add: readFull_def be32_def)
  have t: "take n (buf @ later) = buf" "drop n (buf @ later) = later" using n by auto
  have v: "seg_isValid (seg_typ s)" "length (seg_name s) \<le> 255" using f by (simp_all add: seg_fits_def)
  have nm: "readString1 (fst (writeString1 (seg_name s)) @ b2) = Inr (seg_name s, b2)"
    using readString1_written[OF v(2), of b2] v(2) by (simp add: writeString1_def)
  show ?thesis
    unfolding readSegment_def four sum.case prod.case be_val_be32[OF n(1)] t
    using v nm b2 by (simp add: buf)
qed

lemma writeSegment_cases:
  assumes f: "seg_fits s"
  obtains (written) b2 where
      "writeSegment s = Ok (Inr (be32 (length (seg_typ s # (if seg_hasName (seg_typ s) then fst (writeString1 (seg_name s)) else []) @ b2) mod 2 ^ 32) @
         seg_typ s # (if seg_hasName (seg_typ s) then fst (writeString1 (seg_name s)) else []) @ b2))"
      "if seg_hasMsg (seg_typ s) then readMap True [] b2 = Ok (sent (seg_msg s), []) else b2 = []"
      "seg_hasMsg (seg_typ s) \<Longrightarrow> list_all (\<lambda>(k, v). sendable v) (seg_msg s)"
    | (refused) e where "writeSegment s = Ok (Inl e)" "seg_hasMsg (seg_typ s)" "\<not> list_all (\<lambda>(k, v). sendable v) (seg_msg s)"
proof -
  have v: "seg_isValid (seg_typ s)" "writeString1 (seg_name s) = (fst (writeString1 (seg_name s)), None)"
    using f by (simp_all add: seg_fits_def writeString1_def)
  obtain bs err where w: "writeMap (seg_msg s) = Ok (bs, err)" "err = None \<longleftrightarrow> list_all (\<lambda>(k, v). sendable v) (seg_msg s)"
      "\<forall>isRoot acc r. fst ` set acc \<inter> fst ` set (seg_msg s) = {} \<longrightarrow> readMap isRoot acc (bs @ r) = readMap isRoot (acc @ sent (seg_msg s)) r"
    using readMap_written[of "seg_msg s"] f unfolding seg_fits_def by (elim conjE exE impE) blast+
  have r: "readMap True [] bs = Ok (sent (seg_msg s), [])" using w(3)[rule_format, of "[]" True "[]"] by (simp add: readMap_end)
  have nm: "(if seg_hasName (seg_typ s) then writeString1 (seg_name s) else ([], None)) =
      (if seg_hasName (seg_typ s) then fst (writeString1 (seg_name s)) else [], None)" using v(2) by auto
  show thesis
  proof (cases "seg_hasMsg (seg_typ s) \<and> err \<noteq> None")
    case True
    then obtain e where "writeSegment s = Ok (Inl e)"
      using v(1) w(1) by (auto simp: writeSegment_def Let_def nm)
    then show ?thesis using refused True w(2) by blast
  next
    case False
    let ?b2 = "if seg_hasMsg (seg_typ s) then bs else []"
    have "(if seg_hasMsg (seg_typ s) then writeMap (seg_msg s) else Ok ([], None)) = Ok (?b2, None)"
      using False w(1) by auto
    then have "writeSegment s = Ok (Inr (be32 (length (seg_typ s # (if seg_hasName (seg_typ s) then fst (writeString1 (seg_name s)) else []) @ ?b2) mod 2 ^ 32) @
         seg_typ s # (if seg_hasName (seg_typ s) then fst (writeString1 (seg_name s)) else []) @ ?b2))"
      unfolding writeSegment_def Let_def nm using v(1) by simp
    then show ?thesis by (rule written) (use False w(2) r in simp_all)
  qed
qed

lemma segment_read_back:
  assumes f: "seg_fits s" and w: "writeSegment s = Ok (Inr bytes)" and n: "length bytes < 2 ^ 32"
  shows "readSegment ahead (bytes @ later) = Ok (received s, later)"
  using f
proof (cases rule: writeSegment_cases)
  case (written b2)
  define buf where "buf = seg_typ s # (if seg_hasName (seg_typ s) then fst (writeString1 (seg_name s)) else []) @ b2"
  have b: "bytes = be32 (length buf mod 2 ^ 32) @ buf" using written(1)[folded buf_def] w by simp
  then have "length bytes = 4 + length buf" by (simp add: be32_def)
  then have l: "length buf < 2 ^ 32" using n by linarith
  have r: "if seg_hasMsg (seg_typ s) then readMap True [] b2 = Ok (if seg_hasMsg (seg_typ s) then sent (seg_msg s) else [], [])
      else b2 = [] \<and> (if seg_hasMsg (seg_typ s) then sent (seg_msg s) else []) = []"
    using written(2) by (cases "seg_hasMsg (seg_typ s)") simp_all
  show ?thesis
    unfolding b mod_less[OF l] append_assoc received_def
    by (rule readSegment_buffer[OF f l _ _ buf_def r]) simp_all
qed (use w in simp)

text \<open>
  C17. Messages on the VICI socket. A segment within the limits of the format is written without
  an error exactly if every value of its outermost map can be written. Then the other side reads it
  back, in whatever order the maps were visited and whatever follows on the connection, with the name
  and the message that its type has, and with the message as far as it can be written: a value
  that cannot be written silently ends the section it is in.
\<close>

theorem vici_transfer:
  assumes "seg_fits s"
  shows "((\<exists>bytes. writeSegment s = Ok (Inr bytes)) \<longleftrightarrow> (seg_hasMsg (seg_typ s) \<longrightarrow> list_all (\<lambda>(k, v). sendable v) (seg_msg s))) \<and>
    (\<forall>bytes later ahead. writeSegment s = Ok (Inr bytes) \<and> length bytes < 2 ^ 32 \<longrightarrow>
       readSegment ahead (bytes @ later) = Ok (received s, later))"
proof (intro conjI allI impI)
  show "(\<exists>bytes. writeSegment s = Ok (Inr bytes)) \<longleftrightarrow> (seg_hasMsg (seg_typ s) \<longrightarrow> list_all (\<lambda>(k, v). sendable v) (seg_msg s))"
    using assms by (cases rule: writeSegment_cases) auto
qed (use segment_read_back[OF assms] in blast)

text \<open>A request with a section inside a section, and a value that JSON prints as null.\<close>

definition demo_segment :: segment where
  "demo_segment = \<lparr>seg_typ = stCMD_REQUEST, seg_name = ''load-conn'',
     seg_msg = [(''conn'', GMap [(''proposals'', GArr [GStr ''aes''])]), (''c2'', GMap [(''mode'', GStr ''tunnel''), (''local_ts'', GNull), (''reqid'', GStr ''1234'')])]\<rparr>"

theorem vici_transfer_witness:
  "\<exists>bytes. writeSegment demo_segment = Ok (Inr bytes) \<and>
     readSegment (\<lambda>_. 0) (bytes @ ''rest'') =
       Ok (demo_segment\<lparr>seg_msg := [(''conn'', GMap [(''proposals'', GArr [GStr ''aes''])]), (''c2'', GMap [(''mode'', GStr ''tunnel'')])]\<rparr>, ''rest'')"
proof -
  have f: "seg_fits demo_segment" by code_simp
  have s: "list_all (\<lambda>(k, v). sendable v) (seg_msg demo_segment)" by code_simp
  obtain bytes where b: "writeSegment demo_segment = Ok (Inr bytes)" using vici_transfer[OF f] s by blast
  have "case writeSegment demo_segment of Ok (Inr bs) \<Rightarrow> length bs < 1000 | _ \<Rightarrow> True" by code_simp
  then have "length bytes < 2 ^ 32" unfolding b by simp
  with b vici_transfer[OF f] have r: "readSegment (\<lambda>_. 0) (bytes @ ''rest'') = Ok (received demo_segment, ''rest'')" by blast
  have "received demo_segment =
      demo_segment\<lparr>seg_msg := [(''conn'', GMap [(''proposals'', GArr [GStr ''aes''])]), (''c2'', GMap [(''mode'', GStr ''tunnel'')])]\<rparr>" by code_simp
  then show ?thesis using b r by auto
qed

end
