(* ===== verification/Vici_Client.thy ===== *)
theory Vici_Client
  imports Vici_Wire Ipsec_Conn
begin

text \<open>
  A connection to charon (\<^verbatim>\<open>goStrongswanVici/clientConn.go\<close>): requests and registered events over one
  socket that a goroutine reads, and the listings of security associations and connections
  (\<^verbatim>\<open>listSas.go\<close>, \<^verbatim>\<open>listConns.go\<close>) on top of them.
\<close>

section \<open>The connection\<close>

text \<open>
  What charon does is a script: for each of the next writes either the error of the write, or the
  bytes that it sends in answer and whether it then closes the connection (\<open>vc_closed\<close>). Until the
  client closes it, the connection is open on this side (\<open>vc_open\<close>). Events that were delivered to a
  registered handler are recorded in order.
\<close>

record ClientConn =
  vc_in :: string
  vc_closed :: bool
  vc_open :: bool
  vc_script :: "(go_error + string \<times> bool) list"
  vc_sent :: "string list"
  vc_responses :: "segment list"
  vc_handlers :: "string list"
  vc_events :: "(string \<times> gval gomap) list"
  vc_lastError :: "go_error option"
  vc_stopped :: bool

definition NewClientConn :: "(go_error + string \<times> bool) list \<Rightarrow> ClientConn" where
  "NewClientConn script = \<lparr>vc_in = [], vc_closed = False, vc_open = True, vc_script = script, vc_sent = [], vc_responses = [],
     vc_handlers = [], vc_events = [], vc_lastError = None, vc_stopped = False\<rparr>"

definition io_ErrClosedPipe :: go_error where "io_ErrClosedPipe = EnvError ''io: read/write on closed pipe''"
definition net_ErrClosed :: go_error where "net_ErrClosed = EnvError ''use of closed network connection''"

definition Close :: "ClientConn \<Rightarrow> ClientConn" where
  "Close c = c\<lparr>vc_lastError := Some io_ErrClosedPipe, vc_open := False\<rparr>"

definition conn_write :: "string \<Rightarrow> ClientConn \<Rightarrow> go_error option \<times> ClientConn" where
  "conn_write bytes c =
     (if \<not> vc_open c then (Some net_ErrClosed, c)
      else case vc_script c of
        [] \<Rightarrow> (None, c\<lparr>vc_sent := vc_sent c @ [bytes]\<rparr>)
      | Inl e # rs \<Rightarrow> (Some e, c\<lparr>vc_script := rs\<rparr>)
      | Inr (answer, closes) # rs \<Rightarrow>
          (None, c\<lparr>vc_script := rs, vc_sent := vc_sent c @ [bytes], vc_in := vc_in c @ answer, vc_closed := vc_closed c \<or> closes\<rparr>))"

section \<open>The reading goroutine\<close>

definition whole_segment :: "string \<Rightarrow> bool" where
  "whole_segment r \<longleftrightarrow> 4 \<le> length r \<and> 4 + be_val (take 4 r) \<le> length r"

definition is_reply :: "segment \<Rightarrow> bool" where
  "is_reply s \<longleftrightarrow> seg_typ s \<in> {stCMD_RESPONSE, stEVENT_CONFIRM}"

text \<open>
  One round of \<^verbatim>\<open>readThread\<close>. It waits as long as an open connection has not delivered a whole
  segment, and as long as the channel, which holds two replies, is full. A panic ends the process.
\<close>

definition readThread_round :: "(string \<Rightarrow> nat) \<Rightarrow> ClientConn \<Rightarrow> ClientConn outcome" where
  "readThread_round ahead c =
     (if vc_stopped c then Ok c
      else if \<not> vc_open c then Ok (c\<lparr>vc_lastError := Some net_ErrClosed, vc_stopped := True\<rparr>)
      else if \<not> vc_closed c \<and> \<not> whole_segment (vc_in c) then Ok c
      else case readSegment ahead (vc_in c) of
        Panic p \<Rightarrow> Panic p
      | Err e \<Rightarrow> Ok (c\<lparr>vc_lastError := Some e, vc_stopped := True\<rparr>)
      | Ok (s, r) \<Rightarrow>
          if is_reply s then
            Ok (if length (vc_responses c) < 2 then c\<lparr>vc_in := r, vc_responses := vc_responses c @ [s]\<rparr> else c)
          else if seg_typ s = stEVENT then
            Ok (c\<lparr>vc_in := r, vc_events := vc_events c @ (if seg_name s \<in> set (vc_handlers c) then [(seg_name s, seg_msg s)] else [])\<rparr>)
          else
            Ok (c\<lparr>vc_in := r, vc_stopped := True,
              vc_lastError := Some (Errorf ''[Client.readThread] unknow msg type %d'' [itoa (of_char (seg_typ s))])\<rparr>))"

fun readThread :: "(string \<Rightarrow> nat) \<Rightarrow> nat \<Rightarrow> ClientConn \<Rightarrow> ClientConn outcome" where
  "readThread ahead 0 c = Ok c"
| "readThread ahead (Suc n) c =
     (case readThread_round ahead c of Ok c' \<Rightarrow> readThread ahead n c' | Err e \<Rightarrow> Err e | Panic p \<Rightarrow> Panic p)"

text \<open>
  Waiting for a reply: \<open>n\<close> rounds of the goroutine pass until the caller goes on. Without a reply
  the caller gets the zero segment, at once if the channel is closed and else with the timeout.
\<close>

definition zeroSegment :: segment where
  "zeroSegment = \<lparr>seg_typ = stCMD_REQUEST, seg_name = [], seg_msg = []\<rparr>"

definition readResponse :: "(string \<Rightarrow> nat) \<Rightarrow> nat \<Rightarrow> ClientConn \<Rightarrow> (segment \<times> ClientConn) outcome" where
  "readResponse ahead n c =
     (case readThread ahead n c of
        Err e \<Rightarrow> Err e
      | Panic p \<Rightarrow> Panic p
      | Ok c1 \<Rightarrow>
          (case vc_responses c1 of
             s # ss \<Rightarrow> Ok (s, c1\<lparr>vc_responses := ss\<rparr>)
           | [] \<Rightarrow>
               Ok (zeroSegment,
                 if vc_stopped c1 \<or> vc_lastError c1 \<noteq> None then c1
                 else c1\<lparr>vc_lastError := Some (Errorf ''Timeout waiting for message response'' [])\<rparr>)))"

text \<open>Writing a segment and waiting for the reply to it; an error of writing ends it.\<close>

definition exchange :: "(string \<Rightarrow> nat) \<Rightarrow> nat \<Rightarrow> segment \<Rightarrow> ClientConn \<Rightarrow> (segment result \<times> ClientConn) outcome" where
  "exchange ahead n s c =
     (case writeSegment s of
        Err e \<Rightarrow> Err e
      | Panic p \<Rightarrow> Panic p
      | Ok (Inl e) \<Rightarrow> Ok (Inl e, c)
      | Ok (Inr bytes) \<Rightarrow>
          (case conn_write bytes c of
             (Some e, c1) \<Rightarrow> Ok (Inl e, c1)
           | (None, c1) \<Rightarrow>
               (case readResponse ahead n c1 of
                  Err e \<Rightarrow> Err e
                | Panic p \<Rightarrow> Panic p
                | Ok (outMsg, c2) \<Rightarrow> Ok (Inr outMsg, c2))))"

definition Request :: "(string \<Rightarrow> nat) \<Rightarrow> nat \<Rightarrow> string \<Rightarrow> gval gomap \<Rightarrow> ClientConn \<Rightarrow> (gval gomap result \<times> ClientConn) outcome" where
  "Request ahead n apiname request c =
     (case exchange ahead n \<lparr>seg_typ = stCMD_REQUEST, seg_name = apiname, seg_msg = request\<rparr> c of
        Err e \<Rightarrow> Err e
      | Panic p \<Rightarrow> Panic p
      | Ok (Inl e, c1) \<Rightarrow> Ok (Inl e, c1)
      | Ok (Inr outMsg, c1) \<Rightarrow>
          (case vc_lastError c1 of
             Some e \<Rightarrow> Ok (Inl e, c1)
           | None \<Rightarrow>
               if seg_typ outMsg \<noteq> stCMD_RESPONSE
               then Ok (Inl (Errorf ''[%s] response error %d'' [apiname, itoa (of_char (seg_typ outMsg))]), c1)
               else Ok (Inr (seg_msg outMsg), c1)))"

text \<open>
  After an error of the connection \<^verbatim>\<open>RegisterEvent\<close> removes the handler but returns the variable
  \<^verbatim>\<open>err\<close>, which is nil at this point.
\<close>

definition RegisterEvent :: "(string \<Rightarrow> nat) \<Rightarrow> nat \<Rightarrow> string \<Rightarrow> ClientConn \<Rightarrow> (go_error option \<times> ClientConn) outcome" where
  "RegisterEvent ahead n name c =
     (if name \<in> set (vc_handlers c) then Ok (Some (Errorf ''[event %s] register a event twice.'' [name]), c)
      else
        let unregistered = (\<lambda>c. c\<lparr>vc_handlers := removeAll name (vc_handlers c)\<rparr>) in
        case exchange ahead n \<lparr>seg_typ = stEVENT_REGISTER, seg_name = name, seg_msg = []\<rparr> (c\<lparr>vc_handlers := vc_handlers c @ [name]\<rparr>) of
          Err e \<Rightarrow> Err e
        | Panic p \<Rightarrow> Panic p
        | Ok (Inl e, c1) \<Rightarrow> Ok (Some e, unregistered c1)
        | Ok (Inr outMsg, c1) \<Rightarrow>
            if vc_lastError c1 \<noteq> None then Ok (None, unregistered c1)
            else if seg_typ outMsg \<noteq> stEVENT_CONFIRM
            then Ok (Some (Errorf ''[event %s] response error %d'' [name, itoa (of_char (seg_typ outMsg))]), unregistered c1)
            else Ok (None, c1))"

definition UnregisterEvent :: "(string \<Rightarrow> nat) \<Rightarrow> nat \<Rightarrow> string \<Rightarrow> ClientConn \<Rightarrow> (go_error option \<times> ClientConn) outcome" where
  "UnregisterEvent ahead n name c =
     (case exchange ahead n \<lparr>seg_typ = stEVENT_UNREGISTER, seg_name = name, seg_msg = []\<rparr> c of
        Err e \<Rightarrow> Err e
      | Panic p \<Rightarrow> Panic p
      | Ok (Inl e, c1) \<Rightarrow> Ok (Some e, c1)
      | Ok (Inr outMsg, c1) \<Rightarrow>
          if vc_lastError c1 \<noteq> None then Ok (vc_lastError c1, c1)
          else if seg_typ outMsg \<noteq> stEVENT_CONFIRM
          then Ok (Some (Errorf ''[event %s] response error %d'' [name, itoa (of_char (seg_typ outMsg))]), c1)
          else Ok (None, c1\<lparr>vc_handlers := removeAll name (vc_handlers c1)\<rparr>))"

section \<open>Listings\<close>

text \<open>\<^verbatim>\<open>ConvertFromGeneral\<close>: print the untyped value as JSON, with sorted keys, and decode the text.\<close>

fun enc_general :: "gval \<Rightarrow> json" where
  "enc_general GNull = JNull"
| "enc_general (GBool b) = JBool b"
| "enc_general (GNum s) = JNum s"
| "enc_general (GStr s) = enc_string s"
| "enc_general (GArr vs) = JArr (map enc_general vs)"
| "enc_general (GMap m) = JObj (map (\<lambda>(k, j). (quote k, j)) (sort_key fst (map (\<lambda>(k, v). (k, enc_general v)) m)))"

definition convertFromGeneral :: "'a dec \<Rightarrow> 'a \<Rightarrow> gval gomap \<Rightarrow> 'a \<times> go_error option" where
  "convertFromGeneral d zero m = unmarshal d zero (render (enc_general (GMap m)))"

text \<open>Fields that the program does not read are decoded, since their type counts, and forgotten.\<close>

definition unread :: "string \<Rightarrow> 'r field" where
  "unread name = field name dec_string (\<lambda>_. []) (\<lambda>_ r. r)"

definition unread_list :: "string \<Rightarrow> 'r field" where
  "unread_list name = field name dec_strings (\<lambda>_. []) (\<lambda>_ r. r)"

definition childsa_fields :: "Child_sas field list" where
  "childsa_fields =
     [field ''reqid'' dec_string cs_Reqid cs_Reqid_update, field ''state'' dec_string cs_State cs_State_update] @
     map unread [''mode'', ''protocol'', ''encap'', ''spi-in'', ''spi-out'', ''cpi-in'', ''cpi-out'', ''encr-alg'', ''encr-keysize'',
       ''integ-alg'', ''integ-keysize'', ''prf-alg'', ''dh-group'', ''esn''] @
     [field ''bytes-in'' dec_string cs_Bytes_in cs_Bytes_in_update] @ map unread [''packets-in'', ''use-in''] @
     [field ''bytes-out'' dec_string cs_Bytes_out cs_Bytes_out_update] @
     map unread [''packets-out'', ''use-out'', ''rekey-time'', ''life-time'', ''install-time''] @
     map unread_list [''local-ts'', ''remote-ts'']"

definition zeroChildSa :: Child_sas where
  "zeroChildSa = \<lparr>cs_Reqid = [], cs_State = [], cs_Bytes_in = [], cs_Bytes_out = []\<rparr>"

definition ikesa_fields :: "IkeSa field list" where
  "ikesa_fields =
     [field ''uniqueid'' dec_string sa_Uniqueid sa_Uniqueid_update, unread ''version'',
      field ''state'' dec_string sa_State sa_State_update,
      field ''local-host'' dec_string sa_Local_host sa_Local_host_update, unread ''local-port'',
      field ''local-id'' dec_string sa_Local_id sa_Local_id_update,
      field ''remote-host'' dec_string sa_Remote_host sa_Remote_host_update, unread ''remote-port'',
      field ''remote-id'' dec_string sa_Remote_id sa_Remote_id_update] @
     map unread [''remote-xauth-id'', ''remote-eap-id'', ''initiator'', ''initiator-spi'', ''responder-spi'', ''encr-alg'', ''encr-keysize'',
       ''integ-alg'', ''integ-keysize'', ''prf-alg'', ''dh-group''] @
     [field ''established'' dec_string sa_Established sa_Established_update, unread ''rekey-time'', unread ''reauth-time'',
      unread_list ''remote-vips'',
      field ''child-sas'' (dec_map (dec_struct False childsa_fields) zeroChildSa) sa_Child_sas sa_Child_sas_update,
      field ''tasks-active'' dec_strings sa_Tasks_active sa_Tasks_active_update,
      field ''tasks-queued'' dec_strings sa_Tasks_queued sa_Tasks_queued_update]"

definition zeroSa :: IkeSa where
  "zeroSa = \<lparr>sa_Uniqueid = [], sa_State = [], sa_Local_host = [], sa_Local_id = [], sa_Remote_host = [], sa_Remote_id = [],
     sa_Established = [], sa_Child_sas = [], sa_Tasks_active = [], sa_Tasks_queued = []\<rparr>"

text \<open>
  The handler of an event converts its message; a message that cannot be converted is left out. The
  results are those of the events since the registration in state \<open>c0\<close>.
\<close>

definition converted :: "'a gomap dec \<Rightarrow> gval gomap \<Rightarrow> 'a gomap option" where
  "converted d m = (case convertFromGeneral d [] m of (x, None) \<Rightarrow> Some x | (_, Some _) \<Rightarrow> None)"

definition event_messages :: "string \<Rightarrow> ClientConn \<Rightarrow> ClientConn \<Rightarrow> gval gomap list" where
  "event_messages name c0 c = map snd (filter (\<lambda>(n, _). n = name) (drop (length (vc_events c0)) (vc_events c)))"

abbreviation dec_sas :: "IkeSa gomap dec" where "dec_sas \<equiv> dec_map (dec_struct False ikesa_fields) zeroSa"

text \<open>
  \<^verbatim>\<open>ListSas\<close>: \<open>n1\<close>, \<open>n2\<close> and \<open>n3\<close> are the rounds of the goroutine during its three waits. Whether an
  event could not be converted is checked before the request only.
\<close>

definition ListSas ::
  "(string \<Rightarrow> nat) \<Rightarrow> nat \<Rightarrow> nat \<Rightarrow> nat \<Rightarrow> string \<Rightarrow> string \<Rightarrow> ClientConn \<Rightarrow> ((sa_list \<times> go_error option) \<times> ClientConn) outcome" where
  "ListSas ahead n1 n2 n3 ike ike_id c =
     (let messages = event_messages ''list-sa'' c; sas = (\<lambda>c. List.map_filter (converted dec_sas) (messages c));
          inMap = (if ike \<noteq> [] then [(''ike'', GStr ike)] else []) @ (if ike_id \<noteq> [] then [(''ike_id'', GStr ike_id)] else [])
      in case RegisterEvent ahead n1 ''list-sa'' c of
        Err e \<Rightarrow> Err e
      | Panic p \<Rightarrow> Panic p
      | Ok (Some e, c1) \<Rightarrow> Ok ((sas c1, Some e), c1)
      | Ok (None, c1) \<Rightarrow>
          if list_ex (\<lambda>m. converted dec_sas m = None) (messages c1) then Ok ((sas c1, None), c1)
          else (case Request ahead n2 ''list-sas'' inMap c1 of
            Err e \<Rightarrow> Err e
          | Panic p \<Rightarrow> Panic p
          | Ok (Inl e, c2) \<Rightarrow> Ok ((sas c2, Some e), c2)
          | Ok (Inr _, c2) \<Rightarrow>
              (case UnregisterEvent ahead n3 ''list-sa'' c2 of
                 Err e \<Rightarrow> Err e
               | Panic p \<Rightarrow> Panic p
               | Ok (err, c3) \<Rightarrow> Ok ((sas c3, err), c3))))"

text \<open>\<^verbatim>\<open>ListConns\<close>: the library's structure has all fields of a connection but \<^verbatim>\<open>Unique\<close>.\<close>

abbreviation dec_conns :: "IKEConnectionConfig gomap dec" where
  "dec_conns \<equiv> dec_map (dec_struct False (filter (\<lambda>f. fst f \<noteq> ''unique'') ike_fields)) zeroIke"

definition ListConns ::
  "(string \<Rightarrow> nat) \<Rightarrow> nat \<Rightarrow> nat \<Rightarrow> nat \<Rightarrow> string \<Rightarrow> ClientConn \<Rightarrow> (IKEConnectionConfig gomap list result \<times> ClientConn) outcome" where
  "ListConns ahead n1 n2 n3 ike c =
     (let messages = event_messages ''list-conn'' c; reqMap = (if ike \<noteq> [] then [(''ike'', GStr ike)] else [])
      in case RegisterEvent ahead n1 ''list-conn'' c of
        Err e \<Rightarrow> Err e
      | Panic p \<Rightarrow> Panic p
      | Ok (Some e, c1) \<Rightarrow> Ok (Inl (Wrapf ''error registering list-conn event: %v'' [] e), c1)
      | Ok (None, c1) \<Rightarrow>
          (case List.map_filter (\<lambda>m. snd (convertFromGeneral dec_conns [] m)) (messages c1) of
             e # es \<Rightarrow> Ok (Inl (Wrapf ''list-conn event error: %v'' [] (last (e # es))), c1)
           | [] \<Rightarrow>
              (case Request ahead n2 ''list-conns'' reqMap c1 of
                 Err e \<Rightarrow> Err e
               | Panic p \<Rightarrow> Panic p
               | Ok (Inl e, c2) \<Rightarrow> Ok (Inl (Wrapf ''error requesting list-conns: %v'' [] e), c2)
               | Ok (Inr _, c2) \<Rightarrow>
                   (case UnregisterEvent ahead n3 ''list-conn'' c2 of
                      Err e \<Rightarrow> Err e
                    | Panic p \<Rightarrow> Panic p
                    | Ok (Some e, c3) \<Rightarrow> Ok (Inl (Wrapf ''error unregistering list-conns event: %v'' [] e), c3)
                    | Ok (None, c3) \<Rightarrow> Ok (Inr (List.map_filter (converted dec_conns) (messages c3)), c3)))))"

section \<open>A charon that follows the protocol\<close>

definition wire :: "segment \<Rightarrow> string" where
  "wire s = (case writeSegment s of Ok (Inr bytes) \<Rightarrow> bytes | _ \<Rightarrow> [])"

definition on_wire :: "segment \<Rightarrow> bool" where
  "on_wire s \<longleftrightarrow> seg_fits s \<and> (seg_hasMsg (seg_typ s) \<longrightarrow> list_all (\<lambda>(k, v). sendable v) (seg_msg s)) \<and> length (wire s) < 2 ^ 32"

abbreviation event_seg :: "string \<Rightarrow> gval gomap \<Rightarrow> segment" where
  "event_seg name m \<equiv> \<lparr>seg_typ = stEVENT, seg_name = name, seg_msg = m\<rparr>"

abbreviation response_seg :: "gval gomap \<Rightarrow> segment" where
  "response_seg m \<equiv> \<lparr>seg_typ = stCMD_RESPONSE, seg_name = [], seg_msg = m\<rparr>"

abbreviation request_seg :: "string \<Rightarrow> gval gomap \<Rightarrow> segment" where
  "request_seg name m \<equiv> \<lparr>seg_typ = stCMD_REQUEST, seg_name = name, seg_msg = m\<rparr>"

abbreviation confirm_seg :: segment where
  "confirm_seg \<equiv> \<lparr>seg_typ = stEVENT_CONFIRM, seg_name = [], seg_msg = []\<rparr>"

lemma on_wire_read:
  assumes "on_wire s"
  shows "writeSegment s = Ok (Inr (wire s))" "readSegment ahead (wire s @ r) = Ok (received s, r)" "whole_segment (wire s @ r)"
proof -
  have f: "seg_fits s" using assms by (simp add: on_wire_def)
  then show w: "writeSegment s = Ok (Inr (wire s))"
  proof (cases rule: writeSegment_cases)
    case (refused e)
    then show ?thesis using assms by (simp add: on_wire_def)
  qed (simp add: wire_def)
  show "readSegment ahead (wire s @ r) = Ok (received s, r)"
    by (rule segment_read_back[OF f w]) (use assms in \<open>simp add: on_wire_def\<close>)
  show "whole_segment (wire s @ r)"
    using f
  proof (cases rule: writeSegment_cases)
    case (written b2)
    define buf where "buf = seg_typ s # (if seg_hasName (seg_typ s) then fst (writeString1 (seg_name s)) else []) @ b2"
    have b: "wire s = be32 (length buf mod 2 ^ 32) @ buf" using written(1)[folded buf_def] w by simp
    have "length buf < 2 ^ 32" using assms b by (simp add: on_wire_def)
    then have "wire s = be32 (length buf) @ buf" "be_val (be32 (length buf)) = length buf" using b be_val_be32 by simp_all
    then show ?thesis by (simp add: whole_segment_def be32_def)
  qed (use w in simp)
qed

text \<open>A connection that waits for nothing.\<close>

definition idle :: "ClientConn \<Rightarrow> bool" where
  "idle c \<longleftrightarrow> vc_in c = [] \<and> vc_open c \<and> \<not> vc_closed c \<and> \<not> vc_stopped c \<and> vc_responses c = [] \<and> vc_lastError c = None"

lemma received_typ [simp]: "seg_typ (received s) = seg_typ s"
  by (simp add: received_def)

lemma round_reply:
  assumes "on_wire s" "is_reply s" "vc_in c = wire s @ r" "vc_open c" "\<not> vc_stopped c" "vc_responses c = []"
  shows "readThread_round ahead c = Ok (c\<lparr>vc_in := r, vc_responses := [received s]\<rparr>)"
  using assms on_wire_read(2,3)[OF assms(1), where r = r] by (simp add: readThread_round_def is_reply_def)

lemma round_event:
  assumes "on_wire (event_seg name m)" "name \<in> set (vc_handlers c)" "vc_in c = wire (event_seg name m) @ r" "vc_open c" "\<not> vc_stopped c"
  shows "readThread_round ahead c = Ok (c\<lparr>vc_in := r, vc_events := vc_events c @ [(name, sent m)]\<rparr>)"
proof -
  have "received (event_seg name m) = event_seg name (sent m)"
    by (simp add: received_def seg_hasName_def seg_hasMsg_def)
  then show ?thesis
    using assms(2-) on_wire_read(2,3)[OF assms(1), where r = r] by (simp add: readThread_round_def is_reply_def)
qed

lemma thread_waits: "vc_in c = [] \<Longrightarrow> vc_open c \<Longrightarrow> \<not> vc_closed c \<Longrightarrow> readThread ahead n c = Ok c"
  by (induction n) (simp_all add: readThread_round_def whole_segment_def)

text \<open>The goroutine delivers the events in order and then the reply, in any larger number of rounds too.\<close>

lemma thread_answer:
  assumes "list_all (\<lambda>m. on_wire (event_seg name m)) ms" "on_wire a" "is_reply a" "length ms < n"
    and "ms \<noteq> [] \<Longrightarrow> name \<in> set (vc_handlers c)" "vc_in c = concat (map (\<lambda>m. wire (event_seg name m)) ms) @ wire a"
    and "vc_open c" "\<not> vc_closed c" "\<not> vc_stopped c" "vc_responses c = []"
  shows "readThread ahead n c = Ok (c\<lparr>vc_in := [], vc_events := vc_events c @ map (\<lambda>m. (name, sent m)) ms, vc_responses := [received a]\<rparr>)"
  using assms
proof (induction ms arbitrary: c n)
  case Nil
  then obtain k where "n = Suc k" by (cases n) auto
  then show ?case using Nil round_reply[OF Nil.prems(2,3), of c "[]" ahead] thread_waits by simp
next
  case (Cons m ms)
  then obtain k where n: "n = Suc k" by (cases n) auto
  let ?c = "c\<lparr>vc_in := concat (map (\<lambda>m. wire (event_seg name m)) ms) @ wire a, vc_events := vc_events c @ [(name, sent m)]\<rparr>"
  have r: "readThread_round ahead c = Ok ?c"
    by (rule round_event) (use Cons.prems in simp_all)
  have "readThread ahead k ?c = Ok (?c\<lparr>vc_in := [], vc_events := vc_events ?c @ map (\<lambda>m. (name, sent m)) ms, vc_responses := [received a]\<rparr>)"
    by (rule Cons.IH) (use Cons.prems n in simp_all)
  then show ?case by (simp add: n r)
qed

lemma exchange_answered:
  assumes "idle c" "on_wire q" "list_all (\<lambda>m. on_wire (event_seg name m)) ms" "on_wire a" "is_reply a" "length ms < n"
    and "ms \<noteq> [] \<Longrightarrow> name \<in> set (vc_handlers c)"
    and "vc_script c = Inr (concat (map (\<lambda>m. wire (event_seg name m)) ms) @ wire a, False) # rs"
  shows "exchange ahead n q c = Ok (Inr (received a),
    c\<lparr>vc_script := rs, vc_sent := vc_sent c @ [wire q], vc_events := vc_events c @ map (\<lambda>m. (name, sent m)) ms\<rparr>)"
proof -
  let ?c1 = "c\<lparr>vc_script := rs, vc_sent := vc_sent c @ [wire q], vc_in := concat (map (\<lambda>m. wire (event_seg name m)) ms) @ wire a\<rparr>"
  have w: "conn_write (wire q) c = (None, ?c1)"
    using assms(1,8) by (simp add: conn_write_def idle_def)
  have r: "readThread ahead n ?c1 = Ok (?c1\<lparr>vc_in := [], vc_events := vc_events c @ map (\<lambda>m. (name, sent m)) ms, vc_responses := [received a]\<rparr>)"
    using thread_answer[OF assms(3-6), of ?c1 ahead] assms(1,7) by (simp add: idle_def)
  have "readResponse ahead n ?c1 = Ok (received a,
      c\<lparr>vc_script := rs, vc_sent := vc_sent c @ [wire q], vc_events := vc_events c @ map (\<lambda>m. (name, sent m)) ms\<rparr>)"
    unfolding readResponse_def r using assms(1) by (cases c) (simp add: idle_def)
  then show ?thesis by (simp add: exchange_def on_wire_read(1)[OF assms(2)] w)
qed

lemma requested:
  assumes "idle c" "on_wire (request_seg api req)" "list_all (\<lambda>m. on_wire (event_seg name m)) ms" "on_wire (response_seg resp)" "length ms < n"
    and "ms \<noteq> [] \<Longrightarrow> name \<in> set (vc_handlers c)"
    and "vc_script c = Inr (concat (map (\<lambda>m. wire (event_seg name m)) ms) @ wire (response_seg resp), False) # rs"
  shows "Request ahead n api req c = Ok (Inr (sent resp),
    c\<lparr>vc_script := rs, vc_sent := vc_sent c @ [wire (request_seg api req)], vc_events := vc_events c @ map (\<lambda>m. (name, sent m)) ms\<rparr>)"
  using exchange_answered[OF assms(1-4) _ assms(5-7)] assms(1)
  by (simp add: Request_def is_reply_def idle_def received_def seg_hasMsg_def)

text \<open>
  A request to charon over the socket. On a connection that waits for nothing, a request within
  the limits of the format is answered with the message that charon sends, however far the reading
  goroutine gets in the meantime, and what charon reads is the name of the command and the
  request as far as it can be written.
\<close>

theorem vici_request:
  assumes "idle c" "on_wire (request_seg api req)" "on_wire (response_seg resp)" "0 < n"
    and "vc_script c = Inr (wire (response_seg resp), False) # rs"
  shows "\<exists>c' bytes. Request ahead n api req c = Ok (Inr (sent resp), c') \<and> idle c' \<and> vc_sent c' = vc_sent c @ [bytes] \<and>
    (\<forall>ahead' later. readSegment ahead' (bytes @ later) = Ok (request_seg api (sent req), later))"
proof -
  have "Request ahead n api req c = Ok (Inr (sent resp), c\<lparr>vc_script := rs, vc_sent := vc_sent c @ [wire (request_seg api req)]\<rparr>)"
    using requested[OF assms(1,2) _ assms(3), where ms = "[]" and n = n and rs = rs and ahead = ahead] assms(4,5) by simp
  moreover have "received (request_seg api req) = request_seg api (sent req)"
    by (simp add: received_def seg_hasName_def seg_hasMsg_def)
  ultimately show ?thesis
    using on_wire_read(2)[OF assms(2)] assms(1) by (simp add: idle_def)
qed

text \<open>On a connection that was closed every request fails and sends nothing.\<close>

lemma closed_request: "on_wire (request_seg api req) \<Longrightarrow> Request ahead n api req (Close c) = Ok (Inl net_ErrClosed, Close c)"
  using on_wire_read(1)[of "request_seg api req"] by (simp add: Request_def exchange_def conn_write_def Close_def)

lemma registered:
  assumes "idle c" "name \<notin> set (vc_handlers c)" "length name \<le> 255" "0 < n" "vc_script c = Inr (wire confirm_seg, False) # rs"
  shows "\<exists>bytes. RegisterEvent ahead n name c =
    Ok (None, c\<lparr>vc_script := rs, vc_sent := vc_sent c @ [bytes], vc_handlers := vc_handlers c @ [name]\<rparr>)"
    (is "\<exists>bytes. ?R bytes")
proof -
  let ?q = "\<lparr>seg_typ = stEVENT_REGISTER, seg_name = name, seg_msg = []\<rparr>"
  have q: "on_wire ?q"
    using assms(3) by (simp add: on_wire_def seg_fits_def seg_isValid_def seg_hasMsg_def seg_hasName_def wire_def writeSegment_def writeString1_def be32_def)
  have "on_wire confirm_seg" by code_simp
  from exchange_answered[OF _ q _ this, where c = "c\<lparr>vc_handlers := vc_handlers c @ [name]\<rparr>" and ms = "[]" and n = n and rs = rs and ahead = ahead] assms
  have "exchange ahead n ?q (c\<lparr>vc_handlers := vc_handlers c @ [name]\<rparr>) =
      Ok (Inr (received confirm_seg), c\<lparr>vc_script := rs, vc_sent := vc_sent c @ [wire ?q], vc_handlers := vc_handlers c @ [name]\<rparr>)"
    by (simp add: idle_def is_reply_def)
  then have "?R (wire ?q)" using assms by (simp add: RegisterEvent_def idle_def Let_def)
  then show ?thesis by blast
qed

lemma unregistered:
  assumes "idle c" "length name \<le> 255" "0 < n" "vc_script c = Inr (wire confirm_seg, False) # rs"
  shows "\<exists>bytes. UnregisterEvent ahead n name c =
    Ok (None, c\<lparr>vc_script := rs, vc_sent := vc_sent c @ [bytes], vc_handlers := removeAll name (vc_handlers c)\<rparr>)"
    (is "\<exists>bytes. ?R bytes")
proof -
  let ?q = "\<lparr>seg_typ = stEVENT_UNREGISTER, seg_name = name, seg_msg = []\<rparr>"
  have q: "on_wire ?q"
    using assms(2) by (simp add: on_wire_def seg_fits_def seg_isValid_def seg_hasMsg_def seg_hasName_def wire_def writeSegment_def writeString1_def be32_def)
  have "on_wire confirm_seg" by code_simp
  from exchange_answered[OF assms(1) q _ this, where ms = "[]" and n = n and rs = rs and ahead = ahead] assms
  have "exchange ahead n ?q c = Ok (Inr (received confirm_seg), c\<lparr>vc_script := rs, vc_sent := vc_sent c @ [wire ?q]\<rparr>)"
    by (simp add: is_reply_def)
  then have "?R (wire ?q)" using assms by (simp add: UnregisterEvent_def idle_def)
  then show ?thesis by blast
qed

text \<open>
  C18. Listing the security associations. When charon confirms the registration, sends one event per
  association, the response, and the confirmation of the end, then \<^verbatim>\<open>ListSas\<close> returns the messages of
  these events in their order, converted to structures, without an error, and the connection is ready
  for the next request. A message that cannot be converted is left out without an error.
\<close>

theorem vici_list_sas:
  assumes "list_all (\<lambda>m. on_wire (event_seg ''list-sa'' m)) ms" "on_wire (response_seg resp)"
    and "0 < n1" "length ms < n2" "0 < n3"
    and "idle c" "''list-sa'' \<notin> set (vc_handlers c)"
    and "vc_script c = [Inr (wire confirm_seg, False),
      Inr (concat (map (\<lambda>m. wire (event_seg ''list-sa'' m)) ms) @ wire (response_seg resp), False), Inr (wire confirm_seg, False)] @ rs"
  shows "\<exists>c'. ListSas ahead n1 n2 n3 [] [] c = Ok ((List.map_filter (converted dec_sas) (map sent ms), None), c') \<and>
    idle c' \<and> vc_handlers c' = vc_handlers c \<and> vc_script c' = rs"
proof -
  let ?r = "Inr (concat (map (\<lambda>m. wire (event_seg ''list-sa'' m)) ms) @ wire (response_seg resp), False) # Inr (wire confirm_seg, False) # rs"
  obtain b1 where r1: "RegisterEvent ahead n1 ''list-sa'' c =
      Ok (None, c\<lparr>vc_script := ?r, vc_sent := vc_sent c @ [b1], vc_handlers := vc_handlers c @ [''list-sa'']\<rparr>)"
    using registered[OF assms(6,7) _ assms(3), of ?r ahead] assms(8) by auto
  define c1 where "c1 = c\<lparr>vc_script := ?r, vc_sent := vc_sent c @ [b1], vc_handlers := vc_handlers c @ [''list-sa'']\<rparr>"
  define c2 where "c2 = c1\<lparr>vc_script := Inr (wire confirm_seg, False) # rs, vc_sent := vc_sent c1 @ [wire (request_seg ''list-sas'' [])],
      vc_events := vc_events c1 @ map (\<lambda>m. (''list-sa'', sent m)) ms\<rparr>"
  have q: "on_wire (request_seg ''list-sas'' [])" by code_simp
  have i: "idle c1" "idle c2" using assms(6) by (simp_all add: idle_def c1_def c2_def)
  have r2: "Request ahead n2 ''list-sas'' [] c1 = Ok (Inr (sent resp), c2)"
    unfolding c2_def by (rule requested[OF i(1) q assms(1,2,4)]) (simp_all add: c1_def)
  obtain b3 where r3: "UnregisterEvent ahead n3 ''list-sa'' c2 =
      Ok (None, c2\<lparr>vc_script := rs, vc_sent := vc_sent c2 @ [b3], vc_handlers := removeAll ''list-sa'' (vc_handlers c2)\<rparr>)"
    using unregistered[OF i(2) _ assms(5), of "''list-sa''" rs ahead] by (auto simp: c2_def)
  let ?c3 = "c2\<lparr>vc_script := rs, vc_sent := vc_sent c2 @ [b3], vc_handlers := removeAll ''list-sa'' (vc_handlers c2)\<rparr>"
  have e: "event_messages ''list-sa'' c c1 = []" "event_messages ''list-sa'' c ?c3 = map sent ms"
    by (simp_all add: event_messages_def filter_map comp_def c1_def c2_def)
  have "ListSas ahead n1 n2 n3 [] [] c = Ok ((List.map_filter (converted dec_sas) (map sent ms), None), ?c3)"
    unfolding ListSas_def Let_def r1[folded c1_def] using r2 r3 e by simp
  moreover have "idle ?c3" "vc_handlers ?c3 = vc_handlers c" "vc_script ?c3 = rs"
    using i(2) assms(7) by (simp_all add: idle_def c1_def c2_def removeAll_id)
  ultimately show ?thesis by blast
qed

section \<open>Loading a connection over the socket\<close>

text \<open>
  The backend's environment with requests over a connection; \<open>visit\<close> lists the maps of a request
  in the order in which the writer ranges over them. A panic would end the process; it is
  an error here only to make the function total.
\<close>

definition socket_env ::
  "(gval gomap \<Rightarrow> gval gomap) \<Rightarrow> (string \<Rightarrow> nat) \<Rightarrow> nat \<Rightarrow> ClientConn ipsec_env \<Rightarrow> ClientConn ipsec_env" where
  "socket_env visit ahead n env = env\<lparr>env_Request := (\<lambda>name req c.
     case Request ahead n name (visit req) c of
       Ok (r, c') \<Rightarrow> (r, c') | Err e \<Rightarrow> (Inl e, c) | Panic p \<Rightarrow> (Inl (EnvError p), c))\<rparr>"

text \<open>The same value, with the entries of its maps in another order.\<close>

inductive same_val :: "gval \<Rightarrow> gval \<Rightarrow> bool" where
  same_refl: "same_val v v"
| same_map: "list_all2 (rel_prod (=) same_val) m m1 \<Longrightarrow> mset m1 = mset m' \<Longrightarrow> same_val (GMap m) (GMap m')"

text \<open>Values without null, booleans and numbers in any section.\<close>

fun plain :: "gval \<Rightarrow> bool" where
  "plain (GMap m) \<longleftrightarrow> list_all (\<lambda>(k, v). plain v) m"
| "plain (GStr s) \<longleftrightarrow> True"
| "plain (GArr vs) \<longleftrightarrow> True"
| "plain _ \<longleftrightarrow> False"

fun json_plain :: "json \<Rightarrow> bool" where
  "json_plain (JObj ms) \<longleftrightarrow> list_all (\<lambda>(k, j). json_plain j) ms"
| "json_plain (JStr s) \<longleftrightarrow> True"
| "json_plain (JArr js) \<longleftrightarrow> True"
| "json_plain _ \<longleftrightarrow> False"

lemma sent_plain: "plain (GMap m) \<Longrightarrow> sent m = m"
  by (induction m rule: sent.induct) simp_all

lemma plain_mput: "list_all (\<lambda>(k, v). plain v) m \<Longrightarrow> plain v \<Longrightarrow> list_all (\<lambda>(k, v). plain v) (mput k v m)"
  by (induction m) (auto simp: mput_def)

lemma plain_general: "json_plain j \<Longrightarrow> plain (general j)"
proof (induction j rule: json_plain.induct)
  case (1 ms)
  have "list_all (\<lambda>(k, v). plain v) (foldl (\<lambda>m (k, v). mput (unquote k) v m) acc (map (\<lambda>(k, v). (k, general v)) xs))"
    if "set xs \<subseteq> set ms" "list_all (\<lambda>(k, v). plain v) acc" for xs acc
    using that
  proof (induction xs arbitrary: acc)
    case (Cons x xs)
    obtain k v where x: "x = (k, v)" by (cases x)
    have "plain (general v)" using "1.IH"[of "(k, v)" k v] "1.prems" Cons.prems(1) x by (auto simp: list_all_iff)
    then show ?case using Cons x plain_mput by simp
  qed simp
  then show ?case by simp
qed simp_all

definition complete_conf :: "IKEConnectionConfig \<Rightarrow> bool" where
  "complete_conf conf \<longleftrightarrow> k_LocalAddrs conf \<noteq> None \<and>
     list_all (\<lambda>(_, c). ch_Local_ts c \<noteq> None \<and> ch_Remote_ts c \<noteq> None) (k_Children conf)"

lemma json_plain_slice [simp]: "json_plain (enc_slice xs) \<longleftrightarrow> xs \<noteq> None" "json_plain (enc_list ys)"
  by (auto simp: enc_slice_def enc_list_def split: option.splits)

lemma json_plain_map [simp]: "json_plain (enc_map f m) \<longleftrightarrow> list_all (\<lambda>(k, v). json_plain (f v)) m"
  by (auto simp: enc_map_def list_all_iff)

lemma json_plain_parts [simp]:
  "json_plain (enc_auth a)" "json_plain (enc_child c) \<longleftrightarrow> ch_Local_ts c \<noteq> None \<and> ch_Remote_ts c \<noteq> None"
  by (simp_all add: enc_auth_def enc_child_def)

lemma json_plain_ike: "json_plain (enc_ike conf) \<longleftrightarrow> complete_conf conf"
  by (simp add: enc_ike_def complete_conf_def)

lemma load_request_plain: "complete_conf conf \<Longrightarrow> sent (load_request name conf) = load_request name conf"
  by (rule sent_plain) (simp add: load_request_def plain_general json_plain_ike)

lemma same_plain: "same_val v v' \<Longrightarrow> plain v \<Longrightarrow> plain v'"
proof (induction rule: same_val.induct)
  case (same_map m m1 m')
  have "list_all (\<lambda>(k, v). plain v) m1"
    using same_map.IH same_map.prems by (induction m m1 rule: list_all2_induct) auto
  then show ?case using mset_eq_setD[OF same_map.hyps] by (simp add: list_all_iff)
qed

text \<open>The built-in templates give complete connections.\<close>

lemma default_templates:
  "k_LocalAddrs (fst (unmarshal dec_ike zeroIke defaultIkeConf)) \<noteq> None"
  "ch_Local_ts (fst (unmarshal dec_child zeroChild defaultChildSaConf)) \<noteq> None"
  "ch_Remote_ts (fst (unmarshal dec_child zeroChild defaultChildSaConf)) \<noteq> None"
  by code_simp+

lemma default_complete:
  assumes "tm_ikeConf t = defaultIkeConf" "tm_childSaConf t = defaultChildSaConf"
  shows "complete_conf (Connection (host_identity t blacklist localAgentIP localTunnelIP remoteIP hostTunnelSource))"
  using default_templates assms by (simp add: complete_conf_def host_identity_def NewIkeConf_def NewChildSaConf_def Let_def)

lemma response_yes: "on_wire (response_seg [(''success'', GStr ''yes'')])" "sent [(''success'', GStr ''yes'')] = [(''success'', GStr ''yes'')]"
  by code_simp+

text \<open>
  C15. Loading a connection over the socket. If the connection has its local addresses and the traffic
  selectors of its children, and the request is within the limits of the format, then in whatever
  order the writer visits its maps charon reads the whole request, and when charon answers with
  success the connection counts as loaded.
\<close>

theorem connection_on_wire:
  assumes "idle c" "complete_conf conf" "same_val (GMap (load_request name conf)) (GMap (visit (load_request name conf)))"
    and "on_wire (request_seg ''load-conn'' (visit (load_request name conf)))" "0 < n"
    and "vc_script c = Inr (wire (response_seg [(''success'', GStr ''yes'')]), False) # rs"
  shows "\<exists>c' bytes. loadIKEConnection (socket_env visit ahead n env) name conf c = (None, c') \<and> vc_sent c' = vc_sent c @ [bytes] \<and>
    (\<forall>ahead' later. readSegment ahead' (bytes @ later) = Ok (request_seg ''load-conn'' (visit (load_request name conf)), later))"
proof -
  let ?m = "visit (load_request name conf)"
  have p: "sent ?m = ?m"
    by (rule sent_plain, rule same_plain[OF assms(3)])
      (simp add: load_request_def plain_general json_plain_ike assms(2))
  have r: "Request ahead n ''load-conn'' ?m c = Ok (Inr [(''success'', GStr ''yes'')], c\<lparr>vc_script := rs, vc_sent := vc_sent c @ [wire (request_seg ''load-conn'' ?m)]\<rparr>)"
    using requested[OF assms(1,4) _ response_yes(1), where ms = "[]" and n = n and rs = rs and ahead = ahead] assms(5,6)
    by (simp add: response_yes(2))
  have "received (request_seg ''load-conn'' ?m) = request_seg ''load-conn'' ?m"
    by (simp add: received_def seg_hasName_def seg_hasMsg_def p)
  then show ?thesis
    using on_wire_read(2)[OF assms(4)]
    by (simp add: loadIKEConnection_def convertToGeneral_ike socket_env_def r succeeded_def)
qed

text \<open>
  C38. A field of a child section that has no value. A slice that the template does not set is null in
  the request. In whatever order the writer visits the section, charon reads only the fields visited
  before the null, and no error is reported: the request counts as sent, and the rest of the section
  (mode, proposals, request id) is missing.
\<close>

theorem null_truncates_child:
  assumes "idle c" "req = [(name, GMap (c1 @ (''children'', GMap [(child, GMap (m1 @ (f, GNull) # m2))]) # c2))]"
    and "list_all (\<lambda>(k, v). sendable v) c1" "list_all (\<lambda>(k, v). sendable v) m1"
    and "on_wire (request_seg ''load-conn'' req)" "on_wire (response_seg resp)" "0 < n"
    and "vc_script c = Inr (wire (response_seg resp), False) # rs"
  shows "\<exists>c' bytes. Request ahead n ''load-conn'' req c = Ok (Inr (sent resp), c') \<and> vc_sent c' = vc_sent c @ [bytes] \<and>
    (\<forall>ahead' later. readSegment ahead' (bytes @ later) =
       Ok (request_seg ''load-conn'' [(name, GMap (sent c1 @ (''children'', GMap [(child, GMap (sent m1))]) # sent c2))], later))"
proof -
  have "\<not> sendable GNull" by (simp add: sendable_def)
  then have s: "sent req = [(name, GMap (sent c1 @ (''children'', GMap [(child, GMap (sent m1))]) # sent c2))]"
    using assms(3,4) by (simp add: assms(2) sent_all sent_stops)
  have "Request ahead n ''load-conn'' req c = Ok (Inr (sent resp), c\<lparr>vc_script := rs, vc_sent := vc_sent c @ [wire (request_seg ''load-conn'' req)]\<rparr>)"
    using requested[OF assms(1,5) _ assms(6), where ms = "[]" and n = n and rs = rs and ahead = ahead] assms(7,8) by simp
  moreover have "received (request_seg ''load-conn'' req) = request_seg ''load-conn'' (sent req)"
    by (simp add: received_def seg_hasName_def seg_hasMsg_def)
  ultimately show ?thesis using on_wire_read(2)[OF assms(5)] by (simp add: s)
qed

section \<open>Examples\<close>

abbreviation answering :: "segment \<Rightarrow> ClientConn" where
  "answering s \<equiv> NewClientConn [Inr (wire s, False)]"

lemma idle_new [simp]: "idle (NewClientConn script)" "vc_script (NewClientConn script) = script" "vc_sent (NewClientConn script) = []"
  "vc_handlers (NewClientConn script) = []"
  by (simp_all add: idle_def NewClientConn_def)

theorem vici_request_witness:
  "\<exists>c' bytes. Request (\<lambda>_. 0) 5 ''terminate'' (terminate_request ''7'') (answering (response_seg [(''success'', GStr ''yes'')])) =
      Ok (Inr [(''success'', GStr ''yes'')], c') \<and> vc_sent c' = [bytes] \<and>
    readSegment (\<lambda>_. 0) (bytes @ ''next'') = Ok (request_seg ''terminate'' (terminate_request ''7''), ''next'')"
proof -
  let ?r = "response_seg [(''success'', GStr ''yes'')]"
  have q: "on_wire (request_seg ''terminate'' (terminate_request ''7''))" "sent (terminate_request ''7'') = terminate_request ''7''" by code_simp+
  obtain c' bytes where "Request (\<lambda>_. 0) 5 ''terminate'' (terminate_request ''7'') (answering ?r) = Ok (Inr (sent [(''success'', GStr ''yes'')]), c')"
      "vc_sent c' = vc_sent (answering ?r) @ [bytes]"
      "\<forall>ahead' later. readSegment ahead' (bytes @ later) = Ok (request_seg ''terminate'' (sent (terminate_request ''7'')), later)"
    using vici_request[OF idle_new(1) q(1) response_yes(1), of 5 "[Inr (wire ?r, False)]" "[]" "\<lambda>_. 0"] by auto
  then show ?thesis using response_yes(2) q(2) by (intro exI[of _ c'] exI[of _ bytes]) simp
qed

definition demo_sa :: "gval gomap" where
  "demo_sa = [(''conn-192.0.2.20'', GMap [(''uniqueid'', GStr ''7''), (''state'', GStr ''ESTABLISHED''), (''remote-host'', GStr ''192.0.2.20''),
     (''child-sas'', GMap [(''child-192.0.2.20-1'', GMap [(''state'', GStr ''INSTALLED''), (''bytes-in'', GStr ''42'')])])])]"

abbreviation demo_charon :: ClientConn where
  "demo_charon \<equiv> NewClientConn [Inr (wire confirm_seg, False), Inr (wire (event_seg ''list-sa'' demo_sa) @ wire (response_seg []), False), Inr (wire confirm_seg, False)]"

theorem vici_list_sas_witness:
  "\<exists>c'. ListSas (\<lambda>_. 0) 1 2 1 [] [] demo_charon =
    Ok (([[(''conn-192.0.2.20'', zeroSa\<lparr>sa_Uniqueid := ''7'', sa_State := ''ESTABLISHED'', sa_Remote_host := ''192.0.2.20'',
      sa_Child_sas := [(''child-192.0.2.20-1'', zeroChildSa\<lparr>cs_State := ''INSTALLED'', cs_Bytes_in := ''42''\<rparr>)]\<rparr>)]], None), c')"
proof -
  have w: "list_all (\<lambda>m. on_wire (event_seg ''list-sa'' m)) [demo_sa]" "on_wire (response_seg [])" by code_simp+
  have m: "List.map_filter (converted dec_sas) (map sent [demo_sa]) =
      [[(''conn-192.0.2.20'', zeroSa\<lparr>sa_Uniqueid := ''7'', sa_State := ''ESTABLISHED'', sa_Remote_host := ''192.0.2.20'',
        sa_Child_sas := [(''child-192.0.2.20-1'', zeroChildSa\<lparr>cs_State := ''INSTALLED'', cs_Bytes_in := ''42''\<rparr>)]\<rparr>)]]" by code_simp
  show ?thesis
    using vici_list_sas[OF w, of 1 2 1 demo_charon "[]" "\<lambda>_. 0"] unfolding m by auto
qed

text \<open>The connection that a host gets from templates: complete ones, and a child template without any field.\<close>

definition demo_conf :: "string \<Rightarrow> IKEConnectionConfig" where
  "demo_conf childText = Connection (host_identity \<lparr>tm_ConfigDir = [], tm_ikeConf = ''{}'', tm_childSaConf = childText, tm_revision = []\<rparr> []
     ''192.0.2.10'' ''192.0.2.10'' ''192.0.2.20'' True)"

definition demo_child :: string where
  \<open>demo_child = ''{"local_ts":["0.0.0.0/0"],"remote_ts":["0.0.0.0/0"],"mode":"tunnel"}''\<close>

theorem connection_on_wire_witness:
  "\<forall>env. \<exists>c' bytes. loadIKEConnection (socket_env (\<lambda>m. m) (\<lambda>_. 0) 1 env) ''conn-192.0.2.20'' (demo_conf demo_child) (answering (response_seg [(''success'', GStr ''yes'')])) = (None, c') \<and>
     vc_sent c' = [bytes] \<and>
     readSegment (\<lambda>_. 0) (bytes @ ''next'') = Ok (request_seg ''load-conn'' (load_request ''conn-192.0.2.20'' (demo_conf demo_child)), ''next'')"
proof
  fix env
  let ?c = "demo_conf demo_child" and ?r = "response_seg [(''success'', GStr ''yes'')]"
  have q: "complete_conf (demo_conf demo_child)" "on_wire (request_seg ''load-conn'' (load_request ''conn-192.0.2.20'' (demo_conf demo_child)))" by code_simp+
  obtain c' bytes where "loadIKEConnection (socket_env (\<lambda>m. m) (\<lambda>_. 0) 1 env) ''conn-192.0.2.20'' ?c (answering ?r) = (None, c')"
      "vc_sent c' = vc_sent (answering ?r) @ [bytes]"
      "\<forall>ahead' later. readSegment ahead' (bytes @ later) = Ok (request_seg ''load-conn'' (load_request ''conn-192.0.2.20'' ?c), later)"
    using connection_on_wire[where name = "''conn-192.0.2.20''" and visit = "\<lambda>m. m" and n = 1 and c = "answering ?r" and rs = "[]"
        and ahead = "\<lambda>_. 0" and env = env, OF idle_new(1) q(1) same_refl q(2)] by auto
  then show "\<exists>c' bytes. loadIKEConnection (socket_env (\<lambda>m. m) (\<lambda>_. 0) 1 env) ''conn-192.0.2.20'' ?c (answering ?r) = (None, c') \<and>
      vc_sent c' = [bytes] \<and> readSegment (\<lambda>_. 0) (bytes @ ''next'') = Ok (request_seg ''load-conn'' (load_request ''conn-192.0.2.20'' ?c), ''next'')"
    by (intro exI[of _ c'] exI[of _ bytes]) simp
qed

theorem null_truncates_child_witness:
  "\<exists>fields c1 c2 bytes c'. load_request ''conn-192.0.2.20'' (demo_conf ''{}'') =
      [(''conn-192.0.2.20'', GMap (c1 @ (''children'', GMap [(''child-192.0.2.20'', GMap ((''local_ts'', GNull) # fields))]) # c2))] \<and>
    map_of fields ''reqid'' = Some (GStr ''1234'') \<and>
    Request (\<lambda>_. 0) 1 ''load-conn'' (load_request ''conn-192.0.2.20'' (demo_conf ''{}'')) (answering (response_seg [(''success'', GStr ''yes'')])) =
      Ok (Inr [(''success'', GStr ''yes'')], c') \<and> vc_sent c' = [bytes] \<and>
    readSegment (\<lambda>_. 0) (bytes @ ''next'') =
      Ok (request_seg ''load-conn'' [(''conn-192.0.2.20'', GMap (sent c1 @ (''children'', GMap [(''child-192.0.2.20'', GMap [])]) # sent c2))], ''next'')"
proof -
  let ?req = "load_request ''conn-192.0.2.20'' (demo_conf ''{}'')" and ?r = "response_seg [(''success'', GStr ''yes'')]"
  define cf where "cf = (case ?req of [(_, GMap cf)] \<Rightarrow> cf | _ \<Rightarrow> [])"
  define c1 where "c1 = takeWhile (\<lambda>(k, v). k \<noteq> ''children'') cf"
  define c2 where "c2 = tl (dropWhile (\<lambda>(k, v). k \<noteq> ''children'') cf)"
  define fields where "fields = (case map_of cf ''children'' of Some (GMap [(_, GMap (_ # m))]) \<Rightarrow> m | _ \<Rightarrow> [])"
  have req: "?req = [(''conn-192.0.2.20'', GMap (c1 @ (''children'', GMap [(''child-192.0.2.20'', GMap ([] @ (''local_ts'', GNull) # fields))]) # c2))]"
    unfolding c1_def c2_def fields_def cf_def by code_simp
  have w: "list_all (\<lambda>(k, v). sendable v) c1" "map_of fields ''reqid'' = Some (GStr ''1234'')"
    unfolding c1_def fields_def cf_def by code_simp+
  have q: "on_wire (request_seg ''load-conn'' ?req)" by code_simp
  obtain c' bytes where "Request (\<lambda>_. 0) 1 ''load-conn'' ?req (answering ?r) = Ok (Inr (sent [(''success'', GStr ''yes'')]), c')"
      "vc_sent c' = vc_sent (answering ?r) @ [bytes]"
      "\<forall>ahead' later. readSegment ahead' (bytes @ later) =
        Ok (request_seg ''load-conn'' [(''conn-192.0.2.20'', GMap (sent c1 @ (''children'', GMap [(''child-192.0.2.20'', GMap (sent []))]) # sent c2))], later)"
    using null_truncates_child[OF idle_new(1) req w(1) _ q response_yes(1), of 1 "[Inr (wire ?r, False)]" "[]" "\<lambda>_. 0"] by auto
  note f = this
  show ?thesis
    by (rule exI[of _ fields], rule exI[of _ c1], rule exI[of _ c2], rule exI[of _ bytes], rule exI[of _ c'],
        use f req w(2) response_yes(2) in simp)
qed

end
