(* ===== verification/Spec2Isabelle.thy ===== *)
theory Spec2Isabelle
  imports App Topology_Decode Vxlan_System Checker_System Cni_Resolver Daemon_System Vici_Client
begin

text \<open>
  A verification development for the IPsec and VXLAN overlay network.

  \<^bold>\<open>The program.\<close> A daemon runs on every host of a cluster and connects the containers of all hosts.
  A \<^emph>\<open>store\<close> says which container address is on which host: \<^verbatim>\<open>store/simple.go\<close> reads a JSON file,
  \<^verbatim>\<open>store/metadata.go\<close> the platform's metadata service. A \<^emph>\<open>backend\<close> turns the store into kernel
  state: \<^verbatim>\<open>backend/ipsec\<close> loads connections into the IKE daemon charon and keeps XFRM policies and host
  routes, \<^verbatim>\<open>backend/vxlan\<close> keeps a VTEP with routes, neighbour and forwarding entries. Around them
  run an ARP proxy (\<^verbatim>\<open>arp\<close>), which answers for the addresses the store calls remote, an HTTP server
  (\<^verbatim>\<open>server\<close>) and a handler of metadata changes (\<^verbatim>\<open>mdchandler\<close>), both of which make the backend reload;
  \<^verbatim>\<open>main.go\<close> starts all of these. A sidecar (\<^verbatim>\<open>connectivitycheck\<close>) measures whether the other hosts
  can be reached, a CNI wrapper (\<^verbatim>\<open>cmd/pasture-cni-resolver\<close>) fills in host labels, and an offline
  command (\<^verbatim>\<open>internal/topology\<close>, \<^verbatim>\<open>cmd/ipsec-vxlan-overlay-network\<close>) audits a topology.

  \<^bold>\<open>Conventions.\<close> An object with mutable fields is a record that operations return updated. Fallible
  calls return a sum (\<open>Inl\<close> the error) or a Go pair of result and \<open>error option\<close>; calls that may panic
  return an \<open>outcome\<close>. A Go map is an association list with distinct keys (\<open>gomap\<close>); the order of a
  \<^verbatim>\<open>range\<close> is an argument \<open>ro\<close>, about which theorems assume only that it is a permutation
  (\<open>valid_order\<close>). What the code calls outside this repository (netlink, the VICI socket, files, HTTP,
  processes, the clock) is an environment argument that acts on a world \<open>'w\<close>; what is assumed of it
  is a named hypothesis (\<open>xfrm_kernel\<close>, \<open>policy_frame\<close>, \<open>vx_kernel\<close> and others), and a witness gives
  an environment that satisfies it. Strings are byte strings, fixed-width numbers are words or have
  their wrap-around written out.

  \<^bold>\<open>Go's library.\<close> \<open>Prelude\<close> (errors, outcomes, maps, shared list facts), \<open>Go_Strings\<close> (\<^verbatim>\<open>strings\<close>,
  \<^verbatim>\<open>strconv\<close>), \<open>Go_Net\<close> (\<^verbatim>\<open>net\<close>, \<^verbatim>\<open>net/netip\<close>), \<open>Go_Json\<close> (\<^verbatim>\<open>encoding/json\<close>), \<open>Go_Flags\<close> (\<^verbatim>\<open>flag\<close>),
  \<open>Go_Http\<close> (paths and the multiplexer of \<^verbatim>\<open>net/http\<close>), \<open>Go_Crypto\<close> (SHA-1 and SHA-256).

  \<^bold>\<open>Stores.\<close> \<open>Store\<close> and \<open>Metadata_Store\<close>: every reader and \<^verbatim>\<open>Reload\<close> with every error branch. The
  interface of \<^verbatim>\<open>store/store.go\<close> is the locale \<open>overlay_store\<close> (an invariant, and the laws that
  classification and entries agree); both stores are interpretations. Shown: the classification after
  any sequence of reloads, what a reload installs, and that a failed one changes nothing.

  \<^bold>\<open>IPsec backend.\<close> \<open>Ipsec_Types\<close> (the overlay object, policies, VICI records), \<open>Ipsec_SA\<close> (decisions
  about security associations), \<open>Ipsec_Conn\<close> (templates, connections and their fingerprints, the
  clean-up after a change of the local address), \<open>Ipsec_Policy\<close> (XFRM policies), \<open>Ipsec_Overlay\<close> (the
  operations of \<^verbatim>\<open>ipsec.go\<close> up to \<^verbatim>\<open>configure\<close> and \<^verbatim>\<open>Reload\<close>), \<open>Ipsec_Configure\<close> and \<open>Ipsec_Reconciled\<close>
  (what a configuration guarantees of the overlay object and of the kernel), \<open>Ipsec_Health\<close> (charon's
  supervision, initiation with retries, the health check), \<open>Ipsec_System\<close> (the goroutines as an
  inductive step relation, one step per locked section) and \<open>Ipsec_Wf\<close> (well-formedness of the
  overlay object on every branch of every operation).

  \<^bold>\<open>VXLAN backend.\<close> \<open>Vxlan\<close> (netlink operations and entries), \<open>Vxlan_Overlay\<close> (\<^verbatim>\<open>vxlan.go\<close>),
  \<open>Vxlan_Kernel\<close> (the effect of one entry on the kernel's tables), \<open>Vxlan_Sync\<close>. Peers and remote
  containers are reconciled by the same scheme, the locale \<open>reconciler\<close>, interpreted for both. Shown:
  a round leaves the kernel with exactly the objects of the remembered entries, any number of rounds
  leave nothing of earlier stores behind, and what a failing netlink call or an IPv6 address does.
  \<open>Vxlan_System\<close> composes it with the stores, whose map of peers the backend itself changes: the locale
  \<open>vxlan_store\<close> carries the proof that from the start of the daemon on store and kernel agree, and
  both stores are interpretations. \<^verbatim>\<open>configure\<close> of this backend holds no lock (the calls are commented
  out), so the theorems are about rounds that do not overlap.

  \<^bold>\<open>VICI.\<close> The vendored client of charon's socket (\<^verbatim>\<open>goStrongswanVici\<close>). \<open>Vici_Wire\<close>: the format of \<^verbatim>\<open>msg.go\<close>,
  writing and reading, with the abstract \<open>sent\<close>, the part of a message that reaches the wire; what is
  written is read back as that part, and the code that drops errors inside sections is why
  it is not always all. \<open>Vici_Client\<close>: the connection of \<^verbatim>\<open>clientConn.go\<close> with its reading goroutine,
  requests, events and the listings. The answers of charon are a script of bytes; the rounds that the
  goroutine makes during a wait are an argument, and the theorems hold for every number that is
  enough to read the answer. Shown: a request reaches charon and its answer the caller, listings return
  what was sent in between, a complete connection arrives whole, and a null field cuts its section.

  \<^bold>\<open>Daemon.\<close> \<open>Daemon\<close>: ARP proxy, HTTP server, change handler, and the locale \<open>overlay_backend\<close>, the
  law of \<^verbatim>\<open>Reload\<close> that they rely on, interpreted by both backends. \<open>Daemon_System\<close>: the locale \<open>reloadable_store\<close>,
  which extends \<open>overlay_store\<close> and carries the composition of a store with the IPsec backend, the
  interface of \<^verbatim>\<open>backend/backend.go\<close> as the record \<open>Backend\<close> with both backends as its values, and the
  steps of the whole daemon, of which bringing it up is a sequence. \<open>App\<close>: the Docker firewall driver and \<^verbatim>\<open>main.go\<close>, whose start is a sequence
  of actions with the answers of the surroundings as an argument. The theorems of this theory span
  store, backend, kernel and proxy.

  \<^bold>\<open>Sidecar and tools.\<close> \<open>Checker\<close> and \<open>Checker_System\<close>: peers are objects on an explicit heap, shared by
  two maps and their goroutines; the invariant is shown for all interleavings. \<open>Cni_Resolver\<close>,
  \<open>Topology\<close>, \<open>Topology_Valid\<close>, \<open>Topology_Decode\<close>: decoding, validation, the plan and its independence of
  the order of nodes.

  \<^bold>\<open>Loops, fuel and bounds.\<close> The JSON parser recurses with fuel: one unit more than the length of the
  text, and each call consumes a character, so the fuel never ends first; the nesting limit of
  \<^verbatim>\<open>encoding/json\<close> is part of the model. The wait for a port that another process holds
  (\<open>handoff_loop\<close>) is a \<open>partial_function\<close> on options, and that it returns is a theorem. Retries are
  bounded by the constants of the code. Endless loops (the change handler, the monitors, the servers,
  a peer's goroutine) are functions of the finite sequence of events they have seen, or step relations.

  \<^bold>\<open>Not modelled.\<close> Log output (but for the sanitising of \<^verbatim>\<open>internal/logsafe\<close>); the passing of time
  (sleeps and tickers are the points at which other steps may happen); the sockets under
  HTTP, ARP, netlink and VICI, which are environment arguments or scripts; requests of the VICI library
  that the program never makes; the parsing of
  the daemon's command line by \<^verbatim>\<open>urfave/cli\<close>, an argument of \<open>main_program\<close> (the defaults and the
  environment variables of the flags are modelled); the polling inside the metadata client; data races
  on unlocked fields, apart from the pre-shared key of the IPsec backend, which is its own step.
\<close>

section \<open>An example\<close>

text \<open>
  A configuration file and a metadata service that describe the same network: this host, and one
  workload on another. Both stores show the backend the view \<open>example_db\<close>.
\<close>

definition demo_text :: string where
  "demo_text = ''{\"entries\":[{\"ip\":\"10.42.0.1/16\",\"hostIp\":\"192.0.2.10\",\"self\":true,\"peer\":true},{\"ip\":\"10.42.0.3/16\",\"hostIp\":\"192.0.2.20\"}]}''"

definition demo_service :: service where
  "demo_service = example_service\<lparr>s_Containers := [example_container ''10.42.0.1'' ''h1'']\<rparr>"

definition demo_client :: metadata_client where
  "demo_client = example_client\<lparr>GetContainers := Inr [example_container ''10.42.0.1'' ''h1'', example_container ''10.42.0.3'' ''h2''],
     GetServices := Inr [demo_service], GetSelfService := Inr demo_service\<rparr>"

lemma demo_file:
  "fst (Simple_Reload (\<lambda>_. Inr demo_text) (NewSimpleStore ''config.json'' [])) = None"
  "simple_view (snd (Simple_Reload (\<lambda>_. Inr demo_text) (NewSimpleStore ''config.json'' []))) = example_db"
  by code_simp+

lemma demo_metadata:
  "fst (MetadataStore_Reload demo_client (newMetadataStore [])) = None"
  "metadata_view (snd (MetadataStore_Reload demo_client (newMetadataStore []))) = example_db"
  by code_simp+

lemma demo_reload:
  assumes "fst (sreload d) = None" "view (snd (sreload d)) = example_db"
  obtains targets ov' w' where "Overlay_Reload example_env (\<lambda>_ ks. ks) sreload view d example_overlay example_stale =
    (None, targets, snd (sreload d), ov', w')"
proof -
  obtain targets ov' w' where c: "configure example_env (\<lambda>_ ks. ks) example_db example_overlay example_stale = (None, targets, ov', w')"
    by (rule example_configure)
  have f: "env_ReadFile example_env = (\<lambda>_ w. (Inr ''{}'', w))" by (simp add: example_env_def)
  have t: "trimSpace ''{}'' = ''{}''" by code_simp
  have o: "example_overlay\<lparr>o_psk := ''{}''\<rparr> = example_overlay" by (simp add: example_overlay_def)
  have r: "sreload d = (None, snd (sreload d))" using assms(1) by (metis prod.collapse)
  have "Overlay_Reload example_env (\<lambda>_ ks. ks) sreload view d example_overlay example_stale = (None, targets, snd (sreload d), ov', w')"
    by (subst Overlay_Reload_def, subst r) (simp add: assms(2) f t o c)
  then show thesis by (rule that)
qed

lemma demo_kernel:
  "inj_on selector (set example_stale)" "inj_on toKey {p \<in> set example_stale. managed_dir p}"
  "localTunnelAddress example_overlay example_db = ''10.42.0.1''"
proof -
  have "length example_stale \<le> 1" by (simp add: example_stale_def)
  then show "inj_on selector (set example_stale)" "inj_on toKey {p \<in> set example_stale. managed_dir p}"
    using inj_on_short by (auto intro: inj_on_subset)
qed (simp add: localTunnelAddress_def example_overlay_def NewOverlay_def example_db_def)

section \<open>From the configuration to the kernel\<close>





text \<open>
  C6. The daemon with the IPsec backend and the metadata store. Whatever the order of requests over
  HTTP, notifications of changes, health checks, reloads of the store, locked sections of the backend
  and changes of the kernel, and whatever the metadata service answers: the overlay object is
  well-formed, no host is initiated by two goroutines, the marks are exactly the hosts that
  goroutines still have to process, and the addresses the ARP proxy answers for are exactly those
  of the store's entries on other hosts, each of which has one entry only.
\<close>

theorem daemon_invariant:
  assumes "(daemon_step env MetadataStore_Reload metadata_view)\<^sup>*\<^sup>*
    (newMetadataStore ip, (NewOverlay dir)\<lparr>o_NetnsPath := np, o_SyncHostRoutes := sr, o_UseHostTunnelSource := ht, o_Blacklist := bl\<rparr>, [], w)
    (d, ov, jobs, w')"
  shows "overlay_wf ov \<and> distinct (concat jobs) \<and> {h. mtest (o_initiating ov) h} = set (concat jobs) \<and>
    {a. MS_IsRemote d a} = ipNoCidr ` {e \<in> set (MS_Entries d). HostIpAddress e \<noteq> MS_LocalHostIpAddress d} \<and>
    distinct (map ipNoCidr (MS_Entries d))"
proof -
  let ?ov = "(NewOverlay dir)\<lparr>o_NetnsPath := np, o_SyncHostRoutes := sr, o_UseHostTunnelSource := ht, o_Blacklist := bl\<rparr>"
  have s: "ms_inv d" "(ipsec_step env)\<^sup>*\<^sup>* \<lparr>sys_overlay = ?ov, sys_jobs = [], sys_world = w\<rparr> \<lparr>sys_overlay = ov, sys_jobs = jobs, sys_world = w'\<rparr>"
    using metadata_reloads.daemon_inv[OF assms] newMetadataStore_inv by auto
  have wf: "overlay_wf ov" using reachable_wf[OF s(2)] by simp
  have "ipsec_reachable env \<lparr>sys_overlay = ov, sys_jobs = jobs, sys_world = w'\<rparr>"
    by (rule reachable_rtranclp[OF s(2)], rule ipsec_reachable.start) (simp add: NewOverlay_def)
  from reachable_jobs_inv[OF this] have j: "distinct (concat jobs)" "{h. mtest (o_initiating ov) h} = set (concat jobs)"
    by (simp_all add: jobs_inv_def marks_def)
  show ?thesis using wf j ms_inv_remote[OF s(1)] by blast
qed

theorem daemon_invariant_witness:
  "\<exists>d ov jobs w. (daemon_step example_env MetadataStore_Reload metadata_view)\<^sup>*\<^sup>*
      (newMetadataStore [], NewOverlay ''/etc/ipsec'', [], example_stale) (d, ov, jobs, w) \<and>
    jobs = [[''192.0.2.20'']] \<and> overlay_wf ov \<and> {h. mtest (o_initiating ov) h} = {''192.0.2.20''} \<and> MS_IsRemote d ''10.42.0.3'' \<and>
    ''10.42.0.3'' \<in> ipNoCidr ` {e \<in> set (MS_Entries d). HostIpAddress e \<noteq> MS_LocalHostIpAddress d}"
proof -
  let ?s = "newMetadataStore []" and ?m = "[(''192.0.2.20'', True)]"
  let ?d = "snd (MetadataStore_Reload demo_client ?s)"
  let ?ov = "(NewOverlay ''/etc/ipsec'')\<lparr>o_NetnsPath := [], o_SyncHostRoutes := False, o_UseHostTunnelSource := False, o_Blacklist := []\<rparr>"
  let ?sys = "\<lparr>sys_overlay = ?ov, sys_jobs = [], sys_world = example_stale\<rparr>"
  have ov: "?ov = NewOverlay ''/etc/ipsec''" by (simp add: NewOverlay_def)
  obtain ts ov' where sch: "scheduleInitiatesLocked (\<lambda>_ ks. ks) ?m (sys_overlay ?sys) = (ts, ov')" by (metis prod.exhaust)
  have "fst (scheduleInitiatesLocked (\<lambda>_ ks. ks) ?m ?ov) = [''192.0.2.20'']" by code_simp
  with sch have t: "ts = [''192.0.2.20'']" by simp
  have k: "gomap_ok ?m" by (simp add: gomap_ok_def)
  have "ipsec_step example_env (sys_of (?d, ?ov, [], example_stale)) (sys_of (?d, ov', [[''192.0.2.20'']], example_stale))"
    using ipsec_step.healthScheduled[OF valid_order_id k sch, of example_env] by (simp add: t spawn_def)
  from daemon_step.backend_stepped[OF this]
  have s2: "daemon_step example_env MetadataStore_Reload metadata_view (?d, ?ov, [], example_stale) (?d, ov', [[''192.0.2.20'']], example_stale)"
    by simp
  have s1: "daemon_step example_env MetadataStore_Reload metadata_view (?s, ?ov, [], example_stale) (?d, ?ov, [], example_stale)"
    by (rule daemon_step.store_reloaded)
  have st: "(daemon_step example_env MetadataStore_Reload metadata_view)\<^sup>*\<^sup>*
      (?s, ?ov, [], example_stale) (?d, ov', [[''192.0.2.20'']], example_stale)"
    by (rule rtranclp.rtrancl_into_rtrancl, rule rtranclp.rtrancl_into_rtrancl, rule rtranclp.rtrancl_refl, rule s1, rule s2)
  have a: "MS_IsRemote ?d ''10.42.0.3''" by code_simp
  show ?thesis
    using daemon_invariant[OF st] st a unfolding ov
    by (intro exI[of _ ?d] exI[of _ ov'] exI[of _ "[[''192.0.2.20'']]"] exI[of _ example_stale]) auto
qed

end
